(* ===== verification/Prelude.thy ===== *)
theory Prelude
  imports Complex_Main "HOL-Library.Word" "HOL-Library.Sublist"
begin

unbundle bit_operations_syntax

text \<open>
  What every theory of the development shares: names for the machine integers of the
  source, the collections of rewrite rules the component theories fill, and the generic
  facts on rationals, powers of two and lists that more than one component uses.
\<close>

section \<open>Machine integers\<close>

text \<open>
  Unsigned integers of the source are words, so arithmetic on them wraps as in C++.
  Signed integers (\<open>std::int64_t\<close>, \<open>int\<close>) are \<open>int\<close>: their overflow is undefined in
  C++, so no defined run of the program wraps one.
\<close>

type_synonym u8 = "8 word"
type_synonym u32 = "32 word"
type_synonym u64 = "64 word"
type_synonym i64 = int
type_synonym bytes = "u8 list"

section \<open>Collections of rewrite rules\<close>

named_theorems double_eval \<open>evaluation of closed binary64 expressions\<close>
named_theorems world_simps \<open>which part of the outside world each primitive changes\<close>
named_theorems record_frame \<open>fields an operation leaves alone\<close>
named_theorems handler_defs \<open>definitions of the operations of a component\<close>

section \<open>Powers of two over the rationals\<close>

lemma pow2_pos [simp]: "0 < (2::rat) powi e"
  by (rule zero_less_power_int) simp

lemma pow2_nonneg [simp]: "0 \<le> (2::rat) powi e"
  by (rule less_imp_le) simp

lemma pow2_not_neg [simp]: "\<not> (2::rat) powi e < 0"
  by (simp add: not_less)

lemma pow2_nonzero [simp]: "(2::rat) powi e \<noteq> 0"
  by (simp add: power_int_eq_0_iff)

lemma pow2_mono: "a \<le> b \<Longrightarrow> (2::rat) powi a \<le> 2 powi b"
  by (rule power_int_increasing) simp_all

lemma pow2_add: "(2::rat) powi (a + b) = 2 powi a * 2 powi b"
  by (rule power_int_add) simp

lemma pow2_less_imp: "(2::rat) powi a < 2 powi b \<Longrightarrow> a < b"
  by (metis linorder_not_less pow2_mono)

lemma pow2_minus_nat: "(2::rat) powi (- int n) = 1 / 2 ^ n"
  by (metis inverse_eq_divide power_int_minus power_int_of_nat)

text \<open>The number of binary digits of a natural number.\<close>

fun nbits :: "nat \<Rightarrow> nat" where
  "nbits n = (if n = 0 then 0 else Suc (nbits (n div 2)))"

declare nbits.simps [simp del]

lemma nbits_0 [double_eval]: "nbits 0 = 0"
  by (simp add: nbits.simps)

lemma nbits_1 [double_eval]: "nbits (Suc 0) = 1"
  by (subst nbits.simps) (simp add: nbits_0)

lemma nbits_numeral [double_eval]: "nbits (numeral n) = Suc (nbits (numeral n div 2))"
  by (subst nbits.simps) simp

lemma nbits_bounds: "0 < n \<Longrightarrow> 2 ^ (nbits n - 1) \<le> n \<and> n < 2 ^ nbits n \<and> 0 < nbits n"
proof (induction n rule: nbits.induct)
  case (1 n)
  show ?case
  proof (cases "n = 1")
    case True
    then show ?thesis by (simp add: nbits_1)
  next
    case False
    with "1.prems" have pos: "0 < n div 2" by simp
    with "1.IH" "1.prems" have IH: "2 ^ (nbits (n div 2) - 1) \<le> n div 2"
      "n div 2 < 2 ^ nbits (n div 2)" "0 < nbits (n div 2)" by auto
    have eq: "nbits n = Suc (nbits (n div 2))"
      using "1.prems" by (subst nbits.simps) simp
    from IH(3) obtain k where k: "nbits (n div 2) = Suc k"
      using gr0_implies_Suc by blast
    from IH k have "2 * 2 ^ k \<le> n" "n < 2 * 2 ^ Suc k" by simp_all
    with eq k show ?thesis by simp
  qed
qed

text \<open>Floors and ceilings of rational literals, for evaluation.\<close>

lemma floor_rat_numeral [double_eval]:
  "\<lfloor>(numeral a :: rat) / numeral b\<rfloor> = numeral a div numeral b"
  by (metis floor_divide_of_int_eq of_int_numeral)

lemma floor_rat_one [double_eval]: "\<lfloor>(1 :: rat) / numeral b\<rfloor> = 1 div numeral b"
  by (metis floor_divide_of_int_eq of_int_1 of_int_numeral)

lemma ceiling_rat_numeral [double_eval]:
  "\<lceil>(numeral a :: rat) / numeral b\<rceil> = - ((- numeral a) div numeral b)"
  by (metis ceiling_divide_eq_div of_int_numeral)

section \<open>Decimal strings\<close>

text \<open>\<open>std::to_string\<close> of an unsigned and of a signed integer.\<close>

definition dec_digit :: "nat \<Rightarrow> char" where
  "dec_digit n = char_of (48 + n)"

fun dec_string :: "nat \<Rightarrow> string" where
  "dec_string n = (if n < 10 then [dec_digit n] else dec_string (n div 10) @ [dec_digit (n mod 10)])"

declare dec_string.simps [simp del]

definition int_string :: "int \<Rightarrow> string" where
  "int_string n = (if n < 0 then CHR ''-'' # dec_string (nat (- n)) else dec_string (nat n))"

end
