(* ===== verification/Doubles.thy ===== *)
theory Doubles
  imports Prelude
begin

text \<open>
  The C++ type \<open>double\<close>: IEEE 754 binary64 with rounding to nearest, ties to even, which
  is what the compilers of \<open>CMakeLists.txt\<close> (Clang, GCC on x86-64 and ARM64) implement.
  A value is a NaN, an infinity or a finite rational; every arithmetic operation computes
  the exact rational result and rounds it with \<open>rnd\<close>, overflow and subnormals included,
  so the model is executable and rounds exactly where the program rounds.  The two zeros
  are identified: they compare equal in C++, and no expression of the modelled code divides
  by a value that can be zero.  Comparisons are false on NaN, as in C++.
\<close>

section \<open>The type and the rounding function\<close>

datatype double = NaN | Infinite bool | Fin rat
  \<comment> \<open>the \<open>bool\<close> of an infinity is its sign, \<open>True\<close> for minus\<close>

definition ilog2 :: "rat \<Rightarrow> int" where
  "ilog2 x = (if 1 \<le> x then int (nbits (nat \<lfloor>x\<rfloor>)) - 1
              else - int (nbits (nat (\<lceil>1 / x\<rceil> - 1))))"

definition rne :: "rat \<Rightarrow> int" where
  "rne x = (let f = \<lfloor>x\<rfloor>; d = x - of_int f in
     if d < 1 / 2 then f else if 1 / 2 < d then f + 1 else if even f then f else f + 1)"

definition ulp_exp :: "rat \<Rightarrow> int" where
  "ulp_exp x = max (ilog2 x - 52) (- 1074)"

definition round53 :: "rat \<Rightarrow> rat" where
  "round53 x = (let u = 2 powi ulp_exp x in of_int (rne (x / u)) * u)"

definition dbl_limit :: rat where
  "dbl_limit = 2 ^ 1024"

definition rnd :: "rat \<Rightarrow> double" where
  "rnd x = (if x = 0 then Fin 0
     else let y = round53 \<bar>x\<bar> in
       if dbl_limit \<le> y then Infinite (x < 0) else Fin (if x < 0 then - y else y))"

text \<open>A value the hardware can hold: a rational that rounds to itself.\<close>

fun dbl_ok :: "double \<Rightarrow> bool" where
  "dbl_ok (Fin r) = (rnd r = Fin r)"
| "dbl_ok _ = True"

fun is_finite :: "double \<Rightarrow> bool" where
  "is_finite (Fin r) = True"
| "is_finite _ = False"

fun is_nan :: "double \<Rightarrow> bool" where
  "is_nan NaN = True"
| "is_nan _ = False"

section \<open>Operations\<close>

instantiation double :: "{zero, one, plus, minus, uminus, times, inverse, abs, ord}"
begin

definition zero_double :: double where
  "zero_double = Fin 0"

definition one_double :: double where
  "one_double = Fin 1"

fun plus_double :: "double \<Rightarrow> double \<Rightarrow> double" where
  "plus_double (Fin a) (Fin b) = rnd (a + b)"
| "plus_double (Infinite s) (Infinite t) = (if s = t then Infinite s else NaN)"
| "plus_double (Infinite s) (Fin b) = Infinite s"
| "plus_double (Fin a) (Infinite t) = Infinite t"
| "plus_double NaN _ = NaN"
| "plus_double _ NaN = NaN"

fun uminus_double :: "double \<Rightarrow> double" where
  "uminus_double (Fin a) = Fin (- a)"
| "uminus_double (Infinite s) = Infinite (\<not> s)"
| "uminus_double NaN = NaN"

definition minus_double :: "double \<Rightarrow> double \<Rightarrow> double" where
  "minus_double a b = a + (- b)"

fun times_double :: "double \<Rightarrow> double \<Rightarrow> double" where
  "times_double (Fin a) (Fin b) = rnd (a * b)"
| "times_double (Infinite s) (Infinite t) = Infinite (s \<noteq> t)"
| "times_double (Infinite s) (Fin b) = (if b = 0 then NaN else Infinite (s \<noteq> (b < 0)))"
| "times_double (Fin a) (Infinite t) = (if a = 0 then NaN else Infinite ((a < 0) \<noteq> t))"
| "times_double NaN _ = NaN"
| "times_double _ NaN = NaN"

fun divide_double :: "double \<Rightarrow> double \<Rightarrow> double" where
  "divide_double (Fin a) (Fin b) =
     (if b = 0 then (if a = 0 then NaN else Infinite (a < 0)) else rnd (a / b))"
| "divide_double (Infinite s) (Infinite t) = NaN"
| "divide_double (Infinite s) (Fin b) = Infinite (s \<noteq> (b < 0))"
| "divide_double (Fin a) (Infinite t) = Fin 0"
| "divide_double NaN _ = NaN"
| "divide_double _ NaN = NaN"

definition inverse_double :: "double \<Rightarrow> double" where
  "inverse_double a = 1 div a"

fun abs_double :: "double \<Rightarrow> double" where
  "abs_double (Fin a) = Fin \<bar>a\<bar>"
| "abs_double (Infinite s) = Infinite False"
| "abs_double NaN = NaN"

fun less_eq_double :: "double \<Rightarrow> double \<Rightarrow> bool" where
  "less_eq_double (Fin a) (Fin b) = (a \<le> b)"
| "less_eq_double (Infinite s) (Infinite t) = (s \<or> \<not> t)"
| "less_eq_double (Infinite s) (Fin b) = s"
| "less_eq_double (Fin a) (Infinite t) = (\<not> t)"
| "less_eq_double NaN _ = False"
| "less_eq_double _ NaN = False"

fun less_double :: "double \<Rightarrow> double \<Rightarrow> bool" where
  "less_double (Fin a) (Fin b) = (a < b)"
| "less_double (Infinite s) (Infinite t) = (s \<and> \<not> t)"
| "less_double (Infinite s) (Fin b) = s"
| "less_double (Fin a) (Infinite t) = (\<not> t)"
| "less_double NaN _ = False"
| "less_double _ NaN = False"

instance ..

end

text \<open>
  Equality of C++ is not HOL equality on NaN. \<open>std::min\<close> and \<open>std::max\<close> are the
  library's definitions, whose result on NaN depends on the argument order.
  \<open>D r\<close> is the literal \<open>r\<close> of the source, rounded as the compiler rounds it.
\<close>

definition deq :: "double \<Rightarrow> double \<Rightarrow> bool" where
  "deq a b \<longleftrightarrow> a \<le> b \<and> b \<le> a"

definition std_min :: "double \<Rightarrow> double \<Rightarrow> double" where
  "std_min a b = (if b < a then b else a)"

definition std_max :: "double \<Rightarrow> double \<Rightarrow> double" where
  "std_max a b = (if a < b then b else a)"

abbreviation D :: "rat \<Rightarrow> double" where
  "D \<equiv> rnd"

text \<open>Conversions: from a signed and an unsigned 64-bit integer.\<close>

definition dbl_of_int :: "int \<Rightarrow> double" where
  "dbl_of_int i = rnd (of_int i)"

definition dbl_of_u64 :: "u64 \<Rightarrow> double" where
  "dbl_of_u64 w = rnd (of_int (uint w))"

section \<open>Correctness of the rounding function\<close>

lemma ilog2_bounds:
  assumes "0 < x"
  shows "2 powi ilog2 x \<le> x" and "x < 2 powi (ilog2 x + 1)"
proof -
  have "2 powi ilog2 x \<le> x \<and> x < 2 powi (ilog2 x + 1)"
  proof (cases "1 \<le> x")
    case True
    let ?n = "nat \<lfloor>x\<rfloor>"
    from True have n: "0 < ?n" and fl: "of_nat ?n \<le> x" "x < of_nat ?n + 1"
      by (simp_all add: of_nat_nat) linarith+
    from nbits_bounds [OF n] obtain k where k: "nbits ?n = Suc k" "2 ^ k \<le> ?n" "?n < 2 ^ Suc k"
      by (metis Suc_pred diff_Suc_1)
    have "(2::rat) ^ k \<le> of_nat ?n" using k(2) by (metis of_nat_le_iff of_nat_numeral of_nat_power)
    moreover have "of_nat ?n + 1 \<le> (2::rat) ^ Suc k"
      using k(3) by (metis Suc_leI of_nat_Suc of_nat_le_iff of_nat_numeral of_nat_power add.commute)
    ultimately have "2 ^ k \<le> x" "x < 2 ^ Suc k" using fl by linarith+
    moreover have "ilog2 x = int k" using True k(1) by (simp add: ilog2_def)
    ultimately show ?thesis
      by (metis of_nat_Suc power_int_of_nat add.commute)
  next
    case False
    let ?y = "1 / x" and ?n = "nat (\<lceil>1 / x\<rceil> - 1)"
    from False assms have y: "1 < ?y" by (simp add: field_simps)
    then have c: "1 < \<lceil>?y\<rceil>" by linarith
    then have n: "0 < ?n" unfolding zero_less_nat_eq by linarith
    have "(of_nat ?n :: rat) = of_int (\<lceil>?y\<rceil> - 1)" using c by (intro of_nat_nat) linarith
    then have cl: "of_nat ?n < ?y" "?y \<le> of_nat ?n + 1" by simp_all linarith+
    from nbits_bounds [OF n] obtain k where k: "nbits ?n = Suc k" "2 ^ k \<le> ?n" "?n < 2 ^ Suc k"
      by (metis Suc_pred diff_Suc_1)
    have "(2::rat) ^ k \<le> of_nat ?n" using k(2) by (metis of_nat_le_iff of_nat_numeral of_nat_power)
    moreover have "of_nat ?n + 1 \<le> (2::rat) ^ Suc k"
      using k(3) by (metis Suc_leI of_nat_Suc of_nat_le_iff of_nat_numeral of_nat_power add.commute)
    ultimately have "2 ^ k < ?y" "?y \<le> 2 ^ Suc k" using cl by linarith+
    then have "x * 2 ^ k < 1" "1 \<le> x * 2 ^ Suc k"
      using assms by (simp_all only: pos_less_divide_eq pos_divide_le_eq mult.commute)
    then have "1 / 2 ^ Suc k \<le> x" "x < 1 / 2 ^ k"
      by (simp_all only: pos_divide_le_eq pos_less_divide_eq zero_less_power zero_less_numeral)
    moreover have "ilog2 x = - int (Suc k)" using False k(1) by (simp add: ilog2_def)
    moreover have "- int (Suc k) + 1 = - int k" by simp
    ultimately show ?thesis by (simp only: pow2_minus_nat)
  qed
  then show "2 powi ilog2 x \<le> x" and "x < 2 powi (ilog2 x + 1)" by auto
qed


lemma ilog2_mono:
  assumes "0 < x" and "x \<le> y"
  shows "ilog2 x \<le> ilog2 y"
proof -
  from assms have "(2::rat) powi ilog2 x < 2 powi (ilog2 y + 1)"
    using ilog2_bounds(1) [of x] ilog2_bounds(2) [of y] by linarith
  then show ?thesis using pow2_less_imp by fastforce
qed

lemma ulp_exp_mono: "0 < x \<Longrightarrow> x \<le> y \<Longrightarrow> ulp_exp x \<le> ulp_exp y"
  using ilog2_mono [of x y] by (simp add: ulp_exp_def)

lemma rne_cases: "rne x = \<lfloor>x\<rfloor> \<or> rne x = \<lfloor>x\<rfloor> + 1"
  by (simp add: rne_def Let_def)

lemma rne_of_int [simp]: "rne (of_int i) = i"
  by (simp add: rne_def)

lemma rne_mono:
  assumes "x \<le> y"
  shows "rne x \<le> rne y"
proof (cases "\<lfloor>x\<rfloor> = \<lfloor>y\<rfloor>")
  case True
  with assms show ?thesis by (auto simp: rne_def Let_def)
next
  case False
  with floor_mono [OF assms] have "\<lfloor>x\<rfloor> + 1 \<le> \<lfloor>y\<rfloor>" by linarith
  then show ?thesis using rne_cases [of x] rne_cases [of y] by linarith
qed

lemma rne_error: "\<bar>of_int (rne x) - x\<bar> \<le> 1 / 2"
proof -
  have fl: "of_int \<lfloor>x\<rfloor> \<le> x" "x < of_int \<lfloor>x\<rfloor> + 1"
    by linarith+
  show ?thesis
    unfolding abs_le_iff rne_def Let_def using fl by (simp split: if_split) linarith
qed

lemma rne_le: "x \<le> of_int i \<Longrightarrow> rne x \<le> i"
  using rne_mono [of x "of_int i"] by simp

lemma rne_ge: "of_int i \<le> x \<Longrightarrow> i \<le> rne x"
  using rne_mono [of "of_int i" x] by simp

lemma round53_upper:
  assumes "0 < x"
  shows "round53 x \<le> 2 powi (ulp_exp x + 53)" and "rne (x / 2 powi ulp_exp x) \<le> 2 ^ 53"
proof -
  let ?e = "ulp_exp x"
  have "x < 2 powi (ilog2 x + 1)" by (rule ilog2_bounds(2) [OF assms])
  also have "\<dots> \<le> 2 powi (?e + 53)" by (rule pow2_mono) (simp add: ulp_exp_def)
  also have "\<dots> = 2 powi ?e * 2 ^ 53" by (simp add: pow2_add)
  finally have "x / 2 powi ?e \<le> of_int (2 ^ 53)" by (simp add: field_simps)
  then show m: "rne (x / 2 powi ?e) \<le> 2 ^ 53" by (rule rne_le)
  then have "(of_int (rne (x / 2 powi ?e)) :: rat) \<le> of_int (2 ^ 53)"
    by (simp only: of_int_le_iff)
  then have "of_int (rne (x / 2 powi ?e)) * (2::rat) powi ?e \<le> of_int (2 ^ 53) * 2 powi ?e"
    by (rule mult_right_mono) simp
  then show "round53 x \<le> 2 powi (?e + 53)"
    by (simp add: round53_def Let_def pow2_add mult.commute)
qed

lemma round53_lower:
  assumes "0 < x" and "- 1074 < ulp_exp x"
  shows "2 powi (ulp_exp x + 52) \<le> round53 x"
proof -
  let ?e = "ulp_exp x"
  from assms(2) have e: "?e + 52 = ilog2 x" by (simp add: ulp_exp_def)
  have "2 powi ?e * 2 ^ 52 = (2::rat) powi (?e + 52)" by (simp add: pow2_add)
  also have "\<dots> \<le> x" unfolding e by (rule ilog2_bounds(1) [OF assms(1)])
  finally have "of_int (2 ^ 52) \<le> x / 2 powi ?e" by (simp add: field_simps)
  then have "2 ^ 52 \<le> rne (x / 2 powi ?e)" by (rule rne_ge)
  then have "(of_int (2 ^ 52) :: rat) \<le> of_int (rne (x / 2 powi ?e))"
    by (simp only: of_int_le_iff)
  then have "of_int (2 ^ 52) * (2::rat) powi ?e \<le> of_int (rne (x / 2 powi ?e)) * 2 powi ?e"
    by (rule mult_right_mono) simp
  then show ?thesis by (simp add: round53_def Let_def pow2_add mult.commute)
qed

lemma round53_mono:
  assumes "0 < x" and "x \<le> y"
  shows "round53 x \<le> round53 y"
proof (cases "ulp_exp x = ulp_exp y")
  case True
  have "x / 2 powi ulp_exp y \<le> y / 2 powi ulp_exp y"
    using assms(2) by (rule divide_right_mono) simp
  then have "rne (x / 2 powi ulp_exp y) \<le> rne (y / 2 powi ulp_exp y)" by (rule rne_mono)
  then show ?thesis by (simp add: round53_def Let_def True)
next
  case False
  with ulp_exp_mono [OF assms] have less: "ulp_exp x < ulp_exp y" by simp
  then have "- 1074 < ulp_exp y" by (simp add: ulp_exp_def)
  then have "2 powi (ulp_exp y + 52) \<le> round53 y" using assms by (intro round53_lower) simp_all
  moreover have "(2::rat) powi (ulp_exp x + 53) \<le> 2 powi (ulp_exp y + 52)"
    using less by (intro pow2_mono) simp
  ultimately show ?thesis using round53_upper(1) [OF assms(1)] by linarith
qed

lemma round53_nonneg: "0 < x \<Longrightarrow> 0 \<le> round53 x"
  by (simp add: round53_def Let_def rne_ge)

text \<open>
  Every multiple of an admissible power of two with a significand of at most 53 bits is
  kept by the rounding.
\<close>

lemma round53_grid:
  assumes m: "0 < m" "m < 2 ^ 53" and e: "- 1074 \<le> e"
  shows "round53 (of_int m * 2 powi e) = of_int m * 2 powi e"
proof -
  let ?z = "of_int m * (2::rat) powi e"
  have pos: "0 < ?z" using m(1) by simp
  have "(of_int m :: rat) < 2 ^ 53" using m(2) by (metis of_int_less_iff of_int_numeral of_int_power)
  then have "?z < 2 ^ 53 * 2 powi e" by (rule mult_strict_right_mono) simp
  also have "\<dots> = 2 powi (e + 53)" by (simp add: pow2_add)
  finally have "(2::rat) powi ilog2 ?z < 2 powi (e + 53)"
    using ilog2_bounds(1) [OF pos] by linarith
  then have "ilog2 ?z < e + 53" by (rule pow2_less_imp)
  then have le: "ulp_exp ?z \<le> e" using e by (simp add: ulp_exp_def)
  define f where "f = ulp_exp ?z"
  from le obtain n where "e = f + int n" unfolding f_def by (metis zle_iff_zadd)
  then have w: "(2::rat) powi e = 2 powi f * 2 ^ n" by (simp add: pow2_add)
  have "?z / 2 powi f = of_int (m * 2 ^ n)" unfolding w by simp
  then have "rne (?z / 2 powi f) = m * 2 ^ n" by (simp only: rne_of_int)
  then have "of_int (rne (?z / 2 powi f)) * 2 powi f = ?z" unfolding w by simp
  then show ?thesis by (simp add: round53_def Let_def f_def)
qed

lemma round53_grid_le:
  assumes m: "0 < m" "m \<le> 2 ^ 53" and e: "- 1074 \<le> e"
  shows "round53 (of_int m * 2 powi e) = of_int m * 2 powi e"
proof (cases "m = 2 ^ 53")
  case True
  have "of_int m * (2::rat) powi e = of_int (2 ^ 52) * 2 powi (e + 1)"
    using True by (simp add: pow2_add)
  moreover have "round53 (of_int (2 ^ 52) * 2 powi (e + 1)) = of_int (2 ^ 52) * 2 powi (e + 1)"
    using e by (intro round53_grid) simp_all
  ultimately show ?thesis by simp
next
  case False
  with m e show ?thesis by (intro round53_grid) simp_all
qed

lemma round53_idem:
  assumes "0 < x" and "0 < round53 x"
  shows "round53 (round53 x) = round53 x"
proof -
  let ?m = "rne (x / 2 powi ulp_exp x)"
  have eq: "round53 x = of_int ?m * 2 powi ulp_exp x" by (simp add: round53_def Let_def)
  with assms(2) have "0 < ?m" by (simp add: zero_less_mult_iff)
  moreover have "- 1074 \<le> ulp_exp x" by (simp add: ulp_exp_def)
  ultimately show ?thesis
    unfolding eq using round53_upper(2) [OF assms(1)] by (intro round53_grid_le) simp_all
qed

lemma round53_error:
  assumes "0 < x"
  shows "\<bar>round53 x - x\<bar> \<le> 2 powi ulp_exp x / 2"
proof -
  let ?u = "(2::rat) powi ulp_exp x"
  have "round53 x - x = (of_int (rne (x / ?u)) - x / ?u) * ?u"
    by (simp add: round53_def Let_def field_simps)
  then have "\<bar>round53 x - x\<bar> = \<bar>of_int (rne (x / ?u)) - x / ?u\<bar> * ?u"
    by (simp add: abs_mult)
  also have "\<dots> \<le> 1 / 2 * ?u"
    by (rule mult_right_mono [OF rne_error]) simp
  finally show ?thesis by simp
qed

section \<open>The rounding function on doubles\<close>

lemma rnd_0 [simp]: "rnd 0 = Fin 0"
  by (simp add: rnd_def)

lemma rnd_not_nan [simp]: "rnd x \<noteq> NaN"
  by (simp add: rnd_def Let_def)

lemma rnd_uminus: "rnd (- x) = - rnd x"
  by (auto simp: rnd_def Let_def)

lemma rnd_pos: "0 < x \<Longrightarrow>
    rnd x = (if dbl_limit \<le> round53 x then Infinite False else Fin (round53 x))"
  by (simp add: rnd_def Let_def)

lemma rnd_mono_pos:
  assumes "0 < x" and "x \<le> y"
  shows "rnd x \<le> rnd y"
  using round53_mono [OF assms] assms by (simp add: rnd_pos)

lemma rnd_nonneg: "0 \<le> x \<Longrightarrow> Fin 0 \<le> rnd x"
  using round53_nonneg [of x] by (cases "x = 0") (simp_all add: rnd_pos)

lemma uminus_le_iff: "- a \<le> - (b :: double) \<longleftrightarrow> b \<le> a"
  by (cases a; cases b) auto

lemma dbl_le_trans: "a \<le> b \<Longrightarrow> b \<le> c \<Longrightarrow> a \<le> (c :: double)"
  by (cases a; cases b; cases c) auto

theorem rnd_mono: "x \<le> y \<Longrightarrow> rnd x \<le> rnd y"
proof -
  assume le: "x \<le> y"
  consider "0 < x" | "x \<le> 0" "0 \<le> y" | "y < 0" using le by linarith
  then show "rnd x \<le> rnd y"
  proof cases
    case 1
    then show ?thesis using le by (rule rnd_mono_pos)
  next
    case 2
    have "rnd x \<le> Fin 0"
      using 2 rnd_nonneg [of "- x"] by (simp add: rnd_uminus) (metis uminus_le_iff uminus_double.simps(1) neg_0_equal_iff_equal)
    then show ?thesis using 2 rnd_nonneg dbl_le_trans by blast
  next
    case 3
    with le have "rnd (- y) \<le> rnd (- x)" by (intro rnd_mono_pos) simp_all
    then show ?thesis by (simp add: rnd_uminus uminus_le_iff)
  qed
qed

lemma dbl_ok_rnd: "dbl_ok (rnd x)"
proof (cases "rnd x")
  case (Fin r)
  show ?thesis
  proof (cases "r = 0")
    case True
    with Fin show ?thesis by simp
  next
    case False
    with Fin have x: "x \<noteq> 0" and lim: "\<not> dbl_limit \<le> round53 \<bar>x\<bar>"
      and r: "r = (if x < 0 then - round53 \<bar>x\<bar> else round53 \<bar>x\<bar>)"
      by (auto simp: rnd_def Let_def split: if_splits)
    have nn: "0 \<le> round53 \<bar>x\<bar>" using x by (intro round53_nonneg) simp
    with r False have pos: "0 < round53 \<bar>x\<bar>" by (auto split: if_splits)
    with r have abs_r: "\<bar>r\<bar> = round53 \<bar>x\<bar>" by auto
    have "round53 \<bar>r\<bar> = \<bar>r\<bar>"
      unfolding abs_r using x pos by (intro round53_idem) simp_all
    with abs_r lim False have "rnd r = Fin r"
      by (auto simp: rnd_def Let_def)
    with Fin show ?thesis by simp
  qed
qed simp_all

text \<open>Rounding a value that is representable changes nothing; integers up to \<open>2 ^ 53\<close> are.\<close>

lemma rnd_grid:
  assumes "\<bar>m\<bar> \<le> 2 ^ 53" and "- 1074 \<le> e" and "\<bar>of_int m * 2 powi e\<bar> < dbl_limit"
  shows "rnd (of_int m * 2 powi e) = Fin (of_int m * 2 powi e)"
proof (cases "m = 0")
  case False
  have "\<bar>of_int m * (2::rat) powi e\<bar> = of_int \<bar>m\<bar> * 2 powi e" by (simp add: abs_mult)
  moreover have "round53 (of_int \<bar>m\<bar> * 2 powi e) = of_int \<bar>m\<bar> * 2 powi e"
    using assms False by (intro round53_grid_le) simp_all
  ultimately have "round53 \<bar>of_int m * (2::rat) powi e\<bar> = \<bar>of_int m * 2 powi e\<bar>" by simp
  with assms(3) False show ?thesis by (auto simp: rnd_def Let_def)
qed simp

lemma rnd_of_int:
  assumes "\<bar>m\<bar> \<le> 2 ^ 53"
  shows "rnd (of_int m) = Fin (of_int m)"
proof -
  have "(of_int \<bar>m\<bar> :: rat) \<le> of_int (2 ^ 53)" using assms by (simp only: of_int_le_iff)
  then have "\<bar>of_int m * (2::rat) powi 0\<bar> < dbl_limit" by (simp add: dbl_limit_def)
  from rnd_grid [OF assms _ this] show ?thesis by simp
qed

text \<open>The relative error of one operation on normal numbers is at most \<open>2 ^ -53\<close>.\<close>

lemma rnd_relative_error:
  assumes "rnd x = Fin r" and "2 powi (- 1022) \<le> \<bar>x\<bar>"
  shows "\<bar>r - x\<bar> \<le> \<bar>x\<bar> * 2 powi (- 53)"
proof -
  have p: "0 < \<bar>x\<bar>" using assms(2) pow2_pos [of "- 1022"] by linarith
  have "(2::rat) powi (- 1022) < 2 powi (ilog2 \<bar>x\<bar> + 1)"
    using ilog2_bounds(2) [OF p] assms(2) by linarith
  then have "ulp_exp \<bar>x\<bar> = ilog2 \<bar>x\<bar> + - 52"
    using pow2_less_imp by (fastforce simp: ulp_exp_def)
  then have u: "(2::rat) powi ulp_exp \<bar>x\<bar> \<le> \<bar>x\<bar> * 2 powi (- 52)"
    using ilog2_bounds(1) [OF p] by (simp only: pow2_add) (rule mult_right_mono, simp_all)
  have "\<bar>r - x\<bar> = \<bar>round53 \<bar>x\<bar> - \<bar>x\<bar>\<bar>"
    using assms(1) p by (auto simp: rnd_def Let_def split: if_splits)
  also have "\<dots> \<le> 2 powi ulp_exp \<bar>x\<bar> / 2" by (rule round53_error [OF p])
  also have "\<dots> \<le> \<bar>x\<bar> * 2 powi (- 52) / 2" using u by simp
  also have "\<dots> = \<bar>x\<bar> * 2 powi (- 53)" by (simp add: power_int_minus)
  finally show ?thesis .
qed


section \<open>Evaluation\<close>

lemma powi_literals [double_eval]:
  "(2::rat) powi 0 = 1" "(2::rat) powi 1 = 2" "(2::rat) powi (numeral k) = 2 ^ numeral k"
  "(2::rat) powi (- 1) = 1 / 2" "(2::rat) powi (- numeral k) = 1 / 2 ^ numeral k"
  using pow2_minus_nat [of 1] pow2_minus_nat [of "numeral k"] by simp_all

lemmas rounding_defs [double_eval] =
  rnd_def round53_def ulp_exp_def ilog2_def rne_def dbl_limit_def Let_def

lemmas double_constants [double_eval] =
  zero_double_def one_double_def minus_double_def inverse_double_def deq_def std_min_def
  std_max_def dbl_of_int_def dbl_of_u64_def

section \<open>Order facts\<close>

lemma dbl_less_imp_le: "(a :: double) < b \<Longrightarrow> a \<le> b"
  by (cases a; cases b) auto

lemma dbl_le_refl: "\<not> is_nan a \<Longrightarrow> a \<le> a"
  by (cases a) auto

lemma dbl_not_less: "\<not> is_nan a \<Longrightarrow> \<not> is_nan b \<Longrightarrow> \<not> a < b \<longleftrightarrow> b \<le> (a :: double)"
  by (cases a; cases b) auto

lemma dbl_not_le: "\<not> is_nan a \<Longrightarrow> \<not> is_nan b \<Longrightarrow> \<not> a \<le> b \<longleftrightarrow> b < (a :: double)"
  by (cases a; cases b) auto

lemma dbl_le_not_nan: "(a :: double) \<le> b \<Longrightarrow> \<not> is_nan a \<and> \<not> is_nan b"
  by (cases a; cases b) auto

lemma dbl_less_le_trans: "a < b \<Longrightarrow> b \<le> c \<Longrightarrow> a < (c :: double)"
  by (cases a; cases b; cases c) auto

lemma dbl_le_less_trans: "a \<le> b \<Longrightarrow> b < c \<Longrightarrow> a < (c :: double)"
  by (cases a; cases b; cases c) auto

lemma std_min_le2: "\<not> is_nan a \<Longrightarrow> \<not> is_nan b \<Longrightarrow> std_min a b \<le> b"
  by (simp add: std_min_def dbl_not_less dbl_le_refl)

lemma std_min_le1: "\<not> is_nan a \<Longrightarrow> std_min a b \<le> a"
  by (simp add: std_min_def dbl_less_imp_le dbl_le_refl)

lemma std_max_ge2: "\<not> is_nan a \<Longrightarrow> \<not> is_nan b \<Longrightarrow> b \<le> std_max a b"
  by (simp add: std_max_def dbl_not_less dbl_le_refl)

lemma std_max_ge1: "\<not> is_nan a \<Longrightarrow> a \<le> std_max a b"
  by (simp add: std_max_def dbl_less_imp_le dbl_le_refl)

text \<open>
  Subtracting a nonnegative amount does not increase a double: the exact difference is
  not above \<open>a\<close>, and rounding is monotone and leaves \<open>a\<close> alone.
\<close>

lemma dbl_minus_le:
  assumes "dbl_ok a" and "\<not> is_nan (a - b)" and "0 \<le> b" and "\<not> is_nan a"
  shows "a - b \<le> a"
proof (cases a)
  case (Fin x)
  show ?thesis
  proof (cases b)
    case (Fin y)
    with assms(3) have "rnd (x - y) \<le> rnd x"
      by (intro rnd_mono) (simp add: zero_double_def)
    with \<open>a = Fin x\<close> Fin assms(1) show ?thesis by (simp add: minus_double_def)
  qed (use Fin assms in \<open>auto simp: minus_double_def zero_double_def\<close>)
qed (use assms in \<open>cases b; auto simp: minus_double_def zero_double_def split: if_splits\<close>)+

text \<open>Every operation yields a representable double; scaling by at most one shrinks it.\<close>

lemma dbl_ok_ops [simp]:
  "dbl_ok (a + b)" "dbl_ok (a * b)" "dbl_ok (a / b)" "dbl_ok 0" "dbl_ok (rnd x)" "dbl_ok (a - b)"
proof -
  show plus: "dbl_ok (a + b)" for a b
    by (cases a; cases b) (auto simp: dbl_ok_rnd)
  show "dbl_ok (a * b)"
    by (cases a; cases b) (auto simp: dbl_ok_rnd)
  show "dbl_ok (a / b)"
    by (cases a; cases b) (auto simp: dbl_ok_rnd)
  show "dbl_ok (a - b)" by (simp add: minus_double_def plus)
qed (simp_all add: zero_double_def dbl_ok_rnd)

lemma dbl_times_shrink:
  assumes "dbl_ok a" "0 \<le> a" "0 < c" "c \<le> 1"
  shows "a * Fin c \<le> a"
proof (cases a)
  case (Fin x)
  with assms have "x * c \<le> x" by (simp add: zero_double_def mult_left_le)
  from rnd_mono [OF this] Fin assms show ?thesis by simp
qed (use assms in \<open>auto simp: zero_double_def\<close>)

lemma dbl_times_grow:
  assumes "dbl_ok a" "0 \<le> a" "1 \<le> c"
  shows "a \<le> a * Fin c"
proof (cases a)
  case (Fin x)
  with assms have "x * 1 \<le> x * c" by (intro mult_left_mono) (simp_all add: zero_double_def)
  then have "x \<le> x * c" by simp
  from rnd_mono [OF this] Fin assms show ?thesis by simp
qed (use assms in \<open>auto simp: zero_double_def\<close>)

text \<open>Finite results, and the error of a quotient.\<close>

lemma dbl_between:
  assumes "Fin a < x" and "x < Fin b"
  obtains r where "x = Fin r" and "a < r" and "r < b"
  using assms by (cases x) auto

lemma dbl_div_not_nan:
  assumes "is_finite a" and "0 < a" and "\<not> is_nan b"
  shows "\<not> is_nan (a / b)"
proof -
  obtain x where "a = Fin x" "0 < x" using assms by (cases a) (auto simp: zero_double_def)
  then show ?thesis using assms(3) by (cases b) (auto simp: rnd_def Let_def)
qed

lemma dbl_pos_ratio_not_nan:
  assumes "0 < (e :: double)"
  shows "\<not> is_nan (D 1 + e / D 10000)" and "\<not> is_nan (e / D 10000)"
proof -
  have d: "D 10000 = Fin 10000" "D 1 = Fin 1" by (simp_all add: double_eval)
  from assms show "\<not> is_nan (D 1 + e / D 10000)" and "\<not> is_nan (e / D 10000)"
    unfolding d by (cases e; auto simp: zero_double_def rnd_def Let_def)+
qed

lemma dbl_one_minus_not_nan: "\<not> is_nan r \<Longrightarrow> \<not> is_nan (D 1 - r)"
proof -
  have d: "D 1 = Fin 1" by (simp_all add: double_eval)
  show "\<not> is_nan r \<Longrightarrow> \<not> is_nan (D 1 - r)"
    unfolding d minus_double_def by (cases r) (auto simp: rnd_def Let_def)
qed

lemma dbl_div_upper:
  assumes "Fin b / Fin d = Fin t" and "0 < b" "0 < d" and "2 powi (- 1022) \<le> b / d"
  shows "t * d \<le> b * (1 + 2 powi (- 53))" and "b * (1 - 2 powi (- 53)) \<le> t * d"
proof -
  from assms have r: "rnd (b / d) = Fin t" by simp
  have abs: "\<bar>b / d\<bar> = b / d" using assms by simp
  have "\<bar>t - b / d\<bar> \<le> b / d * 2 powi (- 53)"
    using rnd_relative_error [OF r] assms(4) by (simp only: abs)
  then have "t \<le> b / d + b / d * 2 powi (- 53)" "b / d - b / d * 2 powi (- 53) \<le> t"
    by linarith+
  then have "t * d \<le> (b / d + b / d * 2 powi (- 53)) * d"
    "(b / d - b / d * 2 powi (- 53)) * d \<le> t * d"
    using assms(3) mult_right_mono [of _ _ d] by (meson less_imp_le)+
  moreover have "(b / d + b / d * e) * d = b * (1 + e)" "(b / d - b / d * e) * d = b * (1 - e)" for e
    using assms(3) by (simp_all add: field_simps)
  ultimately show "t * d \<le> b * (1 + 2 powi (- 53))" "b * (1 - 2 powi (- 53)) \<le> t * d"
    by metis+
qed

end
