(* ===== verification/Types.thy ===== *)
theory Types
  imports Doubles
begin

text \<open>
  \<open>include/arb/types.hpp\<close>: the enums and structs that travel between the market feed,
  the strategy, the engines and the exchanges.  Field names carry a short prefix where
  several structs of the source use the same one; default member initialisers are the
  \<open>default_\<dots>\<close> constants.
\<close>

section \<open>Enums\<close>

datatype direction = ShortLighterLongHl | LongLighterShortHl

datatype strategy_state =
    Idle
  | PendingHlMaker
  | CancelledPendingConfirm
  | HlFilledPendingLighterHedge
  | PendingLighterMaker
  | CancelledPendingLighterConfirm
  | LighterFilledPendingHlHedge
  | Open
  | UnwindingHl
  | UnwindingLighter
  | Error

datatype action_type =
    NoAction
  | PlaceHlMaker
  | CancelHlMaker
  | PlaceLighterMaker
  | CancelLighterMaker
  | SendLighterTakerHedge
  | SendHlTakerHedge
  | UnwindHlPosition
  | UnwindLighterPosition

section \<open>Quotes\<close>

record bbo =
  bid :: double
  ask :: double
  quote_age_ms :: i64

definition mid :: "bbo \<Rightarrow> double" where
  "mid b = (if bid b \<le> 0 \<or> ask b \<le> 0 then 0 else (bid b + ask b) / D 2)"

record lighter_position_snapshot =
  lps_size :: double
  lps_avg_entry_price :: double
  lps_position_value :: double

record spread_snapshot =
  lighter :: bbo
  hl :: bbo
  cross_spread_bps :: double

definition snapshot_valid :: "spread_snapshot \<Rightarrow> i64 \<Rightarrow> bool" where
  "snapshot_valid s max_quote_age_ms \<longleftrightarrow>
     0 < mid (lighter s) \<and> 0 < mid (hl s) \<and>
     quote_age_ms (lighter s) \<le> max_quote_age_ms \<and>
     quote_age_ms (hl s) \<le> max_quote_age_ms"

record trade_event =
  te_coin :: string
  te_price :: double
  te_size :: double
  te_is_buy :: bool
  te_timestamp_ns :: u64
  te_exchange_time_ms :: u64

section \<open>Configuration, orders, positions, intents\<close>

record strategy_config =
  spread_bps :: double
  close_spread_bps :: double
  cancel_band_bps :: double
  pair_size_usd :: double
  max_position_usd :: double
  max_quote_age_ms :: i64
  min_rearm_ms :: i64

definition default_strategy_config :: strategy_config where
  "default_strategy_config = \<lparr>
     spread_bps = D 2, close_spread_bps = D 0, cancel_band_bps = D (1 / 2),
     pair_size_usd = D 25, max_position_usd = D 100,
     max_quote_age_ms = 1500, min_rearm_ms = 500\<rparr>"

record pending_maker_order =
  po_direction :: direction
  po_is_buy :: bool
  po_price :: double
  po_size_base :: double
  po_trigger_spread_bps :: double
  po_entry_spread_bps :: double

record open_hedge_position =
  oh_direction :: direction
  oh_size_base :: double
  oh_hl_fill_price :: double
  oh_lighter_fill_price :: double

record hedge_intent =
  hi_is_ask :: bool
  hi_limit_price :: double
  hi_size_base :: double

definition default_hedge_intent :: hedge_intent where
  "default_hedge_intent = \<lparr>hi_is_ask = False, hi_limit_price = 0, hi_size_base = 0\<rparr>"

record hl_hedge_intent =
  hh_is_buy :: bool
  hh_limit_price :: double
  hh_size_base :: double

definition default_hl_hedge_intent :: hl_hedge_intent where
  "default_hl_hedge_intent = \<lparr>hh_is_buy = True, hh_limit_price = 0, hh_size_base = 0\<rparr>"

record action =
  act_type :: action_type
  act_reason :: string
  act_maker_order :: "pending_maker_order option"
  act_hedge_intent :: "hedge_intent option"
  act_hl_hedge_intent :: "hl_hedge_intent option"

definition no_action :: action where
  "no_action = \<lparr>act_type = NoAction, act_reason = [], act_maker_order = None,
     act_hedge_intent = None, act_hl_hedge_intent = None\<rparr>"

lemma no_action_simps [simp]:
  "act_type no_action = NoAction" "act_reason no_action = []"
  "act_maker_order no_action = None" "act_hedge_intent no_action = None"
  "act_hl_hedge_intent no_action = None"
  by (simp_all add: no_action_def)

section \<open>Facts on quotes\<close>

lemma dbl_less_not_nan: "(a :: double) < b \<Longrightarrow> \<not> is_nan a \<and> \<not> is_nan b"
  by (cases a; cases b) auto

lemma mid_nonpos_bid: "bid b \<le> 0 \<Longrightarrow> mid b = 0"
  by (simp add: mid_def)

lemma snapshot_validD:
  assumes "snapshot_valid s m"
  shows "0 < mid (lighter s)" "0 < mid (hl s)"
    "quote_age_ms (lighter s) \<le> m" "quote_age_ms (hl s) \<le> m"
  using assms by (simp_all add: snapshot_valid_def)

lemma dbl_ok_mid [simp]: "dbl_ok (mid b)"
  by (simp add: mid_def)
end
