(* ===== verification/Risk.thy ===== *)
theory Risk
  imports Types
begin

text \<open>
  \<open>RiskGuard\<close> of \<open>include/arb/risk.hpp\<close> and \<open>src/risk.cpp\<close>: the veto between a maker
  intent and its execution.  The failure counter is an \<open>int\<close> that nothing bounds from
  above; it is modelled unbounded, so the facts hold for fewer than \<open>2^31\<close> failures in a row.
\<close>

section \<open>State and operations\<close>

record risk_config =
  max_exposure_usd :: double
  stale_quote_kill_ms :: i64
  max_consecutive_hedge_failures :: int
  max_single_trade_usd :: double

definition default_risk_config :: risk_config where
  "default_risk_config = \<lparr>max_exposure_usd = D 200, stale_quote_kill_ms = 5000,
     max_consecutive_hedge_failures = 3, max_single_trade_usd = D 50\<rparr>"

datatype risk_veto =
    Ok
  | MaxExposure
  | StaleQuotes
  | HedgeFailuresExceeded
  | TradeTooLarge
  | KillSwitchActive

record risk_guard =
  rg_config :: risk_config
  current_exposure_usd :: double
  consecutive_hedge_failures :: int
  kill_switch :: bool
  kill_switch_reason :: string

definition risk_guard_new :: "risk_config \<Rightarrow> risk_guard" where
  "risk_guard_new c = \<lparr>rg_config = c, current_exposure_usd = 0,
     consecutive_hedge_failures = 0, kill_switch = False, kill_switch_reason = []\<rparr>"

definition check_new_entry :: "risk_guard \<Rightarrow> double \<Rightarrow> spread_snapshot \<Rightarrow> risk_veto" where
  "check_new_entry g size_usd snap =
     (if kill_switch g then KillSwitchActive
      else if max_consecutive_hedge_failures (rg_config g) \<le> consecutive_hedge_failures g
        then HedgeFailuresExceeded
      else if max_single_trade_usd (rg_config g) < size_usd then TradeTooLarge
      else if max_exposure_usd (rg_config g) < current_exposure_usd g + size_usd then MaxExposure
      else if stale_quote_kill_ms (rg_config g) < quote_age_ms (lighter snap)
           \<or> stale_quote_kill_ms (rg_config g) < quote_age_ms (hl snap) then StaleQuotes
      else Ok)"

definition activate_kill_switch :: "string \<Rightarrow> risk_guard \<Rightarrow> risk_guard" where
  "activate_kill_switch reason g = g\<lparr>kill_switch := True, kill_switch_reason := reason\<rparr>"

definition on_hedge_failure :: "risk_guard \<Rightarrow> risk_guard" where
  "on_hedge_failure g =
     (let g = g\<lparr>consecutive_hedge_failures := consecutive_hedge_failures g + 1\<rparr> in
      if max_consecutive_hedge_failures (rg_config g) \<le> consecutive_hedge_failures g
      then activate_kill_switch ''consecutive hedge failures exceeded'' g
      else g)"

definition on_hedge_success :: "risk_guard \<Rightarrow> risk_guard" where
  "on_hedge_success g = g\<lparr>consecutive_hedge_failures := 0\<rparr>"

definition reset_kill_switch :: "risk_guard \<Rightarrow> risk_guard" where
  "reset_kill_switch g =
     g\<lparr>kill_switch := False, kill_switch_reason := [], consecutive_hedge_failures := 0\<rparr>"

definition set_exposure :: "double \<Rightarrow> risk_guard \<Rightarrow> risk_guard" where
  "set_exposure exposure_usd g = g\<lparr>current_exposure_usd := \<bar>exposure_usd\<bar>\<rparr>"

fun veto_name :: "risk_veto \<Rightarrow> string" where
  "veto_name Ok = ''Ok''"
| "veto_name MaxExposure = ''MaxExposure''"
| "veto_name StaleQuotes = ''StaleQuotes''"
| "veto_name HedgeFailuresExceeded = ''HedgeFailuresExceeded''"
| "veto_name TradeTooLarge = ''TradeTooLarge''"
| "veto_name KillSwitchActive = ''KillSwitchActive''"

section \<open>Runs of a guard\<close>

datatype risk_event =
    HedgeFailed
  | HedgeSucceeded
  | KillActivated string
  | KillReset
  | ExposureSet double

fun risk_step :: "risk_event \<Rightarrow> risk_guard \<Rightarrow> risk_guard" where
  "risk_step HedgeFailed g = on_hedge_failure g"
| "risk_step HedgeSucceeded g = on_hedge_success g"
| "risk_step (KillActivated r) g = activate_kill_switch r g"
| "risk_step KillReset g = reset_kill_switch g"
| "risk_step (ExposureSet e) g = set_exposure e g"

lemmas risk_defs = on_hedge_failure_def on_hedge_success_def activate_kill_switch_def
  reset_kill_switch_def set_exposure_def Let_def

definition risk_inv :: "risk_guard \<Rightarrow> bool" where
  "risk_inv g \<longleftrightarrow> 0 \<le> consecutive_hedge_failures g
     \<and> (0 < max_consecutive_hedge_failures (rg_config g) \<longrightarrow>
        max_consecutive_hedge_failures (rg_config g) \<le> consecutive_hedge_failures g
        \<longrightarrow> kill_switch g)"

lemma risk_inv_new: "risk_inv (risk_guard_new c)"
  by (simp add: risk_inv_def risk_guard_new_def)

lemma risk_inv_step: "risk_inv g \<Longrightarrow> risk_inv (risk_step ev g)"
  by (cases ev) (auto simp: risk_inv_def risk_defs)

lemma risk_inv_run: "risk_inv g \<Longrightarrow> risk_inv (fold risk_step evs g)"
  by (induction evs arbitrary: g) (simp_all add: risk_inv_step)

lemma risk_step_config [simp]: "rg_config (risk_step ev g) = rg_config g"
  by (cases ev) (simp_all add: risk_defs)

lemma risk_run_config [simp]: "rg_config (fold risk_step evs g) = rg_config g"
  by (induction evs arbitrary: g) simp_all

lemma kill_switch_stays:
  "kill_switch g \<Longrightarrow> KillReset \<notin> set evs \<Longrightarrow> kill_switch (fold risk_step evs g)"
proof (induction evs arbitrary: g)
  case (Cons ev evs)
  then have "kill_switch (risk_step ev g)" by (cases ev) (simp_all add: risk_defs)
  with Cons show ?case by simp
qed simp

definition failures_in :: "risk_event list \<Rightarrow> nat" where
  "failures_in evs = length (filter (\<lambda>ev. ev = HedgeFailed) evs)"

lemma failure_streak:
  assumes "KillReset \<notin> set evs" and "HedgeSucceeded \<notin> set evs"
  shows "consecutive_hedge_failures (fold risk_step evs g)
    = consecutive_hedge_failures g + int (failures_in evs)"
  using assms
proof (induction evs arbitrary: g)
  case (Cons ev evs)
  then show ?case by (cases ev) (simp_all add: risk_defs failures_in_def)
qed (simp add: failures_in_def)

section \<open>Properties\<close>

text \<open>Once \<open>max_consecutive_hedge_failures\<close> hedges have failed with no success and no
  reset between them, every entry is vetoed by the kill switch, until it is reset by hand;
  successes, exposure updates and further activations in between do not lift it.\<close>

theorem failures_trip_kill_switch:
  assumes "0 < max_consecutive_hedge_failures c"
    and "max_consecutive_hedge_failures c \<le> int (failures_in streak)"
    and "KillReset \<notin> set streak" and "HedgeSucceeded \<notin> set streak"
    and "KillReset \<notin> set later"
  shows "check_new_entry (fold risk_step (earlier @ streak @ later) (risk_guard_new c)) usd snap
    = KillSwitchActive"
proof -
  let ?g = "fold risk_step earlier (risk_guard_new c)"
  let ?h = "fold risk_step streak ?g"
  have "risk_inv ?g" "risk_inv ?h" by (simp_all add: risk_inv_run risk_inv_new)
  with failure_streak [OF assms(3,4), of ?g] assms(1,2) have "kill_switch ?h"
    by (simp add: risk_inv_def risk_guard_new_def)
  then have "kill_switch (fold risk_step later ?h)" by (rule kill_switch_stays [OF _ assms(5)])
  then show ?thesis by (simp add: check_new_entry_def)
qed

definition demo_snap :: spread_snapshot where
  "demo_snap = \<lparr>lighter = \<lparr>bid = D 10, ask = D 11, quote_age_ms = 5\<rparr>,
     hl = \<lparr>bid = D 10, ask = D 11, quote_age_ms = 5\<rparr>, cross_spread_bps = D 3\<rparr>"

theorem failures_trip_kill_switch_witness:
  "check_new_entry (fold risk_step
     ([HedgeFailed, HedgeSucceeded] @ [HedgeFailed, ExposureSet (D 10), HedgeFailed, HedgeFailed]
      @ [HedgeSucceeded]) (risk_guard_new default_risk_config)) (D 25) demo_snap = KillSwitchActive"
  by (rule failures_trip_kill_switch)
    (simp_all add: default_risk_config_def failures_in_def)

text \<open>An entry that the guard lets through respects every limit: no kill switch, fewer
  failures than allowed, fresh quotes on both venues, and, unless a value is not a number,
  a size and a resulting exposure within the configured bounds.\<close>

theorem accepted_entry_within_limits:
  assumes "check_new_entry g usd snap = Ok"
    and "\<not> is_nan usd" and "\<not> is_nan (current_exposure_usd g + usd)"
    and "\<not> is_nan (max_single_trade_usd (rg_config g))" and "\<not> is_nan (max_exposure_usd (rg_config g))"
  shows "\<not> kill_switch g
    \<and> consecutive_hedge_failures g < max_consecutive_hedge_failures (rg_config g)
    \<and> usd \<le> max_single_trade_usd (rg_config g)
    \<and> current_exposure_usd g + usd \<le> max_exposure_usd (rg_config g)
    \<and> quote_age_ms (lighter snap) \<le> stale_quote_kill_ms (rg_config g)
    \<and> quote_age_ms (hl snap) \<le> stale_quote_kill_ms (rg_config g)"
  using assms by (auto simp: check_new_entry_def dbl_not_less split: if_splits)

theorem accepted_entry_within_limits_witness:
  "check_new_entry (set_exposure (- D 150) (risk_guard_new default_risk_config)) (D 25) demo_snap = Ok
   \<and> current_exposure_usd (set_exposure (- D 150) (risk_guard_new default_risk_config)) + D 25 \<le> D 200"
proof -
  let ?g = "set_exposure (- D 150) (risk_guard_new default_risk_config)"
  have ok: "check_new_entry ?g (D 25) demo_snap = Ok"
    by (simp add: check_new_entry_def set_exposure_def risk_guard_new_def default_risk_config_def
        demo_snap_def double_eval)
  have nan: "\<not> is_nan (D 25)" "\<not> is_nan (current_exposure_usd ?g + D 25)"
    "\<not> is_nan (max_single_trade_usd (rg_config ?g))" "\<not> is_nan (max_exposure_usd (rg_config ?g))"
    by (simp_all add: set_exposure_def risk_guard_new_def default_risk_config_def double_eval)
  have "max_exposure_usd (rg_config ?g) = D 200"
    by (simp add: set_exposure_def risk_guard_new_def default_risk_config_def)
  with ok accepted_entry_within_limits [OF ok nan] show ?thesis by simp
qed

text \<open>The guard fails open on a size that is not a number: with quotes fresh and no
  failures it accepts such an entry whatever the exposure already is.\<close>

theorem nan_size_is_accepted:
  "check_new_entry (fold risk_step [ExposureSet e] (risk_guard_new default_risk_config)) NaN demo_snap = Ok"
proof -
  have "\<not> x < (NaN :: double)" "y + NaN = (NaN :: double)" for x y
    by (cases x; simp) (cases y; simp)
  then show ?thesis
    by (simp add: check_new_entry_def set_exposure_def risk_guard_new_def default_risk_config_def
        demo_snap_def)
qed

end
