(* ===== verification/Hedger.thy ===== *)
theory Hedger
  imports Types
begin

text \<open>
  What the two hedger classes of \<open>include/arb/strategy.hpp\<close> share: the private members
  (both classes declare the same ones), the events their public methods stand for, runs
  of a hedger over a list of events, and the protocol both obey, stated as a locale that
  \<open>Strategy_Hl\<close> and \<open>Strategy_Lighter\<close> interpret on their own step functions.
\<close>

section \<open>State\<close>

record signal_gate =
  sg_armed :: bool
  sg_direction :: direction
  sg_entry_spread_bps :: double

definition disarmed_gate :: signal_gate where
  "disarmed_gate = \<lparr>sg_armed = False, sg_direction = ShortLighterLongHl,
     sg_entry_spread_bps = 0\<rparr>"

record hedger =
  config :: strategy_config
  state :: strategy_state
  gate :: signal_gate
  pending_maker :: "pending_maker_order option"
  open_position :: "open_hedge_position option"
  last_disarm_ms :: i64

definition initial_hedger :: "strategy_config \<Rightarrow> hedger" where
  "initial_hedger c = \<lparr>config = c, state = Idle, gate = disarmed_gate,
     pending_maker = None, open_position = None, last_disarm_ms = 0\<rparr>"

text \<open>The messages of the \<open>std::invalid_argument\<close> the constructors throw.\<close>

definition spread_not_positive :: string where
  "spread_not_positive = ''spread_bps must be positive''"

definition band_negative :: string where
  "band_negative = ''cancel_band_bps must be non-negative''"

section \<open>Events and runs\<close>

datatype hedger_event =
    MarketSnapshot spread_snapshot i64 double
  | MakerFill double double spread_snapshot
  | HedgeFill double
  | HedgeReject
  | Reset

fun run_hedger ::
  "(hedger_event \<Rightarrow> hedger \<Rightarrow> action \<times> hedger) \<Rightarrow> hedger_event list \<Rightarrow> hedger
     \<Rightarrow> action list \<times> hedger" where
  "run_hedger step [] h = ([], h)"
| "run_hedger step (ev # evs) h =
     (let (a, h) = step ev h; (as, h) = run_hedger step evs h in (a # as, h))"

definition count_actions :: "action_type \<Rightarrow> action list \<Rightarrow> nat" where
  "count_actions t as = length (filter (\<lambda>a. act_type a = t) as)"

lemma count_actions_simps [simp]:
  "count_actions t [] = 0"
  "count_actions t (a # as) = (if act_type a = t then Suc (count_actions t as) else count_actions t as)"
  by (simp_all add: count_actions_def)

definition has :: "'a option \<Rightarrow> nat" where
  "has x = (case x of None \<Rightarrow> 0 | Some _ \<Rightarrow> 1)"

lemma has_simps [simp]: "has None = 0" "has (Some x) = 1"
  by (simp_all add: has_def)

section \<open>The protocol of a hedger\<close>

text \<open>
  \<open>place\<close> and \<open>hedge\<close> are the action types with which the hedger asks for a maker
  order and for the taker hedge of its fill.  A maker order becomes pending only with a
  placement, a hedge is sent only for a pending order and consumes it, and every other
  step leaves the pending order alone or drops it.  \<open>inv\<close> is the hedger's invariant.
\<close>

locale hedger_protocol =
  fixes step :: "hedger_event \<Rightarrow> hedger \<Rightarrow> action \<times> hedger"
    and inv :: "hedger \<Rightarrow> bool"
    and place hedge :: action_type
  assumes place_not_hedge: "place \<noteq> hedge"
    and inv_initial: "inv (initial_hedger c)"
    and inv_step: "inv h \<Longrightarrow> step ev h = (a, h') \<Longrightarrow> inv h'"
    and step_config: "step ev h = (a, h') \<Longrightarrow> config h' = config h"
    and place_step: "step ev h = (a, h') \<Longrightarrow> act_type a = place \<Longrightarrow>
      pending_maker h' = act_maker_order a \<and> act_maker_order a \<noteq> None"
    and hedge_step: "step ev h = (a, h') \<Longrightarrow> act_type a = hedge \<Longrightarrow>
      pending_maker h \<noteq> None \<and> pending_maker h' = None"
    and other_step: "step ev h = (a, h') \<Longrightarrow> act_type a \<noteq> place \<Longrightarrow> act_type a \<noteq> hedge \<Longrightarrow>
      pending_maker h' = pending_maker h \<or> pending_maker h' = None"
begin

lemma run_inv: "inv h \<Longrightarrow> run_hedger step evs h = (as, h') \<Longrightarrow> inv h'"
  by (induction evs arbitrary: h as h') (auto simp: Let_def split: prod.splits dest: inv_step)

lemma run_config: "run_hedger step evs h = (as, h') \<Longrightarrow> config h' = config h"
  by (induction evs arbitrary: h as h') (auto simp: Let_def split: prod.splits dest: step_config)

lemma step_balance:
  assumes "step ev h = (a, h')"
  shows "(if act_type a = hedge then 1 else 0) + has (pending_maker h')
           \<le> (if act_type a = place then 1 else 0) + has (pending_maker h)"
proof -
  consider "act_type a = place" | "act_type a = hedge"
    | "act_type a \<noteq> place" "act_type a \<noteq> hedge" by blast
  then show ?thesis
  proof cases
    case 1
    then show ?thesis using place_not_hedge by (cases "pending_maker h'") (simp_all add: has_def)
  next
    case 2
    with hedge_step [OF assms] show ?thesis by (auto simp: has_def)
  next
    case 3
    with other_step [OF assms] show ?thesis by (auto simp: has_def)
  qed
qed

text \<open>Over any run, hedges never outnumber placements.\<close>

lemma run_balance:
  "run_hedger step evs h = (as, h') \<Longrightarrow>
     count_actions hedge as + has (pending_maker h')
       \<le> count_actions place as + has (pending_maker h)"
proof (induction evs arbitrary: h as h')
  case Nil
  then show ?case by simp
next
  case (Cons ev evs)
  obtain a h1 where s: "step ev h = (a, h1)" by fastforce
  obtain bs h2 where r: "run_hedger step evs h1 = (bs, h2)" by fastforce
  from Cons.prems s r have "as = a # bs" "h' = h2" by simp_all
  then show ?case using step_balance [OF s] Cons.IH [OF r] place_not_hedge by (simp split: if_splits)
qed

lemma run_from_start:
  "run_hedger step evs (initial_hedger c) = (as, h') \<Longrightarrow>
     count_actions hedge as \<le> count_actions place as"
  using run_balance [of evs "initial_hedger c" as h'] by (simp add: initial_hedger_def)

end

end
