(* ===== verification/Strategy_Hl.thy ===== *)
theory Strategy_Hl
  imports Hedger
begin

text \<open>
  \<open>HlMakerLighterHedger\<close> of \<open>src/strategy.cpp\<close>: rests a post-only order on
  Hyperliquid when the cross-venue spread reaches its threshold, cancels it when the
  spread reverts, and asks for a Lighter taker hedge when it fills.  Each method is one
  definition that takes the hedger and returns it updated, with the action it returns.
\<close>

section \<open>Price construction\<close>

definition aggressive_lighter_price :: "spread_snapshot \<Rightarrow> direction \<Rightarrow> double" where
  "aggressive_lighter_price snapshot direction =
     (let kTakerSlippageBps = D 10;
          lighter_mid = mid (lighter snapshot) in
      if lighter_mid \<le> 0 then 0
      else if direction = ShortLighterLongHl
      then lighter_mid * (D 1 - (kTakerSlippageBps / D 10000))
      else lighter_mid * (D 1 + (kTakerSlippageBps / D 10000)))"

definition lighter_anchored_hl_price :: "spread_snapshot \<Rightarrow> direction \<Rightarrow> double \<Rightarrow> double" where
  "lighter_anchored_hl_price snapshot direction spread =
     (let spread_ratio = spread / D 10000 in
      if direction = ShortLighterLongHl then
        (let lighter_sell_price = bid (lighter snapshot) in
         if lighter_sell_price \<le> 0 then 0 else lighter_sell_price / (D 1 + spread_ratio))
      else
        (let lighter_buy_price = ask (lighter snapshot) in
         if lighter_buy_price \<le> 0 \<or> D 1 \<le> spread_ratio then 0
         else lighter_buy_price / (D 1 - spread_ratio)))"

section \<open>Construction and private helpers\<close>

definition hl_hedger_new :: "strategy_config \<Rightarrow> string + hedger" where
  "hl_hedger_new c =
     (if spread_bps c \<le> 0 then Inl spread_not_positive
      else if cancel_band_bps c < 0 then Inl band_negative
      else Inr (initial_hedger c))"

definition hl_can_arm :: "hedger \<Rightarrow> i64 \<Rightarrow> bool" where
  "hl_can_arm h now_ms \<longleftrightarrow> min_rearm_ms (config h) \<le> now_ms - last_disarm_ms h"

definition hl_direction_for_spread :: "double \<Rightarrow> direction" where
  "hl_direction_for_spread cross_spread =
     (if 0 \<le> cross_spread then ShortLighterLongHl else LongLighterShortHl)"

definition effective_spread_bps :: "hedger \<Rightarrow> double \<Rightarrow> double \<Rightarrow> double" where
  "effective_spread_bps h cross_spread hl_position_base =
     (let close_bps = (if 0 < close_spread_bps (config h) then close_spread_bps (config h)
                       else spread_bps (config h)) in
      if spread_bps (config h) \<le> close_bps then spread_bps (config h)
      else
        (let dir = hl_direction_for_spread cross_spread;
             would_reduce = (hl_position_base < 0 \<and> dir = ShortLighterLongHl)
                          \<or> (0 < hl_position_base \<and> dir = LongLighterShortHl) in
         if would_reduce then close_bps else spread_bps (config h)))"

definition hl_cancel_threshold_bps :: "hedger \<Rightarrow> double \<Rightarrow> double" where
  "hl_cancel_threshold_bps h entry_spread_bps =
     (let threshold = entry_spread_bps - cancel_band_bps (config h) in
      if 0 < threshold then threshold else 0)"

definition hl_disarm :: "i64 \<Rightarrow> hedger \<Rightarrow> hedger" where
  "hl_disarm now_ms h = h\<lparr>gate := (gate h)\<lparr>sg_armed := False\<rparr>, last_disarm_ms := now_ms\<rparr>"

definition hl_build_maker_order ::
  "hedger \<Rightarrow> spread_snapshot \<Rightarrow> signal_gate \<Rightarrow> pending_maker_order" where
  "hl_build_maker_order h snapshot g =
     (let direction = sg_direction g;
          avg_mid = (mid (lighter snapshot) + mid (hl snapshot)) / D 2;
          size_base = (if 0 < avg_mid then pair_size_usd (config h) / avg_mid else 0);
          target_price = lighter_anchored_hl_price snapshot direction (sg_entry_spread_bps g) in
      if direction = ShortLighterLongHl then
        \<lparr>po_direction = direction, po_is_buy = True,
         po_price = std_min target_price (bid (hl snapshot)),
         po_size_base = size_base, po_trigger_spread_bps = cross_spread_bps snapshot,
         po_entry_spread_bps = sg_entry_spread_bps g\<rparr>
      else
        \<lparr>po_direction = direction, po_is_buy = False,
         po_price = std_max target_price (ask (hl snapshot)),
         po_size_base = size_base, po_trigger_spread_bps = cross_spread_bps snapshot,
         po_entry_spread_bps = sg_entry_spread_bps g\<rparr>)"

definition build_lighter_hedge :: "hedger \<Rightarrow> spread_snapshot \<Rightarrow> hedge_intent" where
  "build_lighter_hedge h snapshot =
     (case open_position h of
        None \<Rightarrow> default_hedge_intent
      | Some pos \<Rightarrow>
          \<lparr>hi_is_ask = (oh_direction pos = ShortLighterLongHl),
           hi_limit_price = aggressive_lighter_price snapshot (oh_direction pos),
           hi_size_base = oh_size_base pos\<rparr>)"

section \<open>Public methods\<close>

text \<open>The gate: disarmed when the spread flips or reverts, armed when it is wide enough.\<close>

definition hl_update_gate :: "spread_snapshot \<Rightarrow> i64 \<Rightarrow> double \<Rightarrow> hedger \<Rightarrow> hedger" where
  "hl_update_gate snapshot now_ms hl_position_base h =
     (let abs_spread = \<bar>cross_spread_bps snapshot\<bar>;
          live_direction = hl_direction_for_spread (cross_spread_bps snapshot);
          threshold = effective_spread_bps h (cross_spread_bps snapshot) hl_position_base in
      if sg_armed (gate h) then
        (let gate_cancel = hl_cancel_threshold_bps h (sg_entry_spread_bps (gate h)) in
         if live_direction \<noteq> sg_direction (gate h) \<or> abs_spread < gate_cancel then
           (let h = h\<lparr>gate := (gate h)\<lparr>sg_armed := False\<rparr>\<rparr> in
            if state h = Idle \<or> state h = CancelledPendingConfirm
            then h\<lparr>last_disarm_ms := now_ms\<rparr> else h)
         else h)
      else if threshold \<le> abs_spread \<and> hl_can_arm h now_ms then
        h\<lparr>gate := \<lparr>sg_armed = True, sg_direction = live_direction,
                   sg_entry_spread_bps = threshold\<rparr>\<rparr>
      else h)"

text \<open>The decision on a valid snapshot, after the gate has been updated.\<close>

definition hl_decide :: "spread_snapshot \<Rightarrow> i64 \<Rightarrow> hedger \<Rightarrow> action \<times> hedger" where
  "hl_decide snapshot now_ms h =
     (let abs_spread = \<bar>cross_spread_bps snapshot\<bar>;
          live_direction = hl_direction_for_spread (cross_spread_bps snapshot) in
      if state h = Idle then
        (if \<not> sg_armed (gate h) then (no_action, h)
         else
           (let h = h\<lparr>pending_maker := Some (hl_build_maker_order h snapshot (gate h))\<rparr>;
                h = h\<lparr>state := PendingHlMaker\<rparr> in
            (no_action\<lparr>act_type := PlaceHlMaker,
                act_reason := (if sg_entry_spread_bps (gate h) < spread_bps (config h)
                               then ''spread reached close threshold''
                               else ''spread reached entry threshold''),
                act_maker_order := pending_maker h\<rparr>, h)))
      else
        (case (state h, pending_maker h) of
           (PendingHlMaker, Some order) \<Rightarrow>
             (let cancel_thresh = hl_cancel_threshold_bps h (po_entry_spread_bps order) in
              if \<not> sg_armed (gate h) \<or> live_direction \<noteq> po_direction order
                 \<or> abs_spread < cancel_thresh then
                (no_action\<lparr>act_type := CancelHlMaker,
                    act_reason := ''spread mean-reverted below cancel threshold'',
                    act_maker_order := pending_maker h\<rparr>,
                 hl_disarm now_ms (h\<lparr>state := CancelledPendingConfirm\<rparr>))
              else (no_action, h))
         | _ \<Rightarrow> (no_action, h)))"

definition hl_on_market_snapshot ::
  "spread_snapshot \<Rightarrow> i64 \<Rightarrow> double \<Rightarrow> hedger \<Rightarrow> action \<times> hedger" where
  "hl_on_market_snapshot snapshot now_ms hl_position_base h =
     (if \<not> snapshot_valid snapshot (max_quote_age_ms (config h)) then (no_action, h)
      else hl_decide snapshot now_ms (hl_update_gate snapshot now_ms hl_position_base h))"

definition on_hl_maker_fill ::
  "double \<Rightarrow> double \<Rightarrow> spread_snapshot \<Rightarrow> hedger \<Rightarrow> action \<times> hedger" where
  "on_hl_maker_fill fill_price fill_size_base snapshot h =
     (case pending_maker h of
        None \<Rightarrow> (no_action, h)
      | Some order \<Rightarrow>
          (let h = h\<lparr>open_position := Some
                 \<lparr>oh_direction = po_direction order, oh_size_base = fill_size_base,
                  oh_hl_fill_price = fill_price, oh_lighter_fill_price = 0\<rparr>\<rparr>;
               h = h\<lparr>state := HlFilledPendingLighterHedge\<rparr>;
               a = no_action\<lparr>act_type := SendLighterTakerHedge,
                     act_reason := ''hl maker filled'',
                     act_hedge_intent := Some (build_lighter_hedge h snapshot)\<rparr>
           in (a, h\<lparr>pending_maker := None\<rparr>)))"

definition on_lighter_hedge_fill :: "double \<Rightarrow> hedger \<Rightarrow> hedger" where
  "on_lighter_hedge_fill fill_price h =
     (case open_position h of
        None \<Rightarrow> h
      | Some pos \<Rightarrow> h\<lparr>open_position := Some (pos\<lparr>oh_lighter_fill_price := fill_price\<rparr>),
                      state := Open\<rparr>)"

definition on_lighter_hedge_reject :: "hedger \<Rightarrow> action \<times> hedger" where
  "on_lighter_hedge_reject h =
     (case open_position h of
        None \<Rightarrow> (no_action, h)
      | Some _ \<Rightarrow>
          (no_action\<lparr>act_type := UnwindHlPosition,
              act_reason := ''lighter hedge failed after hl maker fill''\<rparr>,
           h\<lparr>state := UnwindingHl\<rparr>))"

definition hl_reset :: "hedger \<Rightarrow> hedger" where
  "hl_reset h = h\<lparr>gate := disarmed_gate, pending_maker := None, open_position := None,
                  state := Idle\<rparr>"

fun hl_step :: "hedger_event \<Rightarrow> hedger \<Rightarrow> action \<times> hedger" where
  "hl_step (MarketSnapshot s now pos) h = hl_on_market_snapshot s now pos h"
| "hl_step (MakerFill px sz s) h = on_hl_maker_fill px sz s h"
| "hl_step (HedgeFill px) h = (no_action, on_lighter_hedge_fill px h)"
| "hl_step HedgeReject h = on_lighter_hedge_reject h"
| "hl_step Reset h = (no_action, hl_reset h)"


section \<open>Invariant\<close>

text \<open>
  What the pending order and the open position are in each state; a resting order stands
  under the armed gate it was built from; an armed gate holds a positive threshold.
\<close>

fun hl_phase_ok :: "strategy_state \<Rightarrow> 'a option \<Rightarrow> 'b option \<Rightarrow> bool" where
  "hl_phase_ok Idle p q \<longleftrightarrow> p = None \<and> q = None"
| "hl_phase_ok PendingHlMaker p q \<longleftrightarrow> p \<noteq> None \<and> q = None"
| "hl_phase_ok CancelledPendingConfirm p q \<longleftrightarrow> p \<noteq> None \<and> q = None"
| "hl_phase_ok HlFilledPendingLighterHedge p q \<longleftrightarrow> p = None \<and> q \<noteq> None"
| "hl_phase_ok Open p q \<longleftrightarrow> p = None \<and> q \<noteq> None"
| "hl_phase_ok UnwindingHl p q \<longleftrightarrow> p = None \<and> q \<noteq> None"
| "hl_phase_ok _ p q \<longleftrightarrow> False"

definition hl_order_ok :: "pending_maker_order \<Rightarrow> bool" where
  "hl_order_ok order \<longleftrightarrow> po_is_buy order = (po_direction order = ShortLighterLongHl)"

definition hl_gate_ok :: "hedger \<Rightarrow> bool" where
  "hl_gate_ok h \<longleftrightarrow>
     (sg_armed (gate h) \<longrightarrow>
        sg_entry_spread_bps (gate h) = spread_bps (config h)
        \<or> sg_entry_spread_bps (gate h) = close_spread_bps (config h)
          \<and> 0 < close_spread_bps (config h)
          \<and> \<not> spread_bps (config h) \<le> close_spread_bps (config h)) \<and>
     (state h = PendingHlMaker \<longrightarrow>
        (\<forall>order. pending_maker h = Some order \<longrightarrow>
           sg_armed (gate h) \<and> sg_direction (gate h) = po_direction order
           \<and> sg_entry_spread_bps (gate h) = po_entry_spread_bps order))"

definition hl_inv :: "hedger \<Rightarrow> bool" where
  "hl_inv h \<longleftrightarrow> hl_phase_ok (state h) (pending_maker h) (open_position h)
     \<and> (\<forall>order. pending_maker h = Some order \<longrightarrow> hl_order_ok order)
     \<and> hl_gate_ok h"

lemma effective_spread_cases:
  "effective_spread_bps h x pos = spread_bps (config h)
   \<or> effective_spread_bps h x pos = close_spread_bps (config h)
     \<and> 0 < close_spread_bps (config h)
     \<and> \<not> spread_bps (config h) \<le> close_spread_bps (config h)"
  by (auto simp: effective_spread_bps_def Let_def)

lemma hl_update_gate_frame [record_frame]:
  "state (hl_update_gate s now pos h) = state h"
  "config (hl_update_gate s now pos h) = config h"
  "pending_maker (hl_update_gate s now pos h) = pending_maker h"
  "open_position (hl_update_gate s now pos h) = open_position h"
  by (simp_all add: hl_update_gate_def Let_def)

text \<open>The gate after an update is either disarmed, or the old one, or freshly armed.\<close>

lemma hl_update_gate_cases:
  "\<not> sg_armed (gate (hl_update_gate s now pos h))
   \<or> sg_armed (gate h) \<and> gate (hl_update_gate s now pos h) = gate h
   \<or> \<not> sg_armed (gate h) \<and> hl_can_arm h now
     \<and> effective_spread_bps h (cross_spread_bps s) pos \<le> \<bar>cross_spread_bps s\<bar>
     \<and> gate (hl_update_gate s now pos h) =
         \<lparr>sg_armed = True, sg_direction = hl_direction_for_spread (cross_spread_bps s),
          sg_entry_spread_bps = effective_spread_bps h (cross_spread_bps s) pos\<rparr>"
  by (simp add: hl_update_gate_def Let_def)

text \<open>An armed gate after an update faces the live direction and clears its own band.\<close>

lemma hl_update_gate_kept:
  assumes "sg_armed (gate h)" and "sg_armed (gate (hl_update_gate s now pos h))"
  shows "hl_direction_for_spread (cross_spread_bps s) = sg_direction (gate h)"
    and "\<not> \<bar>cross_spread_bps s\<bar> < hl_cancel_threshold_bps h (sg_entry_spread_bps (gate h))"
  using assms by (auto simp: hl_update_gate_def Let_def split: if_splits)

lemma hl_order_ok_build [simp]: "hl_order_ok (hl_build_maker_order h s g)"
  by (cases "sg_direction g") (simp_all add: hl_order_ok_def hl_build_maker_order_def Let_def)

lemma hl_build_fields [simp]:
  "po_direction (hl_build_maker_order h s g) = sg_direction g"
  "po_entry_spread_bps (hl_build_maker_order h s g) = sg_entry_spread_bps g"
  by (simp_all add: hl_build_maker_order_def Let_def)

text \<open>The five outcomes of a market snapshot.\<close>

lemma hl_on_market_snapshot_cases:
  assumes "hl_on_market_snapshot s now pos h = (a, h')"
  obtains
    (invalid) "\<not> snapshot_valid s (max_quote_age_ms (config h))" "a = no_action" "h' = h"
  | (place) "snapshot_valid s (max_quote_age_ms (config h))" "state h = Idle"
      "sg_armed (gate (hl_update_gate s now pos h))" "act_type a = PlaceHlMaker"
      "act_maker_order a = Some (hl_build_maker_order h s (gate (hl_update_gate s now pos h)))"
      "h' = (hl_update_gate s now pos h)\<lparr>state := PendingHlMaker,
              pending_maker := act_maker_order a\<rparr>"
  | (cancel) order where "snapshot_valid s (max_quote_age_ms (config h))"
      "state h = PendingHlMaker" "pending_maker h = Some order"
      "\<not> sg_armed (gate (hl_update_gate s now pos h))
        \<or> hl_direction_for_spread (cross_spread_bps s) \<noteq> po_direction order
        \<or> \<bar>cross_spread_bps s\<bar> < hl_cancel_threshold_bps h (po_entry_spread_bps order)"
      "act_type a = CancelHlMaker" "act_maker_order a = Some order"
      "h' = hl_disarm now ((hl_update_gate s now pos h)\<lparr>state := CancelledPendingConfirm\<rparr>)"
  | (keep) order where "snapshot_valid s (max_quote_age_ms (config h))"
      "state h = PendingHlMaker" "pending_maker h = Some order" "a = no_action"
      "sg_armed (gate (hl_update_gate s now pos h))"
      "hl_direction_for_spread (cross_spread_bps s) = po_direction order"
      "\<not> \<bar>cross_spread_bps s\<bar> < hl_cancel_threshold_bps h (po_entry_spread_bps order)"
      "h' = hl_update_gate s now pos h"
  | (quiet) "snapshot_valid s (max_quote_age_ms (config h))" "a = no_action"
      "h' = hl_update_gate s now pos h"
      "state h = Idle \<and> \<not> sg_armed (gate h')
       \<or> state h \<noteq> Idle \<and> (state h = PendingHlMaker \<longrightarrow> pending_maker h = None)"
proof -
  let ?g = "hl_update_gate s now pos h"
  have ct: "hl_cancel_threshold_bps ?g = hl_cancel_threshold_bps h"
    by (simp add: fun_eq_iff hl_cancel_threshold_bps_def record_frame Let_def)
  have bo: "hl_build_maker_order ?g s = hl_build_maker_order h s"
    by (simp add: fun_eq_iff hl_build_maker_order_def record_frame Let_def)
  note eq = assms [unfolded hl_on_market_snapshot_def hl_decide_def Let_def, simplified record_frame ct bo]
  consider "\<not> snapshot_valid s (max_quote_age_ms (config h))"
    | "snapshot_valid s (max_quote_age_ms (config h))" "state h = Idle"
    | order where "snapshot_valid s (max_quote_age_ms (config h))" "state h = PendingHlMaker"
        "pending_maker h = Some order"
    | "snapshot_valid s (max_quote_age_ms (config h))" "state h \<noteq> Idle"
        "state h = PendingHlMaker \<longrightarrow> pending_maker h = None"
    by fastforce
  then show ?thesis
  proof cases
    case 1
    with eq show ?thesis by (intro invalid) simp_all
  next
    case 2
    show ?thesis
    proof (cases "sg_armed (gate ?g)")
      case True
      with eq 2 show ?thesis by (intro place) auto
    next
      case False
      with eq 2 show ?thesis by (intro quiet) auto
    qed
  next
    case 3
    show ?thesis
    proof (cases "\<not> sg_armed (gate ?g) \<or> hl_direction_for_spread (cross_spread_bps s) \<noteq> po_direction order
        \<or> \<bar>cross_spread_bps s\<bar> < hl_cancel_threshold_bps h (po_entry_spread_bps order)")
      case True
      from eq 3 True have "a = no_action\<lparr>act_type := CancelHlMaker,
          act_reason := ''spread mean-reverted below cancel threshold'',
          act_maker_order := Some order\<rparr>"
        "h' = hl_disarm now (?g\<lparr>state := CancelledPendingConfirm\<rparr>)" by simp_all
      with 3 True show ?thesis by (intro cancel) simp_all
    next
      case False
      with eq 3 show ?thesis by (intro keep) auto
    qed
  next
    case 4
    with eq have "a = no_action" "h' = ?g"
      by (auto split: strategy_state.splits option.splits)
    with 4 show ?thesis by (intro quiet) (simp_all add: record_frame)
  qed
qed


lemma hl_inv_initial: "hl_inv (initial_hedger c)"
  by (simp add: hl_inv_def initial_hedger_def hl_gate_ok_def disarmed_gate_def)

lemma hl_update_gate_entry:
  assumes "hl_gate_ok h" and "sg_armed (gate (hl_update_gate s now pos h))"
  shows "sg_entry_spread_bps (gate (hl_update_gate s now pos h)) = spread_bps (config h)
    \<or> sg_entry_spread_bps (gate (hl_update_gate s now pos h)) = close_spread_bps (config h)
      \<and> 0 < close_spread_bps (config h) \<and> \<not> spread_bps (config h) \<le> close_spread_bps (config h)"
  using assms hl_update_gate_cases [of s now pos h]
    effective_spread_cases [of h "cross_spread_bps s" pos]
  by (auto simp: hl_gate_ok_def)

lemma hl_inv_market_snapshot:
  assumes inv: "hl_inv h" and step: "hl_on_market_snapshot s now pos h = (a, h')"
  shows "hl_inv h'"
proof -
  note entry = hl_update_gate_entry [of h s now pos]
  from inv have phase: "hl_phase_ok (state h) (pending_maker h) (open_position h)"
    and gok: "hl_gate_ok h" and ord: "\<forall>order. pending_maker h = Some order \<longrightarrow> hl_order_ok order"
    by (simp_all add: hl_inv_def)
  from step show ?thesis
  proof (cases rule: hl_on_market_snapshot_cases)
    case invalid
    with inv show ?thesis by simp
  next
    case place
    with phase entry [OF gok] show ?thesis
      by (simp add: hl_inv_def hl_gate_ok_def record_frame)
  next
    case (cancel order)
    with phase ord show ?thesis
      by (simp add: hl_inv_def hl_gate_ok_def hl_disarm_def record_frame)
  next
    case (keep order)
    then have armed: "sg_armed (gate h)" using gok by (simp add: hl_gate_ok_def)
    with keep(5) hl_update_gate_cases [of s now pos h]
    have "gate (hl_update_gate s now pos h) = gate h" by auto
    with keep inv show ?thesis by (auto simp: hl_inv_def hl_gate_ok_def record_frame)
  next
    case quiet
    with phase have "state h \<noteq> PendingHlMaker" by (cases "state h") auto
    with quiet phase ord entry [OF gok] show ?thesis
      by (auto simp: hl_inv_def hl_gate_ok_def record_frame)
  qed
qed

lemma hl_inv_step:
  assumes "hl_inv h" and "hl_step ev h = (a, h')"
  shows "hl_inv h'"
proof (cases ev)
  case (MarketSnapshot s now pos)
  with assms show ?thesis by (auto intro: hl_inv_market_snapshot)
next
  case (MakerFill px sz s)
  with assms show ?thesis
    by (auto simp: on_hl_maker_fill_def Let_def hl_inv_def hl_gate_ok_def split: option.splits)
next
  case (HedgeFill px)
  with assms show ?thesis
    by (cases "state h") (auto simp: on_lighter_hedge_fill_def hl_inv_def hl_gate_ok_def split: option.splits)
next
  case HedgeReject
  with assms show ?thesis
    by (cases "state h") (auto simp: on_lighter_hedge_reject_def hl_inv_def hl_gate_ok_def split: option.splits)
next
  case Reset
  with assms show ?thesis
    by (auto simp: hl_reset_def hl_inv_def hl_gate_ok_def disarmed_gate_def)
qed

lemma hl_market_pending:
  assumes "hl_on_market_snapshot s now pos h = (a, h')"
  shows "config h' = config h" and "act_type a \<noteq> SendLighterTakerHedge"
    and "act_type a = PlaceHlMaker \<Longrightarrow> pending_maker h' = act_maker_order a \<and> act_maker_order a \<noteq> None"
    and "act_type a \<noteq> PlaceHlMaker \<Longrightarrow> pending_maker h' = pending_maker h"
proof -
  from assms show "config h' = config h" and "act_type a \<noteq> SendLighterTakerHedge"
    and "act_type a = PlaceHlMaker \<Longrightarrow> pending_maker h' = act_maker_order a \<and> act_maker_order a \<noteq> None"
    and "act_type a \<noteq> PlaceHlMaker \<Longrightarrow> pending_maker h' = pending_maker h"
    by (cases rule: hl_on_market_snapshot_cases; simp add: hl_disarm_def record_frame)+
qed

interpretation hl_hedger: hedger_protocol hl_step hl_inv PlaceHlMaker SendLighterTakerHedge
proof unfold_locales
  fix h ev a h'
  assume step: "hl_step ev h = (a, h')"
  show "config h' = config h"
    using step by (cases ev) (auto dest: hl_market_pending simp: on_hl_maker_fill_def Let_def
      on_lighter_hedge_fill_def on_lighter_hedge_reject_def hl_reset_def split: option.splits)
  show "act_type a = PlaceHlMaker \<Longrightarrow> pending_maker h' = act_maker_order a \<and> act_maker_order a \<noteq> None"
    using step by (cases ev) (auto dest: hl_market_pending simp: on_hl_maker_fill_def Let_def
      on_lighter_hedge_reject_def split: option.splits)
  show "act_type a = SendLighterTakerHedge \<Longrightarrow> pending_maker h \<noteq> None \<and> pending_maker h' = None"
    using step by (cases ev) (auto dest: hl_market_pending simp: on_hl_maker_fill_def Let_def
      on_lighter_hedge_reject_def split: option.splits)
  show "act_type a \<noteq> PlaceHlMaker \<Longrightarrow> act_type a \<noteq> SendLighterTakerHedge \<Longrightarrow>
      pending_maker h' = pending_maker h \<or> pending_maker h' = None"
    using step by (cases ev) (auto dest: hl_market_pending simp: on_hl_maker_fill_def Let_def
      on_lighter_hedge_fill_def on_lighter_hedge_reject_def hl_reset_def split: option.splits)
qed (simp_all add: hl_inv_initial hl_inv_step)


section \<open>Prices, thresholds and the rearm delay\<close>

lemma effective_spread_pos:
  "0 < spread_bps (config h) \<Longrightarrow> 0 < effective_spread_bps h x pos"
  using effective_spread_cases [of h x pos] by auto

lemma hl_armed_entry_pos:
  assumes "hl_inv h" and "0 < spread_bps (config h)"
    and "sg_armed (gate (hl_update_gate s now pos h))"
  shows "0 < sg_entry_spread_bps (gate (hl_update_gate s now pos h))"
  using hl_update_gate_entry [of h s now pos] assms by (auto simp: hl_inv_def)

lemma anchored_not_nan:
  assumes "0 < e" "is_finite (bid (lighter s))" "is_finite (ask (lighter s))"
  shows "\<not> is_nan (lighter_anchored_hl_price s d e)"
proof -
  have z: "\<not> is_nan (0::double)" "\<not> is_nan 0" by (simp_all add: zero_double_def)
  have p: "0 < x" if "is_finite x" "\<not> x \<le> 0" for x :: double
    using that by (cases x) (auto simp: zero_double_def)
  show ?thesis
    using dbl_div_not_nan [OF assms(2) _ dbl_pos_ratio_not_nan(1) [OF assms(1)]]
      dbl_div_not_nan [OF assms(3) _ dbl_one_minus_not_nan [OF dbl_pos_ratio_not_nan(2) [OF assms(1)]]]
      p [OF assms(2)] p [OF assms(3)] z
    by (simp add: lighter_anchored_hl_price_def Let_def)
qed

lemma snapshot_valid_hl_quotes:
  assumes "snapshot_valid s m"
  shows "\<not> is_nan (bid (hl s)) \<and> \<not> is_nan (ask (hl s))"
proof -
  have "0 < mid (hl s)" using assms by (simp add: snapshot_valid_def)
  then show ?thesis
    by (cases "bid (hl s)"; cases "ask (hl s)") (auto simp: mid_def zero_double_def split: if_splits)
qed

lemma hl_cancel_threshold_le:
  assumes "dbl_ok e" "0 < e" "0 \<le> cancel_band_bps (config h)" and "e \<le> (x :: double)"
  shows "\<not> x < hl_cancel_threshold_bps h e"
proof -
  let ?t = "e - cancel_band_bps (config h)"
  have z: "\<not> x < 0" using assms(2,4) by (cases e; cases x) (auto simp: zero_double_def)
  have "\<not> x < ?t" if "0 < ?t"
  proof -
    have "?t \<le> e" using dbl_minus_le [OF assms(1) _ assms(3)] that assms(2) dbl_less_not_nan by blast
    then have "?t \<le> x" using assms(4) by (rule dbl_le_trans)
    then show ?thesis using dbl_not_less dbl_le_not_nan by blast
  qed
  with z show ?thesis by (simp add: hl_cancel_threshold_bps_def Let_def)
qed

lemma hl_cancel_threshold_update [simp]:
  "hl_cancel_threshold_bps (hl_update_gate s now pos h) = hl_cancel_threshold_bps h"
  "hl_cancel_threshold_bps (h\<lparr>state := st, pending_maker := p\<rparr>) = hl_cancel_threshold_bps h"
  by (simp_all add: fun_eq_iff hl_cancel_threshold_bps_def record_frame Let_def)

text \<open>Events whose market snapshots fall into a time window.\<close>

definition snapshot_time_in :: "i64 \<Rightarrow> i64 \<Rightarrow> hedger_event \<Rightarrow> bool" where
  "snapshot_time_in t0 t1 ev =
     (case ev of MarketSnapshot s now pos \<Rightarrow> t0 \<le> now \<and> now < t1 | _ \<Rightarrow> True)"

lemma hl_step_disarmed:
  assumes "\<not> sg_armed (gate h)" and "t0 \<le> last_disarm_ms h"
    and "snapshot_time_in t0 (t0 + min_rearm_ms (config h)) ev" and "hl_step ev h = (a, h')"
  shows "\<not> sg_armed (gate h') \<and> t0 \<le> last_disarm_ms h' \<and> act_type a \<noteq> PlaceHlMaker"
proof (cases ev)
  case (MarketSnapshot s now pos)
  with assms have t: "t0 \<le> now" "now < t0 + min_rearm_ms (config h)"
    by (simp_all add: snapshot_time_in_def)
  then have "\<not> hl_can_arm h now" using assms(2) by (simp add: hl_can_arm_def)
  then have u: "hl_update_gate s now pos h = h"
    using assms(1) by (simp add: hl_update_gate_def Let_def)
  from MarketSnapshot assms(4) have "hl_on_market_snapshot s now pos h = (a, h')" by simp
  then show ?thesis
    using assms(1,2) t by (cases rule: hl_on_market_snapshot_cases) (auto simp: u hl_disarm_def)
qed (use assms in \<open>auto simp: on_hl_maker_fill_def on_lighter_hedge_fill_def Let_def
    on_lighter_hedge_reject_def hl_reset_def disarmed_gate_def split: option.splits\<close>)

lemma aggressive_lighter_price_side:
  assumes "0 < mid (lighter s)"
  shows "if d = ShortLighterLongHl then aggressive_lighter_price s d \<le> mid (lighter s)
         else mid (lighter s) \<le> aggressive_lighter_price s d"
proof -
  from assms have le: "\<not> mid (lighter s) \<le> 0" "0 \<le> mid (lighter s)"
    by (cases "mid (lighter s)"; simp add: zero_double_def)+
  have "Fin 0 < D 1 - (D 10 / D 10000)" "D 1 - (D 10 / D 10000) < Fin 1"
    by (simp_all add: double_eval)
  then obtain c where c: "D 1 - (D 10 / D 10000) = Fin c" "0 < c" "c < 1"
    by (rule dbl_between) blast
  have "Fin 1 < D 1 + (D 10 / D 10000)" "D 1 + (D 10 / D 10000) < Fin 2"
    by (simp_all add: double_eval)
  then obtain e where e: "D 1 + (D 10 / D 10000) = Fin e" "1 < e"
    by (rule dbl_between) blast
  show ?thesis
    using dbl_times_shrink [OF dbl_ok_mid le(2) c(2) less_imp_le [OF c(3)]]
      dbl_times_grow [OF dbl_ok_mid le(2) less_imp_le [OF e(2)]] le(1)
    by (simp add: aggressive_lighter_price_def Let_def c(1) e(1))
qed

section \<open>Properties\<close>

text \<open>A concrete market: the one of \<open>src/main.cpp\<close>, and the same after the spread reverts.\<close>

definition demo_wide :: spread_snapshot where
  "demo_wide = \<lparr>lighter = \<lparr>bid = D 10.03, ask = D 10.05, quote_age_ms = 5\<rparr>,
     hl = \<lparr>bid = D 10, ask = D 10.01, quote_age_ms = 4\<rparr>, cross_spread_bps = D 3.49\<rparr>"

definition demo_narrow :: spread_snapshot where
  "demo_narrow = \<lparr>lighter = \<lparr>bid = D 10.01, ask = D 10.02, quote_age_ms = 5\<rparr>,
     hl = \<lparr>bid = D 10, ask = D 10.01, quote_age_ms = 5\<rparr>, cross_spread_bps = D 0.99\<rparr>"

definition demo_hedger :: hedger where
  "demo_hedger = initial_hedger default_strategy_config"

lemma demo_valid [simp]:
  "snapshot_valid demo_wide 1500" "snapshot_valid demo_narrow 1500"
  by (simp_all add: snapshot_valid_def demo_wide_def demo_narrow_def mid_def double_eval)

lemma demo_new: "hl_hedger_new default_strategy_config = Inr demo_hedger"
  by (simp add: hl_hedger_new_def demo_hedger_def default_strategy_config_def double_eval)

lemmas hl_demo_eval = hl_on_market_snapshot_def hl_decide_def hl_update_gate_def effective_spread_bps_def
  hl_can_arm_def hl_direction_for_spread_def hl_cancel_threshold_bps_def hl_disarm_def
  demo_hedger_def initial_hedger_def default_strategy_config_def disarmed_gate_def

lemma demo_gate:
  "hl_update_gate demo_wide 1000 0 demo_hedger =
     demo_hedger\<lparr>gate := \<lparr>sg_armed = True, sg_direction = ShortLighterLongHl,
       sg_entry_spread_bps = D 2\<rparr>\<rparr>"
  by (simp add: hl_demo_eval demo_wide_def double_eval)

definition demo_order :: pending_maker_order where
  "demo_order = hl_build_maker_order demo_hedger demo_wide
     \<lparr>sg_armed = True, sg_direction = ShortLighterLongHl, sg_entry_spread_bps = D 2\<rparr>"

definition demo_pending :: hedger where
  "demo_pending = demo_hedger\<lparr>state := PendingHlMaker,
     gate := \<lparr>sg_armed = True, sg_direction = ShortLighterLongHl, sg_entry_spread_bps = D 2\<rparr>,
     pending_maker := Some demo_order\<rparr>"

lemma demo_place:
  "act_type (fst (hl_on_market_snapshot demo_wide 1000 0 demo_hedger)) = PlaceHlMaker"
  "snd (hl_on_market_snapshot demo_wide 1000 0 demo_hedger) = demo_pending"
proof -
  have "hl_build_maker_order (demo_hedger\<lparr>gate := g\<rparr>) s = hl_build_maker_order demo_hedger s" for g s
    by (simp add: fun_eq_iff hl_build_maker_order_def Let_def)
  then show "act_type (fst (hl_on_market_snapshot demo_wide 1000 0 demo_hedger)) = PlaceHlMaker"
    "snd (hl_on_market_snapshot demo_wide 1000 0 demo_hedger) = demo_pending"
    by (simp_all add: hl_on_market_snapshot_def hl_decide_def demo_gate Let_def)
      (simp_all add: demo_hedger_def initial_hedger_def default_strategy_config_def
        demo_pending_def demo_order_def)
qed

lemma demo_cancel:
  "act_type (fst (hl_on_market_snapshot demo_narrow 2000 0 demo_pending)) = CancelHlMaker"
  "snd (hl_on_market_snapshot demo_narrow 2000 0 demo_pending) =
     demo_pending\<lparr>state := CancelledPendingConfirm, last_disarm_ms := 2000,
       gate := (gate demo_pending)\<lparr>sg_armed := False\<rparr>\<rparr>"
  by (simp_all add: hl_demo_eval demo_pending_def demo_narrow_def snapshot_valid_def mid_def
      demo_order_def hl_build_maker_order_def double_eval)

text \<open>C7: Whatever the market, fills, hedge outcomes and resets do, a hedger that its
  constructor accepts keeps its invariant (a pending order exactly in the two pending
  states, an open position exactly after a fill, never both), keeps its configuration, and
  never asks for more Lighter hedges than it placed maker orders.\<close>

theorem hl_hedger_run_safe:
  assumes "hl_hedger_new c = Inr h" and "run_hedger hl_step evs h = (as, h')"
  shows "hl_inv h' \<and> config h' = c \<and>
    count_actions SendLighterTakerHedge as \<le> count_actions PlaceHlMaker as"
proof -
  from assms(1) have "h = initial_hedger c" by (simp add: hl_hedger_new_def split: if_splits)
  with assms(2) show ?thesis
    using hl_hedger.run_inv [OF hl_inv_initial] hl_hedger.run_config hl_hedger.run_from_start
    by (fastforce simp: initial_hedger_def)
qed

theorem hl_hedger_run_safe_witness:
  "let r = run_hedger hl_step [MarketSnapshot demo_wide 1000 0, MarketSnapshot demo_narrow 2000 0,
             MakerFill (D 10) (D 2) demo_narrow] demo_hedger in
   map act_type (fst r) = [PlaceHlMaker, CancelHlMaker, SendLighterTakerHedge] \<and> hl_inv (snd r)"
proof -
  let ?evs = "[MarketSnapshot demo_wide 1000 0, MarketSnapshot demo_narrow 2000 0,
             MakerFill (D 10) (D 2) demo_narrow]"
  obtain a1 where s1: "hl_on_market_snapshot demo_wide 1000 0 demo_hedger = (a1, demo_pending)"
    and t1: "act_type a1 = PlaceHlMaker"
    using demo_place by (metis prod.collapse)
  obtain a2 h2 where s2: "hl_on_market_snapshot demo_narrow 2000 0 demo_pending = (a2, h2)"
    and t2: "act_type a2 = CancelHlMaker" and p2: "pending_maker h2 = pending_maker demo_pending"
    using demo_cancel by (cases "hl_on_market_snapshot demo_narrow 2000 0 demo_pending") simp
  obtain a3 h3 where s3: "on_hl_maker_fill (D 10) (D 2) demo_narrow h2 = (a3, h3)"
    and t3: "act_type a3 = SendLighterTakerHedge"
    using p2 by (simp add: on_hl_maker_fill_def demo_pending_def Let_def)
  have run: "run_hedger hl_step ?evs demo_hedger = ([a1, a2, a3], h3)"
    by (simp add: s1 s2 s3)
  from hl_hedger_run_safe [OF demo_new run] t1 t2 t3 show ?thesis
    by (simp add: run del: run_hedger.simps hl_step.simps)
qed

text \<open>C14: A market snapshot asks for a maker order exactly when both venues quote fresh
  two-sided markets, the hedger is idle, and its gate stays armed (same direction, spread
  not under the cancel band) or can be armed now (spread at the effective threshold, rearm
  delay over).\<close>

theorem hl_places_iff:
  "act_type (fst (hl_on_market_snapshot s now pos h)) = PlaceHlMaker \<longleftrightarrow>
     snapshot_valid s (max_quote_age_ms (config h)) \<and> state h = Idle \<and>
     (if sg_armed (gate h)
      then hl_direction_for_spread (cross_spread_bps s) = sg_direction (gate h)
           \<and> \<not> \<bar>cross_spread_bps s\<bar> < hl_cancel_threshold_bps h (sg_entry_spread_bps (gate h))
      else effective_spread_bps h (cross_spread_bps s) pos \<le> \<bar>cross_spread_bps s\<bar>
           \<and> min_rearm_ms (config h) \<le> now - last_disarm_ms h)"
proof -
  have armed: "sg_armed (gate (hl_update_gate s now pos h)) \<longleftrightarrow>
    (if sg_armed (gate h)
     then hl_direction_for_spread (cross_spread_bps s) = sg_direction (gate h)
          \<and> \<not> \<bar>cross_spread_bps s\<bar> < hl_cancel_threshold_bps h (sg_entry_spread_bps (gate h))
     else effective_spread_bps h (cross_spread_bps s) pos \<le> \<bar>cross_spread_bps s\<bar>
          \<and> min_rearm_ms (config h) \<le> now - last_disarm_ms h)"
    by (simp add: hl_update_gate_def hl_can_arm_def Let_def)
  obtain a h' where r: "hl_on_market_snapshot s now pos h = (a, h')" by fastforce
  then have "act_type a = PlaceHlMaker \<longleftrightarrow>
    snapshot_valid s (max_quote_age_ms (config h)) \<and> state h = Idle
    \<and> sg_armed (gate (hl_update_gate s now pos h))"
    by (cases rule: hl_on_market_snapshot_cases) auto
  then show ?thesis by (simp add: r armed)
qed

text \<open>A maker order is placed passively: a buy at or below the Hyperliquid bid and at or
  below the price anchored to the Lighter bid, a sell at or above the ask and the anchor.\<close>

theorem hl_placement_is_passive:
  assumes "hl_inv h" and "0 < spread_bps (config h)"
    and "is_finite (bid (lighter s))" and "is_finite (ask (lighter s))"
    and "hl_on_market_snapshot s now pos h = (a, h')" and "act_type a = PlaceHlMaker"
  shows "\<exists>order. act_maker_order a = Some order \<and>
    (let target = lighter_anchored_hl_price s (po_direction order) (po_entry_spread_bps order) in
     if po_is_buy order
     then po_price order \<le> bid (hl s) \<and> po_price order \<le> target
     else ask (hl s) \<le> po_price order \<and> target \<le> po_price order)"
  using assms(5)
proof (cases rule: hl_on_market_snapshot_cases)
  case place
  let ?g = "gate (hl_update_gate s now pos h)"
  from assms(1,2) place(3) have "0 < sg_entry_spread_bps ?g" by (rule hl_armed_entry_pos)
  from anchored_not_nan [OF this assms(3,4)] snapshot_valid_hl_quotes [OF place(1)]
  show ?thesis
    unfolding place(5)
    by (cases "sg_direction ?g")
      (simp_all add: hl_build_maker_order_def Let_def std_min_le1 std_min_le2 std_max_ge1 std_max_ge2)
qed (use assms(6) in auto)

theorem hl_placement_is_passive_witness:
  "\<exists>order. act_maker_order (fst (hl_on_market_snapshot demo_wide 1000 0 demo_hedger)) = Some order
    \<and> po_is_buy order \<and> po_price order \<le> bid (hl demo_wide)"
proof -
  have inv: "hl_inv demo_hedger" by (simp add: demo_hedger_def hl_inv_initial)
  have pos: "0 < spread_bps (config demo_hedger)"
    by (simp add: demo_hedger_def initial_hedger_def default_strategy_config_def double_eval)
  have fin: "is_finite (bid (lighter demo_wide))" "is_finite (ask (lighter demo_wide))"
    by (simp_all add: demo_wide_def double_eval)
  obtain a h' where r: "hl_on_market_snapshot demo_wide 1000 0 demo_hedger = (a, h')"
    by fastforce
  have a: "act_type a = PlaceHlMaker" and h': "h' = demo_pending" using demo_place r by simp_all
  have "pending_maker h' = act_maker_order a"
    using hl_market_pending(3) [OF r a] by simp
  then have o': "act_maker_order a = Some demo_order" by (simp add: h' demo_pending_def)
  have "po_is_buy demo_order"
    by (simp add: demo_order_def hl_build_maker_order_def Let_def)
  with hl_placement_is_passive [OF inv pos fin r a] r o' show ?thesis
    by (auto simp: Let_def)
qed

text \<open>The anchored price locks the gate's spread in: a buy at \<open>q\<close> against the Lighter
  bid \<open>lb\<close> satisfies \<open>q * (1 + spread) \<le> lb\<close>, a sell against the Lighter ask \<open>la\<close>
  satisfies \<open>la \<le> q * (1 - spread)\<close>, each up to one rounding of relative size \<open>2^-53\<close>.\<close>

theorem hl_price_locks_spread:
  assumes "lighter_anchored_hl_price s (sg_direction g) (sg_entry_spread_bps g) = Fin t"
    and "po_price (hl_build_maker_order h s g) = Fin q"
    and "bid (lighter s) = Fin lb" "ask (lighter s) = Fin la" "0 < lb" "0 < la"
    and "D 1 + sg_entry_spread_bps g / D 10000 = Fin dbuy"
    and "D 1 - sg_entry_spread_bps g / D 10000 = Fin dsell"
    and "0 < dbuy" "0 < dsell"
    and "2 powi (- 1022) \<le> lb / dbuy" "2 powi (- 1022) \<le> la / dsell"
  shows "if po_is_buy (hl_build_maker_order h s g)
    then q * dbuy \<le> lb * (1 + 2 powi (- 53))
    else la * (1 - 2 powi (- 53)) \<le> q * dsell"
proof (cases "sg_direction g")
  case ShortLighterLongHl
  with assms have "Fin lb / Fin dbuy = Fin t"
    by (simp add: lighter_anchored_hl_price_def Let_def zero_double_def)
  from dbl_div_upper(1) [OF this assms(5,9,11)] have "t * dbuy \<le> lb * (1 + 2 powi (- 53))" .
  moreover have "q \<le> t"
    using std_min_le1 [of "Fin t" "bid (hl s)"] assms(1,2) ShortLighterLongHl
    by (simp add: hl_build_maker_order_def Let_def)
  ultimately have "q * dbuy \<le> lb * (1 + 2 powi (- 53))"
    using assms(9) mult_right_mono [of q t dbuy] by linarith
  with ShortLighterLongHl show ?thesis by (simp add: hl_build_maker_order_def Let_def)
next
  case LongLighterShortHl
  have "\<not> D 1 \<le> sg_entry_spread_bps g / D 10000"
  proof
    assume le: "D 1 \<le> sg_entry_spread_bps g / D 10000"
    have d: "D 1 = Fin 1" by (simp add: double_eval)
    obtain r where r: "sg_entry_spread_bps g / D 10000 = Fin r"
      using le assms(8) unfolding d minus_double_def
      by (cases "sg_entry_spread_bps g / D 10000") (auto split: if_splits)
    with le d have "1 - r \<le> 0" by simp
    then have "rnd (1 - r) \<le> rnd 0" by (rule rnd_mono)
    with r assms(8,10) d show False by (simp add: minus_double_def)
  qed
  with assms LongLighterShortHl have "Fin la / Fin dsell = Fin t"
    by (simp add: lighter_anchored_hl_price_def Let_def zero_double_def)
  from dbl_div_upper(2) [OF this assms(6,10,12)] have "la * (1 - 2 powi (- 53)) \<le> t * dsell" .
  moreover have "t \<le> q"
    using std_max_ge1 [of "Fin t" "ask (hl s)"] assms(1,2) LongLighterShortHl
    by (simp add: hl_build_maker_order_def Let_def)
  ultimately have "la * (1 - 2 powi (- 53)) \<le> q * dsell"
    using assms(10) mult_right_mono [of t q dsell] by linarith
  with LongLighterShortHl show ?thesis by (simp add: hl_build_maker_order_def Let_def)
qed

theorem hl_price_locks_spread_witness:
  "\<exists>q dbuy. po_price demo_order = Fin q \<and> D 1 + D 2 / D 10000 = Fin dbuy
     \<and> (\<exists>lb. bid (lighter demo_wide) = Fin lb \<and> q * dbuy \<le> lb * (1 + 2 powi (- 53)))"
proof -
  let ?g = "\<lparr>sg_armed = True, sg_direction = ShortLighterLongHl, sg_entry_spread_bps = D 2\<rparr>"
  have "Fin 9 < lighter_anchored_hl_price demo_wide (sg_direction ?g) (sg_entry_spread_bps ?g)" "lighter_anchored_hl_price demo_wide (sg_direction ?g) (sg_entry_spread_bps ?g) < Fin 11"
    by (simp_all add: lighter_anchored_hl_price_def demo_wide_def double_eval)
  then obtain t where t: "lighter_anchored_hl_price demo_wide (sg_direction ?g) (sg_entry_spread_bps ?g) = Fin t"
    by (rule dbl_between) blast
  have "Fin 9 < po_price (hl_build_maker_order demo_hedger demo_wide ?g)" "po_price (hl_build_maker_order demo_hedger demo_wide ?g) < Fin 11"
    by (simp_all add: hl_build_maker_order_def lighter_anchored_hl_price_def demo_wide_def double_eval)
  then obtain q where q: "po_price (hl_build_maker_order demo_hedger demo_wide ?g) = Fin q"
    by (rule dbl_between) blast
  have "Fin 9 < bid (lighter demo_wide)" "bid (lighter demo_wide) < Fin 11"
    by (simp_all add: demo_wide_def double_eval)
  then obtain lb where lb: "bid (lighter demo_wide) = Fin lb" "9 < lb"
    by (rule dbl_between) blast
  have "Fin 9 < ask (lighter demo_wide)" "ask (lighter demo_wide) < Fin 11"
    by (simp_all add: demo_wide_def double_eval)
  then obtain la where la: "ask (lighter demo_wide) = Fin la" "9 < la"
    by (rule dbl_between) blast
  note l = lb(1) la(1) lb(2) la(2)
  have "Fin 0 < D 1 + sg_entry_spread_bps ?g / D 10000" "D 1 + sg_entry_spread_bps ?g / D 10000 < Fin 2"
    by (simp_all add: double_eval)
  then obtain dbuy where db: "D 1 + sg_entry_spread_bps ?g / D 10000 = Fin dbuy" "0 < dbuy" "dbuy < 2"
    by (rule dbl_between) blast
  have "Fin 0 < D 1 - sg_entry_spread_bps ?g / D 10000" "D 1 - sg_entry_spread_bps ?g / D 10000 < Fin 2"
    by (simp_all add: double_eval)
  then obtain dsell where ds: "D 1 - sg_entry_spread_bps ?g / D 10000 = Fin dsell" "0 < dsell" "dsell < 2"
    by (rule dbl_between) blast
  note d = db(1) ds(1) db(2) ds(2) db(3) ds(3)
  have small: "(2::rat) powi (- 1022) \<le> 1" by (simp add: power_int_le_one)
  have ratio: "1 \<le> lb / dbuy" "1 \<le> la / dsell" using l d by (simp_all add: le_divide_eq)
  have "2 powi (- 1022) \<le> lb / dbuy" "2 powi (- 1022) \<le> la / dsell"
    using order_trans [OF small ratio(1)] order_trans [OF small ratio(2)] by simp_all
  from hl_price_locks_spread [OF t q l(1,2) _ _ d(1,2,3,4) this] l q d(1)
  have "q * dbuy \<le> lb * (1 + 2 powi (- 53))"
    by (simp add: hl_build_maker_order_def Let_def)
  with q d(1) l(1) show ?thesis by (auto simp: demo_order_def)
qed

text \<open>Hysteresis: whatever snapshot made the hedger place its order does not, shown
  again at any later time and position, make it cancel or move that order.\<close>

theorem hl_no_immediate_cancel:
  assumes "hl_inv h" and "0 < spread_bps (config h)" and "0 \<le> cancel_band_bps (config h)"
    and "dbl_ok (spread_bps (config h))" and "dbl_ok (close_spread_bps (config h))"
    and "hl_on_market_snapshot s now pos h = (a, h')" and "act_type a = PlaceHlMaker"
  shows "hl_on_market_snapshot s later pos' h' = (no_action, h')"
  using assms(6)
proof (cases rule: hl_on_market_snapshot_cases)
  case place
  let ?u = "hl_update_gate s now pos h"
  let ?e = "sg_entry_spread_bps (gate ?u)"
  have entry: "0 < ?e" using hl_armed_entry_pos [OF assms(1,2) place(3)] .
  have ok: "dbl_ok ?e"
    using hl_update_gate_entry [of h s now pos] assms(1,4,5) place(3) by (auto simp: hl_inv_def)
  have live: "sg_direction (gate ?u) = hl_direction_for_spread (cross_spread_bps s)
      \<and> \<not> \<bar>cross_spread_bps s\<bar> < hl_cancel_threshold_bps h ?e"
    using hl_update_gate_cases [of s now pos h] hl_update_gate_kept [of h s now pos] place(3)
      hl_cancel_threshold_le [OF ok entry assms(3)] by auto
  have "hl_update_gate s later pos' h' = h'"
    using live place(3) by (simp add: place(6) hl_update_gate_def [of s later] Let_def)
  with live place show ?thesis
    by (simp add: hl_on_market_snapshot_def [of s later] hl_decide_def record_frame Let_def)
qed (use assms(7) in auto)

theorem hl_no_immediate_cancel_witness:
  "hl_on_market_snapshot demo_wide 1001 0 demo_pending = (no_action, demo_pending)"
proof -
  have inv: "hl_inv demo_hedger" by (simp add: demo_hedger_def hl_inv_initial)
  have cfg: "0 < spread_bps (config demo_hedger)" "0 \<le> cancel_band_bps (config demo_hedger)"
    "dbl_ok (spread_bps (config demo_hedger))" "dbl_ok (close_spread_bps (config demo_hedger))"
    by (simp_all add: demo_hedger_def initial_hedger_def default_strategy_config_def)
      (simp_all add: double_eval)
  obtain a h' where r: "hl_on_market_snapshot demo_wide 1000 0 demo_hedger = (a, h')"
    by fastforce
  have "act_type a = PlaceHlMaker" "h' = demo_pending" using demo_place r by simp_all
  with hl_no_immediate_cancel [OF inv cfg r] show ?thesis by simp
qed

text \<open>Rearm delay: a disarmed hedger places nothing while every snapshot it sees falls
  within \<open>min_rearm_ms\<close> of its last disarm, whatever fills, rejects and resets come between.\<close>

theorem hl_rearm_delay:
  assumes "run_hedger hl_step evs h = (as, h')" and "\<not> sg_armed (gate h)"
    and "list_all (snapshot_time_in (last_disarm_ms h)
           (last_disarm_ms h + min_rearm_ms (config h))) evs"
  shows "count_actions PlaceHlMaker as = 0"
proof -
  have "count_actions PlaceHlMaker as = 0"
    if "run_hedger hl_step evs h = (as, h')" "\<not> sg_armed (gate h)" "t0 \<le> last_disarm_ms h"
      "list_all (snapshot_time_in t0 (t0 + min_rearm_ms (config h))) evs" for t0
    using that
  proof (induction evs arbitrary: h as h')
    case (Cons ev evs)
    obtain a h1 where s: "hl_step ev h = (a, h1)" by fastforce
    obtain bs h2 where r: "run_hedger hl_step evs h1 = (bs, h2)" by fastforce
    from Cons.prems s r have "as = a # bs" by simp
    moreover have "config h1 = config h" by (rule hl_hedger.step_config [OF s])
    ultimately show ?case
      using Cons.IH [OF r] Cons.prems hl_step_disarmed [OF _ _ _ s] by auto
  qed simp
  from this [OF assms(1,2) _ assms(3)] show ?thesis by simp
qed

theorem hl_rearm_delay_witness:
  "count_actions PlaceHlMaker (fst (run_hedger hl_step
     [MarketSnapshot demo_wide 100 0, HedgeReject, MarketSnapshot demo_wide 499 0] demo_hedger)) = 0"
  by (rule hl_rearm_delay [OF surjective_pairing])
    (simp_all add: demo_hedger_def initial_hedger_def disarmed_gate_def default_strategy_config_def
      snapshot_time_in_def)

text \<open>A fill of the pending order, also one that arrives after the cancel was requested,
  is answered by a Lighter hedge of the filled size on the opposite side, priced at or
  through the Lighter mid, and the position is recorded.\<close>

theorem hl_fill_is_hedged:
  assumes "hl_inv h" and "pending_maker h = Some order"
    and "0 < mid (lighter s)"
  shows "state h \<in> {PendingHlMaker, CancelledPendingConfirm} \<and>
    (\<exists>a h' hedge. on_hl_maker_fill px sz s h = (a, h')
      \<and> act_type a = SendLighterTakerHedge \<and> act_hedge_intent a = Some hedge
      \<and> hi_is_ask hedge = po_is_buy order \<and> hi_size_base hedge = sz
      \<and> (if hi_is_ask hedge then hi_limit_price hedge \<le> mid (lighter s)
         else mid (lighter s) \<le> hi_limit_price hedge)
      \<and> state h' = HlFilledPendingLighterHedge \<and> pending_maker h' = None
      \<and> open_position h' = Some \<lparr>oh_direction = po_direction order, oh_size_base = sz,
           oh_hl_fill_price = px, oh_lighter_fill_price = 0\<rparr>)"
proof -
  have "state h \<in> {PendingHlMaker, CancelledPendingConfirm}"
    using assms(1,2) by (cases "state h") (simp_all add: hl_inv_def)
  moreover have "po_is_buy order = (po_direction order = ShortLighterLongHl)"
    using assms(1,2) by (simp add: hl_inv_def hl_order_ok_def)
  ultimately show ?thesis
    using aggressive_lighter_price_side [OF assms(3)] assms(2)
    by (simp add: on_hl_maker_fill_def build_lighter_hedge_def Let_def split: if_splits)
qed

theorem hl_fill_is_hedged_witness:
  "\<exists>hedge. act_hedge_intent (fst (on_hl_maker_fill (D 10) (D 2) demo_narrow
      (snd (hl_on_market_snapshot demo_narrow 2000 0 demo_pending)))) = Some hedge
    \<and> hi_is_ask hedge \<and> hi_size_base hedge = D 2"
proof -
  obtain a1 where s1: "hl_on_market_snapshot demo_wide 1000 0 demo_hedger = (a1, demo_pending)"
    using demo_place by (metis prod.collapse)
  have "hl_inv demo_pending"
    using hl_inv_market_snapshot [OF _ s1] by (simp add: demo_hedger_def hl_inv_initial)
  then have inv: "hl_inv (snd (hl_on_market_snapshot demo_narrow 2000 0 demo_pending))"
    using hl_inv_market_snapshot surjective_pairing by blast
  have p: "pending_maker (snd (hl_on_market_snapshot demo_narrow 2000 0 demo_pending)) = Some demo_order"
    using demo_cancel(2) by (simp add: demo_pending_def)
  have m: "0 < mid (lighter demo_narrow)"
    using demo_valid(2) by (simp add: snapshot_valid_def)
  have "po_is_buy demo_order" by (simp add: demo_order_def hl_build_maker_order_def Let_def)
  with hl_fill_is_hedged [OF inv p m, of "D 10" "D 2"] show ?thesis by fastforce
qed

text \<open>Once a cancel is requested the hedger waits for its outcome: market snapshots
  alone, however many and however late, never place, cancel or overwrite anything.\<close>

theorem hl_cancelled_waits:
  assumes "state h = CancelledPendingConfirm"
    and "run_hedger hl_step (map (\<lambda>(s, now, pos). MarketSnapshot s now pos) ms) h = (as, h')"
  shows "state h' = CancelledPendingConfirm \<and> pending_maker h' = pending_maker h
    \<and> list_all (\<lambda>a. a = no_action) as"
  using assms
proof (induction ms arbitrary: h as h')
  case (Cons m ms)
  obtain s now pos where m: "m = (s, now, pos)" by (cases m)
  obtain a h1 where r1: "hl_on_market_snapshot s now pos h = (a, h1)" by fastforce
  obtain bs h2 where r: "run_hedger hl_step (map (\<lambda>(s, now, pos). MarketSnapshot s now pos) ms) h1 = (bs, h2)"
    by fastforce
  have "a = no_action \<and> state h1 = CancelledPendingConfirm \<and> pending_maker h1 = pending_maker h"
    using r1 Cons.prems(1) by (cases rule: hl_on_market_snapshot_cases) (auto simp: record_frame)
  with Cons.IH [OF _ r] Cons.prems(2) show ?case by (auto simp: m r1 r)
qed simp

theorem hl_cancelled_waits_witness:
  "state (snd (run_hedger hl_step [MarketSnapshot demo_wide 9000 0, MarketSnapshot demo_wide 99000 0]
     (demo_pending\<lparr>state := CancelledPendingConfirm\<rparr>))) = CancelledPendingConfirm"
  using hl_cancelled_waits [OF _ surjective_pairing,
      of "demo_pending\<lparr>state := CancelledPendingConfirm\<rparr>" "[(demo_wide, 9000, 0), (demo_wide, 99000, 0)]"]
  by simp

end
