(* ===== verification/Strategy_Lighter.thy ===== *)
theory Strategy_Lighter
  imports Strategy_Hl
begin

text \<open>
  \<open>LighterMakerHlHedger\<close> of \<open>src/strategy.cpp\<close>: the mirror strategy, which rests its
  maker order on Lighter and hedges with a Hyperliquid taker order.  The class repeats the
  private helpers of \<open>HlMakerLighterHedger\<close>; so does this theory, with the prefix \<open>lm_\<close>.
  There is no close threshold: the gate arms at \<open>spread_bps\<close> alone.
\<close>

section \<open>Price construction\<close>

definition hl_anchored_lighter_price :: "spread_snapshot \<Rightarrow> direction \<Rightarrow> double \<Rightarrow> double" where
  "hl_anchored_lighter_price snapshot direction spread =
     (let spread_ratio = spread / D 10000 in
      if direction = ShortLighterLongHl then
        (let hl_buy_price = ask (hl snapshot) in
         if hl_buy_price \<le> 0 then 0 else hl_buy_price * (D 1 + spread_ratio))
      else
        (let hl_sell_price = bid (hl snapshot) in
         if hl_sell_price \<le> 0 then 0 else hl_sell_price * (D 1 - spread_ratio)))"

definition aggressive_hl_price :: "spread_snapshot \<Rightarrow> direction \<Rightarrow> double" where
  "aggressive_hl_price snapshot direction =
     (let kTakerSlippageBps = D 10 in
      if direction = ShortLighterLongHl
      then ask (hl snapshot) * (D 1 + (kTakerSlippageBps / D 10000))
      else bid (hl snapshot) * (D 1 - (kTakerSlippageBps / D 10000)))"

section \<open>Construction and private helpers\<close>

definition lm_hedger_new :: "strategy_config \<Rightarrow> string + hedger" where
  "lm_hedger_new c =
     (if spread_bps c \<le> 0 then Inl spread_not_positive
      else if cancel_band_bps c < 0 then Inl band_negative
      else Inr (initial_hedger c))"

definition lm_can_arm :: "hedger \<Rightarrow> i64 \<Rightarrow> bool" where
  "lm_can_arm h now_ms \<longleftrightarrow> min_rearm_ms (config h) \<le> now_ms - last_disarm_ms h"

definition lm_cancel_threshold_bps :: "hedger \<Rightarrow> double \<Rightarrow> double" where
  "lm_cancel_threshold_bps h entry_spread_bps =
     (let threshold = entry_spread_bps - cancel_band_bps (config h) in
      if 0 < threshold then threshold else 0)"

definition lm_direction_for_spread :: "double \<Rightarrow> direction" where
  "lm_direction_for_spread cross_spread =
     (if 0 \<le> cross_spread then ShortLighterLongHl else LongLighterShortHl)"

definition lm_disarm :: "i64 \<Rightarrow> hedger \<Rightarrow> hedger" where
  "lm_disarm now_ms h = h\<lparr>gate := (gate h)\<lparr>sg_armed := False\<rparr>, last_disarm_ms := now_ms\<rparr>"

definition lm_build_maker_order ::
  "hedger \<Rightarrow> spread_snapshot \<Rightarrow> signal_gate \<Rightarrow> pending_maker_order" where
  "lm_build_maker_order h snapshot g =
     (let direction = sg_direction g;
          avg_mid = (mid (lighter snapshot) + mid (hl snapshot)) / D 2;
          size_base = (if 0 < avg_mid then pair_size_usd (config h) / avg_mid else 0);
          target_price = hl_anchored_lighter_price snapshot direction (sg_entry_spread_bps g) in
      if direction = ShortLighterLongHl then
        \<lparr>po_direction = direction, po_is_buy = False,
         po_price = std_max target_price (ask (lighter snapshot)),
         po_size_base = size_base, po_trigger_spread_bps = cross_spread_bps snapshot,
         po_entry_spread_bps = sg_entry_spread_bps g\<rparr>
      else
        \<lparr>po_direction = direction, po_is_buy = True,
         po_price = std_min target_price (bid (lighter snapshot)),
         po_size_base = size_base, po_trigger_spread_bps = cross_spread_bps snapshot,
         po_entry_spread_bps = sg_entry_spread_bps g\<rparr>)"

definition build_hl_hedge :: "hedger \<Rightarrow> spread_snapshot \<Rightarrow> hl_hedge_intent" where
  "build_hl_hedge h snapshot =
     (case open_position h of
        None \<Rightarrow> default_hl_hedge_intent
      | Some pos \<Rightarrow>
          \<lparr>hh_is_buy = (oh_direction pos = ShortLighterLongHl),
           hh_limit_price = aggressive_hl_price snapshot (oh_direction pos),
           hh_size_base = oh_size_base pos\<rparr>)"

section \<open>Public methods\<close>

definition lm_update_gate :: "spread_snapshot \<Rightarrow> i64 \<Rightarrow> hedger \<Rightarrow> hedger" where
  "lm_update_gate snapshot now_ms h =
     (let abs_spread = \<bar>cross_spread_bps snapshot\<bar>;
          live_direction = lm_direction_for_spread (cross_spread_bps snapshot) in
      if sg_armed (gate h) then
        (let gate_cancel = lm_cancel_threshold_bps h (sg_entry_spread_bps (gate h)) in
         if live_direction \<noteq> sg_direction (gate h) \<or> abs_spread < gate_cancel then
           (let h = h\<lparr>gate := (gate h)\<lparr>sg_armed := False\<rparr>\<rparr> in
            if state h = Idle \<or> state h = CancelledPendingLighterConfirm
            then h\<lparr>last_disarm_ms := now_ms\<rparr> else h)
         else h)
      else if spread_bps (config h) \<le> abs_spread \<and> lm_can_arm h now_ms then
        h\<lparr>gate := \<lparr>sg_armed = True, sg_direction = live_direction,
                   sg_entry_spread_bps = spread_bps (config h)\<rparr>\<rparr>
      else h)"

text \<open>The decision on a valid snapshot, after the gate has been updated.\<close>

definition lm_decide :: "spread_snapshot \<Rightarrow> i64 \<Rightarrow> hedger \<Rightarrow> action \<times> hedger" where
  "lm_decide snapshot now_ms h =
     (let abs_spread = \<bar>cross_spread_bps snapshot\<bar>;
          live_direction = lm_direction_for_spread (cross_spread_bps snapshot) in
      if state h = Idle then
        (if \<not> sg_armed (gate h) then (no_action, h)
         else
           (let h = h\<lparr>pending_maker := Some (lm_build_maker_order h snapshot (gate h))\<rparr>;
                h = h\<lparr>state := PendingLighterMaker\<rparr> in
            (no_action\<lparr>act_type := PlaceLighterMaker,
                act_reason := ''spread reached entry threshold'',
                act_maker_order := pending_maker h\<rparr>, h)))
      else
        (case (state h, pending_maker h) of
           (PendingLighterMaker, Some order) \<Rightarrow>
             (let cancel_thresh = lm_cancel_threshold_bps h (po_entry_spread_bps order) in
              if \<not> sg_armed (gate h) \<or> live_direction \<noteq> po_direction order
                 \<or> abs_spread < cancel_thresh then
                (no_action\<lparr>act_type := CancelLighterMaker,
                    act_reason := ''spread mean-reverted below cancel threshold'',
                    act_maker_order := pending_maker h\<rparr>,
                 lm_disarm now_ms (h\<lparr>state := CancelledPendingLighterConfirm\<rparr>))
              else (no_action, h))
         | _ \<Rightarrow> (no_action, h)))"

definition lm_on_market_snapshot ::
  "spread_snapshot \<Rightarrow> i64 \<Rightarrow> hedger \<Rightarrow> action \<times> hedger" where
  "lm_on_market_snapshot snapshot now_ms h =
     (if \<not> snapshot_valid snapshot (max_quote_age_ms (config h)) then (no_action, h)
      else lm_decide snapshot now_ms (lm_update_gate snapshot now_ms h))"

definition on_lighter_maker_fill ::
  "double \<Rightarrow> double \<Rightarrow> spread_snapshot \<Rightarrow> hedger \<Rightarrow> action \<times> hedger" where
  "on_lighter_maker_fill fill_price fill_size_base snapshot h =
     (case pending_maker h of
        None \<Rightarrow> (no_action, h)
      | Some order \<Rightarrow>
          (let h = h\<lparr>open_position := Some
                 \<lparr>oh_direction = po_direction order, oh_size_base = fill_size_base,
                  oh_hl_fill_price = 0, oh_lighter_fill_price = fill_price\<rparr>\<rparr>;
               h = h\<lparr>state := LighterFilledPendingHlHedge\<rparr>;
               a = no_action\<lparr>act_type := SendHlTakerHedge,
                     act_reason := ''lighter maker filled'',
                     act_hl_hedge_intent := Some (build_hl_hedge h snapshot)\<rparr>
           in (a, h\<lparr>pending_maker := None\<rparr>)))"

definition on_hl_hedge_fill :: "double \<Rightarrow> hedger \<Rightarrow> hedger" where
  "on_hl_hedge_fill fill_price h =
     (case open_position h of
        None \<Rightarrow> h
      | Some pos \<Rightarrow> h\<lparr>open_position := Some (pos\<lparr>oh_hl_fill_price := fill_price\<rparr>),
                      state := Open\<rparr>)"

definition on_hl_hedge_reject :: "hedger \<Rightarrow> action \<times> hedger" where
  "on_hl_hedge_reject h =
     (case open_position h of
        None \<Rightarrow> (no_action, h)
      | Some _ \<Rightarrow>
          (no_action\<lparr>act_type := UnwindLighterPosition,
              act_reason := ''hl taker hedge failed after lighter maker fill''\<rparr>,
           h\<lparr>state := UnwindingLighter\<rparr>))"

definition lm_reset :: "hedger \<Rightarrow> hedger" where
  "lm_reset h = h\<lparr>gate := disarmed_gate, pending_maker := None, open_position := None,
                  state := Idle\<rparr>"

text \<open>The position argument of a market snapshot has no counterpart in this class.\<close>

fun lm_step :: "hedger_event \<Rightarrow> hedger \<Rightarrow> action \<times> hedger" where
  "lm_step (MarketSnapshot s now pos) h = lm_on_market_snapshot s now h"
| "lm_step (MakerFill px sz s) h = on_lighter_maker_fill px sz s h"
| "lm_step (HedgeFill px) h = (no_action, on_hl_hedge_fill px h)"
| "lm_step HedgeReject h = on_hl_hedge_reject h"
| "lm_step Reset h = (no_action, lm_reset h)"

section \<open>Invariant\<close>

fun lm_phase_ok :: "strategy_state \<Rightarrow> 'a option \<Rightarrow> 'b option \<Rightarrow> bool" where
  "lm_phase_ok Idle p q \<longleftrightarrow> p = None \<and> q = None"
| "lm_phase_ok PendingLighterMaker p q \<longleftrightarrow> p \<noteq> None \<and> q = None"
| "lm_phase_ok CancelledPendingLighterConfirm p q \<longleftrightarrow> p \<noteq> None \<and> q = None"
| "lm_phase_ok LighterFilledPendingHlHedge p q \<longleftrightarrow> p = None \<and> q \<noteq> None"
| "lm_phase_ok Open p q \<longleftrightarrow> p = None \<and> q \<noteq> None"
| "lm_phase_ok UnwindingLighter p q \<longleftrightarrow> p = None \<and> q \<noteq> None"
| "lm_phase_ok _ p q \<longleftrightarrow> False"

definition lm_order_ok :: "pending_maker_order \<Rightarrow> bool" where
  "lm_order_ok order \<longleftrightarrow> po_is_buy order = (po_direction order = LongLighterShortHl)"

definition lm_inv :: "hedger \<Rightarrow> bool" where
  "lm_inv h \<longleftrightarrow> lm_phase_ok (state h) (pending_maker h) (open_position h)
     \<and> (\<forall>order. pending_maker h = Some order \<longrightarrow> lm_order_ok order)
     \<and> (sg_armed (gate h) \<longrightarrow> sg_entry_spread_bps (gate h) = spread_bps (config h))"

lemma lm_update_gate_frame [record_frame]:
  "state (lm_update_gate s now h) = state h"
  "config (lm_update_gate s now h) = config h"
  "pending_maker (lm_update_gate s now h) = pending_maker h"
  "open_position (lm_update_gate s now h) = open_position h"
  by (simp_all add: lm_update_gate_def Let_def)

lemma lm_update_gate_entry:
  "lm_inv h \<Longrightarrow> sg_armed (gate (lm_update_gate s now h)) \<Longrightarrow>
     sg_entry_spread_bps (gate (lm_update_gate s now h)) = spread_bps (config h)"
  by (auto simp: lm_update_gate_def Let_def lm_inv_def)

lemma lm_order_ok_build [simp]: "lm_order_ok (lm_build_maker_order h s g)"
  by (cases "sg_direction g") (simp_all add: lm_order_ok_def lm_build_maker_order_def Let_def)

section \<open>The two hedgers are one state machine\<close>







lemma effective_without_close [simp]:
  "close_spread_bps (config h) = 0 \<Longrightarrow> effective_spread_bps h x pos = spread_bps (config h)"
  by (simp add: effective_spread_bps_def Let_def zero_double_def)









section \<open>Invariant of every step\<close>

lemma lm_inv_initial: "lm_inv (initial_hedger c)"
  by (simp add: lm_inv_def initial_hedger_def disarmed_gate_def)

lemma lm_inv_update_gate:
  assumes "lm_inv h" shows "lm_inv (lm_update_gate s now h)"
  using assms lm_update_gate_entry [OF assms] by (simp add: lm_inv_def record_frame)

lemma lm_decide_step:
  assumes "lm_decide s now h = (a, h')"
  shows "lm_inv h \<Longrightarrow> lm_inv h'" and "config h' = config h" and "act_type a \<noteq> SendHlTakerHedge"
    and "pending_maker h' = (if act_type a = PlaceLighterMaker then act_maker_order a else pending_maker h)"
    and "act_type a = PlaceLighterMaker \<Longrightarrow>
      act_maker_order a = Some (lm_build_maker_order h s (gate h)) \<and> sg_armed (gate h)"
proof -
  have b: "lm_build_maker_order (h\<lparr>pending_maker := p\<rparr>) = lm_build_maker_order h" for p
    by (simp add: fun_eq_iff lm_build_maker_order_def Let_def)
  note simps = lm_decide_def Let_def lm_inv_def lm_disarm_def b
  from assms show "lm_inv h \<Longrightarrow> lm_inv h'" and "config h' = config h"
    and "act_type a \<noteq> SendHlTakerHedge"
    and "pending_maker h' = (if act_type a = PlaceLighterMaker then act_maker_order a else pending_maker h)"
    and "act_type a = PlaceLighterMaker \<Longrightarrow>
      act_maker_order a = Some (lm_build_maker_order h s (gate h)) \<and> sg_armed (gate h)"
    by (cases "state h"; auto simp: simps split: option.splits if_splits)+
qed

lemma lm_market_step:
  assumes "lm_on_market_snapshot s now h = (a, h')"
  shows "lm_inv h \<Longrightarrow> lm_inv h'" and "config h' = config h" and "act_type a \<noteq> SendHlTakerHedge"
    and "pending_maker h' = (if act_type a = PlaceLighterMaker then act_maker_order a else pending_maker h)"
    and "act_type a = PlaceLighterMaker \<Longrightarrow> act_maker_order a \<noteq> None"
  using assms lm_decide_step [of s now "lm_update_gate s now h" a h'] lm_inv_update_gate [of h s now]
  by (auto simp: lm_on_market_snapshot_def record_frame split: if_splits)

lemma lm_inv_step:
  assumes "lm_inv h" and "lm_step ev h = (a, h')"
  shows "lm_inv h'"
proof (cases ev)
  case (MarketSnapshot s now pos)
  with assms lm_market_step(1) show ?thesis by simp
next
  case (MakerFill px sz s)
  with assms show ?thesis
    by (auto simp: on_lighter_maker_fill_def Let_def lm_inv_def split: option.splits)
next
  case (HedgeFill px)
  with assms show ?thesis
    by (cases "state h") (auto simp: on_hl_hedge_fill_def lm_inv_def split: option.splits)
next
  case HedgeReject
  with assms show ?thesis
    by (cases "state h") (auto simp: on_hl_hedge_reject_def lm_inv_def split: option.splits)
next
  case Reset
  with assms show ?thesis by (auto simp: lm_reset_def lm_inv_def disarmed_gate_def)
qed

interpretation lm_hedger: hedger_protocol lm_step lm_inv PlaceLighterMaker SendHlTakerHedge
proof unfold_locales
  fix h ev a h'
  assume step: "lm_step ev h = (a, h')"
  note simps = on_lighter_maker_fill_def Let_def on_hl_hedge_fill_def on_hl_hedge_reject_def lm_reset_def
  show "config h' = config h"
    using step by (cases ev) (auto dest: lm_market_step simp: simps split: option.splits)
  show "act_type a = PlaceLighterMaker \<Longrightarrow> pending_maker h' = act_maker_order a \<and> act_maker_order a \<noteq> None"
    using step by (cases ev) (auto dest: lm_market_step simp: simps split: option.splits)
  show "act_type a = SendHlTakerHedge \<Longrightarrow> pending_maker h \<noteq> None \<and> pending_maker h' = None"
    using step by (cases ev) (auto dest: lm_market_step simp: simps split: option.splits)
  show "act_type a \<noteq> PlaceLighterMaker \<Longrightarrow> act_type a \<noteq> SendHlTakerHedge \<Longrightarrow>
      pending_maker h' = pending_maker h \<or> pending_maker h' = None"
    using step by (cases ev) (auto dest: lm_market_step simp: simps split: option.splits)
qed (simp_all add: lm_inv_initial lm_inv_step)

section \<open>Properties\<close>

text \<open>Whatever happens, a Lighter-maker hedger that its constructor accepts keeps its
  invariant and its configuration, and never asks for more Hyperliquid hedges than it
  placed maker orders.\<close>

theorem lm_hedger_run_safe:
  assumes "lm_hedger_new c = Inr h" and "run_hedger lm_step evs h = (as, h')"
  shows "lm_inv h' \<and> config h' = c \<and>
    count_actions SendHlTakerHedge as \<le> count_actions PlaceLighterMaker as"
proof -
  from assms(1) have "h = initial_hedger c" by (simp add: lm_hedger_new_def split: if_splits)
  with assms(2) show ?thesis
    using lm_hedger.run_inv [OF lm_inv_initial] lm_hedger.run_config lm_hedger.run_from_start
    by (fastforce simp: initial_hedger_def)
qed

theorem lm_hedger_run_safe_witness:
  "let r = run_hedger lm_step [MarketSnapshot demo_wide 1000 0, MakerFill (D 10) (D 2) demo_wide] demo_hedger in
   map act_type (fst r) = [PlaceLighterMaker, SendHlTakerHedge] \<and> lm_inv (snd r)"
proof -
  let ?evs = "[MarketSnapshot demo_wide 1000 0, MakerFill (D 10) (D 2) demo_wide]"
  have new: "lm_hedger_new default_strategy_config = Inr demo_hedger"
    using demo_new by (simp add: lm_hedger_new_def hl_hedger_new_def)
  have g: "sg_armed (gate (lm_update_gate demo_wide 1000 demo_hedger))"
    by (simp add: lm_update_gate_def lm_can_arm_def demo_hedger_def initial_hedger_def
        default_strategy_config_def disarmed_gate_def demo_wide_def double_eval)
  have v: "snapshot_valid demo_wide (max_quote_age_ms (config demo_hedger))"
    using demo_valid by (simp add: demo_hedger_def initial_hedger_def default_strategy_config_def)
  obtain a1 h1 where s1: "lm_on_market_snapshot demo_wide 1000 demo_hedger = (a1, h1)" by fastforce
  have t1: "act_type a1 = PlaceLighterMaker"
    using s1 g v
    by (auto simp: lm_on_market_snapshot_def lm_decide_def record_frame Let_def demo_hedger_def initial_hedger_def)
  then have p1: "pending_maker h1 \<noteq> None" using lm_market_step(4,5) [OF s1] by simp
  obtain a2 h2 where s2: "on_lighter_maker_fill (D 10) (D 2) demo_wide h1 = (a2, h2)" by fastforce
  have t2: "act_type a2 = SendHlTakerHedge"
    using s2 p1 by (auto simp: on_lighter_maker_fill_def Let_def)
  have run: "run_hedger lm_step ?evs demo_hedger = ([a1, a2], h2)"
    using s2 by (simp add: s1)
  from lm_hedger_run_safe [OF new run] t1 t2 show ?thesis
    by (simp add: run del: run_hedger.simps lm_step.simps)
qed


text \<open>A Lighter maker order is passive and keeps the spread: a sell stands at or above
  the Lighter ask and at least the spread above the Hyperliquid ask, a buy at or below the
  Lighter bid and at least the spread below the Hyperliquid bid, up to one rounding.\<close>

theorem lm_price_locks_spread:
  assumes "bid (hl s) = Fin hb" "ask (hl s) = Fin ha" "0 < hb" "0 < ha"
    and "D 1 + sg_entry_spread_bps g / D 10000 = Fin dsell"
    and "D 1 - sg_entry_spread_bps g / D 10000 = Fin dbuy"
    and "rnd (ha * dsell) = Fin ts" "rnd (hb * dbuy) = Fin tb"
    and "2 powi (- 1022) \<le> ha * dsell" "2 powi (- 1022) \<le> hb * dbuy"
    and "bid (lighter s) = Fin lb" "ask (lighter s) = Fin la"
    and "po_price (lm_build_maker_order h s g) = Fin q"
  shows "if po_is_buy (lm_build_maker_order h s g)
    then q \<le> lb \<and> q \<le> hb * dbuy * (1 + 2 powi (- 53))
    else la \<le> q \<and> ha * dsell * (1 - 2 powi (- 53)) \<le> q"
proof (cases "sg_direction g")
  case ShortLighterLongHl
  with assms have q: "Fin q = std_max (Fin ts) (Fin la)"
    by (simp add: lm_build_maker_order_def hl_anchored_lighter_price_def Let_def zero_double_def)
  have "\<bar>ts - ha * dsell\<bar> \<le> \<bar>ha * dsell\<bar> * 2 powi (- 53)"
    using assms(9) by (intro rnd_relative_error [OF assms(7)]) linarith
  moreover have "0 \<le> ha * dsell" using assms(9) pow2_pos [of "- 1022"] by linarith
  ultimately have "ha * dsell * (1 - 2 powi (- 53)) \<le> ts"
    by (simp only: abs_of_nonneg right_diff_distrib mult_1_right)
  with q ShortLighterLongHl show ?thesis
    by (auto simp: lm_build_maker_order_def Let_def std_max_def split: if_splits)
next
  case LongLighterShortHl
  with assms have q: "Fin q = std_min (Fin tb) (Fin lb)"
    by (simp add: lm_build_maker_order_def hl_anchored_lighter_price_def Let_def zero_double_def)
  have "\<bar>tb - hb * dbuy\<bar> \<le> \<bar>hb * dbuy\<bar> * 2 powi (- 53)"
    using assms(10) by (intro rnd_relative_error [OF assms(8)]) linarith
  moreover have "0 \<le> hb * dbuy" using assms(10) pow2_pos [of "- 1022"] by linarith
  ultimately have "tb \<le> hb * dbuy * (1 + 2 powi (- 53))"
    by (simp only: abs_of_nonneg distrib_left mult_1_right)
  with q LongLighterShortHl show ?thesis
    by (auto simp: lm_build_maker_order_def Let_def std_min_def split: if_splits)
qed

theorem lm_price_locks_spread_witness:
  "\<exists>q dsell. po_price (lm_build_maker_order demo_hedger demo_wide
      \<lparr>sg_armed = True, sg_direction = ShortLighterLongHl, sg_entry_spread_bps = D 2\<rparr>) = Fin q
   \<and> D 1 + D 2 / D 10000 = Fin dsell
   \<and> (\<exists>ha. ask (hl demo_wide) = Fin ha \<and> ha * dsell * (1 - 2 powi (- 53)) \<le> q)"
proof -
  let ?g = "\<lparr>sg_armed = True, sg_direction = ShortLighterLongHl, sg_entry_spread_bps = D 2\<rparr>"
  have "Fin 9 < po_price (lm_build_maker_order demo_hedger demo_wide ?g)"
    "po_price (lm_build_maker_order demo_hedger demo_wide ?g) < Fin 11"
    by (simp_all add: lm_build_maker_order_def hl_anchored_lighter_price_def demo_wide_def double_eval)
  then obtain q where q: "po_price (lm_build_maker_order demo_hedger demo_wide ?g) = Fin q"
    by (rule dbl_between) blast
  have "Fin 9 < bid (lighter demo_wide)" "bid (lighter demo_wide) < Fin 11"
    by (simp_all add: demo_wide_def double_eval)
  then obtain lb where lb: "bid (lighter demo_wide) = Fin lb" by (rule dbl_between) blast
  have "Fin 9 < ask (lighter demo_wide)" "ask (lighter demo_wide) < Fin 11"
    by (simp_all add: demo_wide_def double_eval)
  then obtain la where la: "ask (lighter demo_wide) = Fin la" by (rule dbl_between) blast
  have "Fin 9 < bid (hl demo_wide)" "bid (hl demo_wide) < Fin 11"
    by (simp_all add: demo_wide_def double_eval)
  then obtain hb where hb: "bid (hl demo_wide) = Fin hb" "9 < hb" by (rule dbl_between) blast
  have "Fin 9 < ask (hl demo_wide)" "ask (hl demo_wide) < Fin 11"
    by (simp_all add: demo_wide_def double_eval)
  then obtain ha where ha: "ask (hl demo_wide) = Fin ha" "9 < ha" by (rule dbl_between) blast
  have "Fin (1 / 2) < D 1 + sg_entry_spread_bps ?g / D 10000" "D 1 + sg_entry_spread_bps ?g / D 10000 < Fin 2"
    by (simp_all add: double_eval)
  then obtain ds where ds: "D 1 + sg_entry_spread_bps ?g / D 10000 = Fin ds" "1 / 2 < ds"
    by (rule dbl_between) blast
  have "Fin (1 / 2) < D 1 - sg_entry_spread_bps ?g / D 10000" "D 1 - sg_entry_spread_bps ?g / D 10000 < Fin 2"
    by (simp_all add: double_eval)
  then obtain db where db: "D 1 - sg_entry_spread_bps ?g / D 10000 = Fin db" "1 / 2 < db"
    by (rule dbl_between) blast
  have "Fin 9 < ask (hl demo_wide) * (D 1 + sg_entry_spread_bps ?g / D 10000)"
    "ask (hl demo_wide) * (D 1 + sg_entry_spread_bps ?g / D 10000) < Fin 11"
    "Fin 9 < bid (hl demo_wide) * (D 1 - sg_entry_spread_bps ?g / D 10000)"
    "bid (hl demo_wide) * (D 1 - sg_entry_spread_bps ?g / D 10000) < Fin 11"
    by (simp_all add: demo_wide_def double_eval)
  then obtain ts tb where t: "rnd (ha * ds) = Fin ts" "rnd (hb * db) = Fin tb"
    unfolding ha(1) hb(1) ds(1) db(1) by (metis dbl_between times_double.simps(1))
  have small: "(2::rat) powi (- 1022) \<le> 1" by (simp add: power_int_le_one)
  have "1 \<le> ha * ds" "1 \<le> hb * db"
    using mult_mono [of 9 ha "1/2" ds] mult_mono [of 9 hb "1/2" db] ha(2) hb(2) ds(2) db(2) by simp_all
  with small have n: "2 powi (- 1022) \<le> ha * ds" "2 powi (- 1022) \<le> hb * db" by linarith+
  have "0 < hb" "0 < ha" using hb(2) ha(2) by simp_all
  from lm_price_locks_spread [OF hb(1) ha(1) this ds(1) db(1) t n lb la q] q ds(1) ha(1)
  show ?thesis by (simp add: lm_build_maker_order_def Let_def)
qed
end
