(* ===== verification/Perf.thy ===== *)
theory Perf
  imports Types
begin

text \<open>
  \<open>include/arb/perf.hpp\<close> and \<open>src/perf.cpp\<close>: the process-wide latency counters.  The
  counters are atomics; the model is one thread's sequence of updates to them, and the
  compare-exchange loop that maintains a maximum is its uncontended outcome.
\<close>

section \<open>Metrics\<close>

datatype perf_metric =
    HlMarketLocalRxToBboUpdateNs
  | LighterMarketLocalRxToBboUpdateNs
  | HlQuoteAgeMs
  | LighterQuoteAgeMs
  | CrossVenueAlignmentMs
  | StrategyDecisionNs
  | SignalToHlMakerSendNs
  | HlMakerSendToAckNs
  | HlMakerRestingLifetimeNs
  | CancelTriggerToHlCancelSendNs
  | HlCancelSendToAckNs
  | HlFillLocalRxToLighterSendNs
  | LighterNonceFetchNs
  | LighterSignOrderNs
  | LighterSendTxAckNs
  | HlFillToLighterHttpAckTotalNs
  | LighterSendToHttpAckNs
  | LighterHttpAckToFillConfirmNs
  | LighterSendToAckNs
  | MakerFillToTakerAckTotalNs
  | HedgeFailureToUnwindSendNs
  | UnwindSendToAckNs

text \<open>The metrics in the order of the enum, which \<open>drain_summary_lines\<close> follows.\<close>

definition all_metrics :: "perf_metric list" where
  "all_metrics = [HlMarketLocalRxToBboUpdateNs, LighterMarketLocalRxToBboUpdateNs,
     HlQuoteAgeMs, LighterQuoteAgeMs, CrossVenueAlignmentMs, StrategyDecisionNs,
     SignalToHlMakerSendNs, HlMakerSendToAckNs, HlMakerRestingLifetimeNs,
     CancelTriggerToHlCancelSendNs, HlCancelSendToAckNs, HlFillLocalRxToLighterSendNs,
     LighterNonceFetchNs, LighterSignOrderNs, LighterSendTxAckNs,
     HlFillToLighterHttpAckTotalNs, LighterSendToHttpAckNs, LighterHttpAckToFillConfirmNs,
     LighterSendToAckNs, MakerFillToTakerAckTotalNs, HedgeFailureToUnwindSendNs,
     UnwindSendToAckNs]"

lemma all_metrics_complete: "m \<in> set all_metrics"
  by (cases m) (simp_all add: all_metrics_def)

lemma all_metrics_distinct: "distinct all_metrics"
  by (simp add: all_metrics_def)

fun metric_name :: "perf_metric \<Rightarrow> string" where
  "metric_name HlMarketLocalRxToBboUpdateNs = ''hl_market_local_rx_to_bbo_update''"
| "metric_name LighterMarketLocalRxToBboUpdateNs = ''lighter_market_local_rx_to_bbo_update''"
| "metric_name HlQuoteAgeMs = ''hl_quote_age''"
| "metric_name LighterQuoteAgeMs = ''lighter_quote_age''"
| "metric_name CrossVenueAlignmentMs = ''cross_venue_alignment''"
| "metric_name StrategyDecisionNs = ''strategy_decision''"
| "metric_name SignalToHlMakerSendNs = ''signal_to_hl_maker_send''"
| "metric_name HlMakerSendToAckNs = ''hl_maker_send_to_ack''"
| "metric_name HlMakerRestingLifetimeNs = ''hl_maker_resting_lifetime''"
| "metric_name CancelTriggerToHlCancelSendNs = ''cancel_trigger_to_hl_cancel_send''"
| "metric_name HlCancelSendToAckNs = ''hl_cancel_send_to_ack''"
| "metric_name HlFillLocalRxToLighterSendNs = ''hl_fill_local_rx_to_lighter_send''"
| "metric_name LighterNonceFetchNs = ''lighter_nonce_fetch''"
| "metric_name LighterSignOrderNs = ''lighter_sign_order''"
| "metric_name LighterSendTxAckNs = ''lighter_sendtx_ack''"
| "metric_name HlFillToLighterHttpAckTotalNs = ''hl_fill_to_lighter_http_ack_total''"
| "metric_name LighterSendToHttpAckNs = ''lighter_send_to_http_ack''"
| "metric_name LighterHttpAckToFillConfirmNs = ''lighter_http_ack_to_fill_confirm''"
| "metric_name LighterSendToAckNs = ''lighter_send_to_ack''"
| "metric_name MakerFillToTakerAckTotalNs = ''maker_fill_to_taker_ack_total''"
| "metric_name HedgeFailureToUnwindSendNs = ''hedge_failure_to_unwind_send''"
| "metric_name UnwindSendToAckNs = ''unwind_send_to_ack''"

definition unit_name :: "perf_metric \<Rightarrow> string" where
  "unit_name metric = (if metric = CrossVenueAlignmentMs then ''ms'' else ''ms'')"

definition metric_uses_raw_ms :: "perf_metric \<Rightarrow> bool" where
  "metric_uses_raw_ms metric \<longleftrightarrow> metric = HlQuoteAgeMs \<or> metric = LighterQuoteAgeMs
     \<or> metric = CrossVenueAlignmentMs"

section \<open>Messages\<close>

text \<open>
  Log lines are built by streaming text and numbers into an \<open>std::ostringstream\<close>.  A
  message is the sequence of streamed items (\<open>Fixed n x\<close> is \<open>x\<close> streamed with \<open>std::fixed\<close> and
  precision \<open>n\<close>); the decimal rendering of a number is left to
  the stream.
\<close>

datatype item = Txt string | Dbl double | Fixed nat double | U64 u64 | I64 i64

type_synonym message = "item list"

section \<open>The collector\<close>

record counter =
  ct_count :: u64
  ct_sum :: u64
  ct_max :: u64

record perf_collector =
  hot_path_seq :: u32          \<comment> \<open>the \<open>thread_local seq\<close> of the strategy thread\<close>
  hot_path_sample_rate :: u32
  counters :: "perf_metric \<Rightarrow> counter"

definition empty_counter :: counter where
  "empty_counter = \<lparr>ct_count = 0, ct_sum = 0, ct_max = 0\<rparr>"

definition empty_collector :: perf_collector where
  "empty_collector = \<lparr>hot_path_seq = 0, hot_path_sample_rate = 64,
     counters = (\<lambda>_. empty_counter)\<rparr>"

definition record_sample :: "perf_metric \<Rightarrow> u64 \<Rightarrow> perf_collector \<Rightarrow> perf_collector" where
  "record_sample metric value p =
     (let c = counters p metric;
          c = c\<lparr>ct_count := ct_count c + 1\<rparr>;
          c = c\<lparr>ct_sum := ct_sum c + value\<rparr>;
          c = (if ct_max c < value then c\<lparr>ct_max := value\<rparr> else c)
      in p\<lparr>counters := (counters p)(metric := c)\<rparr>)"

definition record_hot_path :: "perf_metric \<Rightarrow> u64 \<Rightarrow> perf_collector \<Rightarrow> perf_collector" where
  "record_hot_path metric value p =
     (let p = p\<lparr>hot_path_seq := hot_path_seq p + 1\<rparr> in
      if hot_path_seq p mod hot_path_sample_rate p \<noteq> 0 then p
      else record_sample metric value p)"

definition record_trade_path :: "perf_metric \<Rightarrow> u64 \<Rightarrow> perf_collector \<Rightarrow> perf_collector" where
  "record_trade_path metric value p = record_sample metric value p"

text \<open>
  Draining: every counter is exchanged with zero; a counter that has seen a sample yields a
  line with its mean and maximum, in milliseconds, and the nanosecond metrics are scaled.
\<close>

definition summary_line :: "perf_metric \<Rightarrow> counter \<Rightarrow> message" where
  "summary_line metric c =
     (let mean = dbl_of_u64 (ct_sum c) / dbl_of_u64 (ct_count c);
          kNsPerMs = D 1000000 in
      [Txt ''metric='', Txt (metric_name metric), Txt '' samples='', U64 (ct_count c),
       Txt '' mean='']
      @ (if metric_uses_raw_ms metric
         then [Fixed 3 mean, Txt '' max='', Fixed 3 (dbl_of_u64 (ct_max c))]
         else [Fixed 3 (mean / kNsPerMs), Txt '' max='', Fixed 3 (dbl_of_u64 (ct_max c) / kNsPerMs)])
      @ [Txt '' unit='', Txt (unit_name metric)]
      @ (if metric = HlMarketLocalRxToBboUpdateNs \<or> metric = LighterMarketLocalRxToBboUpdateNs
            \<or> metric = HlQuoteAgeMs \<or> metric = LighterQuoteAgeMs
            \<or> metric = CrossVenueAlignmentMs \<or> metric = StrategyDecisionNs
         then [Txt '' sampled=1''] else []))"

fun drain_metrics :: "perf_metric list \<Rightarrow> perf_collector \<Rightarrow> message list \<times> perf_collector" where
  "drain_metrics [] p = ([], p)"
| "drain_metrics (m # ms) p =
     (let c = counters p m;
          p = p\<lparr>counters := (counters p)(m := empty_counter)\<rparr>;
          (lines, p) = drain_metrics ms p
      in (if ct_count c = 0 then lines else summary_line m c # lines, p))"

definition drain_summary_lines :: "perf_collector \<Rightarrow> message list \<times> perf_collector" where
  "drain_summary_lines p = drain_metrics all_metrics p"

end
