(* ===== verification/Journal.thy ===== *)
theory Journal
  imports Perf
begin

text \<open>
  \<open>TradeJournal\<close> of \<open>include/arb/journal.hpp\<close>: the hot path pushes entries into a buffer,
  the telemetry path appends them to a CSV file.  The file is its list of lines, \<open>None\<close> when
  it does not exist; whether the stream opens is an argument of the operations that open it.
\<close>

section \<open>Entries\<close>

record journal_entry =
  je_trade_id :: i64
  je_timestamp_us :: i64
  je_type :: char
  je_hedge_status :: string
  je_hl_fill_timestamp_us :: i64
  je_lighter_fill_timestamp_us :: i64
  je_hl_side :: char
  je_hl_px :: double
  je_hl_sz :: double
  je_hl_fee :: double
  je_lt_fill_px :: double
  je_lt_sz :: double
  je_lt_fee :: double
  je_spread_bps :: double
  je_signal_spread_bps :: double
  je_maker_resting_ms :: double
  je_hedge_total_ms :: double
  je_hl_oid :: string
  je_lt_tx :: string
  je_unwind_fill_px :: double
  je_unwind_fill_sz :: double
  je_unwind_fee :: double
  je_failure_reason :: string

text \<open>Designated initialisers leave every other member at its initialiser, or zero.\<close>

definition default_journal_entry :: journal_entry where
  "default_journal_entry = \<lparr>je_trade_id = 0, je_timestamp_us = 0, je_type = CHR 0x00,
     je_hedge_status = [], je_hl_fill_timestamp_us = 0, je_lighter_fill_timestamp_us = 0,
     je_hl_side = CHR 0x00, je_hl_px = 0, je_hl_sz = 0, je_hl_fee = 0, je_lt_fill_px = 0,
     je_lt_sz = 0, je_lt_fee = 0, je_spread_bps = 0, je_signal_spread_bps = 0,
     je_maker_resting_ms = 0, je_hedge_total_ms = 0, je_hl_oid = [], je_lt_tx = [],
     je_unwind_fill_px = 0, je_unwind_fill_sz = 0, je_unwind_fee = 0, je_failure_reason = []\<rparr>"

section \<open>The journal\<close>

record trade_journal =
  jr_path :: string
  jr_buf :: "journal_entry list"

type_synonym csv_file = "message list option"

definition journal_header :: message where
  "journal_header =
     [Txt (''trade_id,timestamp_us,type,hedge_status,''
       @ ''hl_fill_timestamp_us,lighter_fill_timestamp_us,''
       @ ''hl_side,hl_fill_price,hl_fill_size,hl_fee,''
       @ ''lighter_fill_price,lighter_fill_size,lighter_fee,''
       @ ''spread_bps,signal_spread_bps,maker_resting_ms,hedge_total_ms,''
       @ ''hl_oid,lt_tx,''
       @ ''unwind_fill_price,unwind_fill_size,unwind_fee,failure_reason'')]"

definition journal_new :: "bool \<Rightarrow> string \<Rightarrow> csv_file \<Rightarrow> trade_journal \<times> csv_file" where
  "journal_new opens path f =
     (\<lparr>jr_path = path, jr_buf = []\<rparr>,
      if f = None \<or> f = Some [] then if opens then Some [journal_header] else f else f)"

definition journal_record :: "journal_entry \<Rightarrow> trade_journal \<Rightarrow> trade_journal" where
  "journal_record entry j = j\<lparr>jr_buf := jr_buf j @ [entry]\<rparr>"

definition journal_pending :: "trade_journal \<Rightarrow> nat" where
  "journal_pending j = length (jr_buf j)"

definition journal_fields :: "journal_entry \<Rightarrow> item list" where
  "journal_fields e =
     [I64 (je_trade_id e), I64 (je_timestamp_us e), Txt [je_type e], Txt (je_hedge_status e),
      I64 (je_hl_fill_timestamp_us e), I64 (je_lighter_fill_timestamp_us e), Txt [je_hl_side e],
      Fixed 6 (je_hl_px e), Fixed 6 (je_hl_sz e), Fixed 8 (je_hl_fee e),
      Fixed 6 (je_lt_fill_px e), Fixed 6 (je_lt_sz e), Fixed 8 (je_lt_fee e),
      Fixed 4 (je_spread_bps e), Fixed 4 (je_signal_spread_bps e),
      Fixed 3 (je_maker_resting_ms e), Fixed 3 (je_hedge_total_ms e),
      Txt (je_hl_oid e), Txt (je_lt_tx e),
      Fixed 6 (je_unwind_fill_px e), Fixed 6 (je_unwind_fill_sz e), Fixed 8 (je_unwind_fee e),
      Txt (je_failure_reason e)]"

fun comma_separated :: "item list \<Rightarrow> message" where
  "comma_separated [] = []"
| "comma_separated [x] = [x]"
| "comma_separated (x # xs) = x # Txt '','' # comma_separated xs"

definition journal_row :: "journal_entry \<Rightarrow> message" where
  "journal_row e = comma_separated (journal_fields e)"

definition journal_flush :: "bool \<Rightarrow> trade_journal \<times> csv_file \<Rightarrow> trade_journal \<times> csv_file" where
  "journal_flush opens jf =
     (case jf of (j, f) \<Rightarrow>
       if jr_buf j = [] then (j, f)
       else if \<not> opens then (j, f)
       else (j\<lparr>jr_buf := []\<rparr>,
             Some ((case f of None \<Rightarrow> [] | Some ls \<Rightarrow> ls) @ map journal_row (jr_buf j))))"

section \<open>Properties\<close>

datatype journal_event = Recorded journal_entry | Flushed bool

fun journal_step :: "journal_event \<Rightarrow> trade_journal \<times> csv_file \<Rightarrow> trade_journal \<times> csv_file" where
  "journal_step (Recorded e) (j, f) = (journal_record e j, f)"
| "journal_step (Flushed opens) jf = journal_flush opens jf"

text \<open>The journal's contents: the lines in the file, then the rows still in the buffer.\<close>

fun journal_contents :: "trade_journal \<times> csv_file \<Rightarrow> message list" where
  "journal_contents (j, f) = (case f of None \<Rightarrow> [] | Some ls \<Rightarrow> ls) @ map journal_row (jr_buf j)"

definition recorded_in :: "journal_event list \<Rightarrow> journal_entry list" where
  "recorded_in evs = concat (map (\<lambda>ev. case ev of Recorded e \<Rightarrow> [e] | Flushed _ \<Rightarrow> []) evs)"

lemma journal_flush_contents [simp]: "journal_contents (journal_flush opens jf) = journal_contents jf"
  by (cases jf) (auto simp: journal_flush_def split: option.splits)

lemma journal_step_contents:
  "journal_contents (journal_step ev jf) =
     journal_contents jf @ map journal_row (recorded_in [ev])"
  by (cases ev; cases jf) (simp_all add: journal_record_def recorded_in_def)

text \<open>No entry is lost, duplicated or reordered: after any records and flushes, of
  which any number may fail to open the file, the file followed by the buffer is what
  the journal held before followed by one row per recorded entry, in order; and a flush
  that opens the file leaves nothing in the buffer.\<close>

theorem journal_keeps_every_entry:
  "journal_contents (fold journal_step evs jf)
     = journal_contents jf @ map journal_row (recorded_in evs)
   \<and> journal_pending (fst (journal_flush True jf)) = 0"
proof -
  have "journal_contents (fold journal_step evs jf)
     = journal_contents jf @ map journal_row (recorded_in evs)"
  proof (induction evs arbitrary: jf)
    case Nil
    then show ?case by (simp add: recorded_in_def)
  next
    case (Cons ev evs)
    then show ?case by (simp add: journal_step_contents) (simp add: recorded_in_def)
  qed
  moreover have "journal_pending (fst (journal_flush True jf)) = 0"
    by (cases jf) (simp add: journal_flush_def journal_pending_def)
  ultimately show ?thesis by blast
qed

text \<open>The commas of a message whose text fields hold none themselves.\<close>

fun item_commas :: "item \<Rightarrow> nat" where
  "item_commas (Txt s) = length (filter (\<lambda>c. c = CHR '','') s)"
| "item_commas _ = 0"

definition commas :: "message \<Rightarrow> nat" where
  "commas m = sum_list (map item_commas m)"

text \<open>Every row has a value for each of the 23 columns of the header: as many commas as
  the header, plus the commas of its own text fields, which are written unquoted (so a failure
  reason with a comma in it shifts the columns).\<close>

theorem journal_row_fits_header:
  "commas (journal_row e) = commas journal_header
     + item_commas (Txt [je_type e]) + item_commas (Txt (je_hedge_status e))
     + item_commas (Txt [je_hl_side e]) + item_commas (Txt (je_hl_oid e))
     + item_commas (Txt (je_lt_tx e)) + item_commas (Txt (je_failure_reason e))"
proof -
  have "commas journal_header = 22" by (simp add: commas_def journal_header_def)
  moreover have "commas (journal_row e) = commas (journal_fields e) + 22"
    by (simp add: commas_def journal_row_def journal_fields_def)
  ultimately show ?thesis by (simp add: commas_def journal_fields_def)
qed

end
