(* ===== verification/Exchange.thy ===== *)
theory Exchange
  imports Journal
begin

text \<open>
  \<open>include/arb/exchange.hpp\<close>: the requests and acknowledgements of the two venue
  interfaces, and the world the engines act on through them.  \<open>HyperliquidExchange\<close> and
  \<open>LighterExchange\<close> are abstract classes, so what a call answers is an argument of the
  model (an \<open>env\<close>): a function of the request and of everything that happened before.
  The world keeps the trace of calls with their answers, the latency counters and the
  journal.  A call that throws ends the process (no caller of the engines catches), so
  the model is of the calls that return.
\<close>

section \<open>Requests and acknowledgements\<close>

record hl_limit_order_request =
  hlr_coin :: string
  hlr_is_buy :: bool
  hlr_price :: double
  hlr_size :: double
  hlr_post_only :: bool
  hlr_dry_run :: bool

record hl_limit_order_ack =
  hla_ok :: bool
  hla_message :: string
  hla_oid :: string
  hla_sign_latency_ms :: double
  hla_ws_send_call_latency_ms :: double
  hla_ws_send_to_response_rx_latency_ms :: double
  hla_response_rx_to_unblock_latency_ms :: double

record hl_ioc_order_request =
  hir_coin :: string
  hir_is_buy :: bool
  hir_price :: double
  hir_size :: double
  hir_dry_run :: bool

record hl_ioc_order_ack =
  hia_ok :: bool
  hia_message :: string
  hia_filled_size :: double
  hia_avg_fill_price :: double
  hia_sign_latency_ms :: double
  hia_ws_send_call_latency_ms :: double
  hia_ws_send_to_response_rx_latency_ms :: double
  hia_response_rx_to_unblock_latency_ms :: double

record hl_cancel_ack =
  hca_ok :: bool
  hca_message :: string
  hca_oid :: string

record hl_reduce_ack =
  hra_ok :: bool
  hra_message :: string
  hra_filled_size :: double
  hra_avg_fill_price :: double

record lighter_ioc_request =
  lir_is_ask :: bool
  lir_price :: double
  lir_size :: double
  lir_signal_price :: double
  lir_dry_run :: bool

record lighter_ioc_ack =
  lia_ok :: bool
  lia_fill_confirmed :: bool
  lia_message :: string
  lia_tx_hash :: string
  lia_confirmed_size :: double
  lia_fill_price :: double
  lia_fee :: double
  lia_nonce_fetch_latency_ms :: double
  lia_sign_order_latency_ms :: double
  lia_send_tx_ack_latency_ms :: double
  lia_place_to_http_ack_latency_ms :: double
  lia_http_ack_latency_ms :: double
  lia_fill_confirm_latency_ms :: double
  lia_confirm_attempts :: int

record lighter_limit_order_request =
  llr_is_ask :: bool
  llr_price :: double
  llr_size :: double
  llr_post_only :: bool
  llr_dry_run :: bool

record lighter_limit_order_ack =
  lla_ok :: bool
  lla_resting_confirmed :: bool
  lla_message :: string
  lla_tx_hash :: string
  lla_client_order_index :: i64
  lla_order_index :: i64
  lla_nonce_fetch_latency_ms :: double
  lla_sign_order_latency_ms :: double
  lla_send_tx_ack_latency_ms :: double
  lla_place_to_http_ack_latency_ms :: double
  lla_http_ack_latency_ms :: double

record lighter_cancel_ack =
  lca_ok :: bool
  lca_message :: string
  lca_tx_hash :: string
  lca_order_index :: i64
  lca_nonce_fetch_latency_ms :: double
  lca_sign_order_latency_ms :: double
  lca_send_tx_ack_latency_ms :: double
  lca_cancel_to_http_ack_latency_ms :: double

section \<open>The trace\<close>

datatype venue_event =
    HlBbo string bbo
  | LighterBbo i64 bbo
  | HlLimit hl_limit_order_request hl_limit_order_ack
  | HlIoc hl_ioc_order_request hl_ioc_order_ack
  | HlCancel string string bool hl_cancel_ack
  | HlReduce string bool double bool hl_reduce_ack
  | LighterLimit lighter_limit_order_request lighter_limit_order_ack
  | LighterCancel i64 bool lighter_cancel_ack
  | LighterIoc lighter_ioc_request lighter_ioc_ack
  | SteadyMs i64          \<comment> \<open>\<open>steady_clock\<close> in milliseconds\<close>
  | EpochMs u64           \<comment> \<open>\<open>system_clock\<close> in milliseconds\<close>
  | EpochUs i64           \<comment> \<open>\<open>system_clock\<close> in microseconds\<close>
  | PerfNs u64            \<comment> \<open>\<open>perf_now_ns\<close>\<close>

fun is_order :: "venue_event \<Rightarrow> bool" where
  "is_order (HlLimit _ _) = True"
| "is_order (HlIoc _ _) = True"
| "is_order (HlCancel _ _ _ _) = True"
| "is_order (HlReduce _ _ _ _ _) = True"
| "is_order (LighterLimit _ _) = True"
| "is_order (LighterCancel _ _ _) = True"
| "is_order (LighterIoc _ _) = True"
| "is_order _ = False"

section \<open>Environment and world\<close>

record env =
  env_hl_bbo :: "venue_event list \<Rightarrow> string \<Rightarrow> bbo"
  env_lighter_bbo :: "venue_event list \<Rightarrow> i64 \<Rightarrow> bbo"
  env_hl_limit :: "venue_event list \<Rightarrow> hl_limit_order_request \<Rightarrow> hl_limit_order_ack"
  env_hl_ioc :: "venue_event list \<Rightarrow> hl_ioc_order_request \<Rightarrow> hl_ioc_order_ack"
  env_hl_cancel :: "venue_event list \<Rightarrow> string \<Rightarrow> string \<Rightarrow> bool \<Rightarrow> hl_cancel_ack"
  env_hl_reduce :: "venue_event list \<Rightarrow> string \<Rightarrow> bool \<Rightarrow> double \<Rightarrow> bool \<Rightarrow> hl_reduce_ack"
  env_lighter_limit :: "venue_event list \<Rightarrow> lighter_limit_order_request \<Rightarrow> lighter_limit_order_ack"
  env_lighter_cancel :: "venue_event list \<Rightarrow> i64 \<Rightarrow> bool \<Rightarrow> lighter_cancel_ack"
  env_lighter_ioc :: "venue_event list \<Rightarrow> lighter_ioc_request \<Rightarrow> lighter_ioc_ack"
  env_steady_ms :: "venue_event list \<Rightarrow> i64"
  env_epoch_ms :: "venue_event list \<Rightarrow> u64"
  env_epoch_us :: "venue_event list \<Rightarrow> i64"
  env_perf_ns :: "venue_event list \<Rightarrow> u64"

record world =
  trace :: "venue_event list"          \<comment> \<open>oldest first\<close>
  perf :: perf_collector
  journal :: "trade_journal option"    \<comment> \<open>\<open>None\<close> is the null pointer\<close>

definition happened :: "venue_event \<Rightarrow> world \<Rightarrow> world" where
  "happened ev w = w\<lparr>trace := trace w @ [ev]\<rparr>"

definition hl_get_bbo :: "env \<Rightarrow> string \<Rightarrow> world \<Rightarrow> bbo \<times> world" where
  "hl_get_bbo E coin w = (let r = env_hl_bbo E (trace w) coin in (r, happened (HlBbo coin r) w))"

definition lighter_get_bbo :: "env \<Rightarrow> i64 \<Rightarrow> world \<Rightarrow> bbo \<times> world" where
  "lighter_get_bbo E market_id w =
     (let r = env_lighter_bbo E (trace w) market_id in (r, happened (LighterBbo market_id r) w))"

definition hl_place_limit :: "env \<Rightarrow> hl_limit_order_request \<Rightarrow> world \<Rightarrow> hl_limit_order_ack \<times> world" where
  "hl_place_limit E req w = (let r = env_hl_limit E (trace w) req in (r, happened (HlLimit req r) w))"

definition hl_place_ioc :: "env \<Rightarrow> hl_ioc_order_request \<Rightarrow> world \<Rightarrow> hl_ioc_order_ack \<times> world" where
  "hl_place_ioc E req w = (let r = env_hl_ioc E (trace w) req in (r, happened (HlIoc req r) w))"

definition hl_cancel :: "env \<Rightarrow> string \<Rightarrow> string \<Rightarrow> bool \<Rightarrow> world \<Rightarrow> hl_cancel_ack \<times> world" where
  "hl_cancel E coin oid dry w =
     (let r = env_hl_cancel E (trace w) coin oid dry in (r, happened (HlCancel coin oid dry r) w))"

definition hl_reduce :: "env \<Rightarrow> string \<Rightarrow> bool \<Rightarrow> double \<Rightarrow> bool \<Rightarrow> world \<Rightarrow> hl_reduce_ack \<times> world" where
  "hl_reduce E coin is_buy size_base dry w =
     (let r = env_hl_reduce E (trace w) coin is_buy size_base dry
      in (r, happened (HlReduce coin is_buy size_base dry r) w))"

definition lighter_place_limit ::
  "env \<Rightarrow> lighter_limit_order_request \<Rightarrow> world \<Rightarrow> lighter_limit_order_ack \<times> world" where
  "lighter_place_limit E req w =
     (let r = env_lighter_limit E (trace w) req in (r, happened (LighterLimit req r) w))"

definition lighter_cancel :: "env \<Rightarrow> i64 \<Rightarrow> bool \<Rightarrow> world \<Rightarrow> lighter_cancel_ack \<times> world" where
  "lighter_cancel E order_index dry w =
     (let r = env_lighter_cancel E (trace w) order_index dry
      in (r, happened (LighterCancel order_index dry r) w))"

definition lighter_place_ioc :: "env \<Rightarrow> lighter_ioc_request \<Rightarrow> world \<Rightarrow> lighter_ioc_ack \<times> world" where
  "lighter_place_ioc E req w =
     (let r = env_lighter_ioc E (trace w) req in (r, happened (LighterIoc req r) w))"

definition steady_now_ms :: "env \<Rightarrow> world \<Rightarrow> i64 \<times> world" where
  "steady_now_ms E w = (let r = env_steady_ms E (trace w) in (r, happened (SteadyMs r) w))"

definition epoch_now_ms :: "env \<Rightarrow> world \<Rightarrow> u64 \<times> world" where
  "epoch_now_ms E w = (let r = env_epoch_ms E (trace w) in (r, happened (EpochMs r) w))"

definition epoch_now_us :: "env \<Rightarrow> world \<Rightarrow> i64 \<times> world" where
  "epoch_now_us E w = (let r = env_epoch_us E (trace w) in (r, happened (EpochUs r) w))"

definition perf_now_ns :: "env \<Rightarrow> world \<Rightarrow> u64 \<times> world" where
  "perf_now_ns E w = (let r = env_perf_ns E (trace w) in (r, happened (PerfNs r) w))"

text \<open>The collector and the journal as the engines reach them.\<close>

definition trade_path :: "perf_metric \<Rightarrow> u64 \<Rightarrow> world \<Rightarrow> world" where
  "trade_path m v w = w\<lparr>perf := record_trade_path m v (perf w)\<rparr>"

definition hot_path :: "perf_metric \<Rightarrow> u64 \<Rightarrow> world \<Rightarrow> world" where
  "hot_path m v w = w\<lparr>perf := record_hot_path m v (perf w)\<rparr>"

section \<open>What each call does to the trace\<close>

lemma trace_happened [simp]: "trace (happened ev w) = trace w @ [ev]"
  by (simp add: happened_def)

lemma journal_happened [simp]: "journal (happened ev w) = journal w"
  by (simp add: happened_def)

lemma trace_perf [simp]:
  "trace (trade_path m v w) = trace w" "trace (hot_path m v w) = trace w"
  "journal (trade_path m v w) = journal w" "journal (hot_path m v w) = journal w"
  by (simp_all add: trade_path_def hot_path_def)

lemmas world_calls [world_simps] =
  hl_get_bbo_def lighter_get_bbo_def hl_place_limit_def hl_place_ioc_def hl_cancel_def
  hl_reduce_def lighter_place_limit_def lighter_cancel_def lighter_place_ioc_def
  steady_now_ms_def epoch_now_ms_def epoch_now_us_def perf_now_ns_def

definition orders_of :: "venue_event list \<Rightarrow> venue_event list" where
  "orders_of tr = filter is_order tr"

lemma orders_of_simps [simp]:
  "orders_of [] = []" "orders_of (ev # tr) = (if is_order ev then ev # orders_of tr else orders_of tr)"
  "orders_of (tr @ tr') = orders_of tr @ orders_of tr'"
  by (simp_all add: orders_of_def)

end
