(* ===== verification/Limiter.thy ===== *)
theory Limiter
  imports Exchange
begin

text \<open>
  The rate limiters of the two engines, stated once.  Each engine bounds its placements and
  its cancels separately: an action is sent only when the steady clock is at least the
  interval past the last one sent, otherwise it is deferred.  The locale is that contract;
  the engines interpret it on their own step functions.
\<close>

section \<open>Instants of orders\<close>

text \<open>
  The instants of the rate limiters: for every maker order (or cancel) of the trace, the
  last reading of the steady clock before it.
\<close>

fun stamps :: "(venue_event \<Rightarrow> bool) \<Rightarrow> i64 option \<Rightarrow> venue_event list \<Rightarrow> i64 option list" where
  "stamps P now [] = []"
| "stamps P now (SteadyMs t # tr) = stamps P (Some t) tr"
| "stamps P now (ev # tr) = (if P ev then now # stamps P now tr else stamps P now tr)"


fun last_steady :: "i64 option \<Rightarrow> venue_event list \<Rightarrow> i64 option" where
  "last_steady now [] = now"
| "last_steady now (SteadyMs t # tr) = last_steady (Some t) tr"
| "last_steady now (ev # tr) = last_steady now tr"

lemma stamps_append:
  "stamps P now (tr @ tr') = stamps P now tr @ stamps P (last_steady now tr) tr'"
proof (induction tr arbitrary: now)
  case (Cons ev tr)
  then show ?case by (cases ev) simp_all
qed simp

lemma stamps_none: "(\<forall>ev \<in> set tr. \<not> P ev) \<Longrightarrow> stamps P now tr = []"
proof (induction tr arbitrary: now)
  case (Cons ev tr)
  then show ?case by (cases ev) simp_all
qed simp

text \<open>Consecutive instants are at least the interval apart.\<close>

fun spaced :: "i64 \<Rightarrow> i64 list \<Rightarrow> bool" where
  "spaced d [] = True"
| "spaced d [t] = True"
| "spaced d (t # u # ts) = (d \<le> u - t \<and> spaced d (u # ts))"

lemma spaced_snoc: "spaced d (ts @ [t]) \<longleftrightarrow> spaced d ts \<and> (ts = [] \<or> d \<le> t - last ts)"
  by (induction d ts rule: spaced.induct) auto

section \<open>The contract\<close>

text \<open>
  A step of a limited engine sends nothing of the kind, or one at the instant it keeps as the
  last; the kept instant only moves by at least the interval (also when the engine finds
  nothing to cancel after the limiter has let it through).
\<close>

definition quiet_step :: "(venue_event \<Rightarrow> bool) \<Rightarrow> world \<Rightarrow> world \<Rightarrow> bool" where
  "quiet_step P w w' \<longleftrightarrow> (\<exists>tr. trace w' = trace w @ tr \<and> (\<forall>ev \<in> set tr. \<not> P ev))"

definition timed_step :: "(venue_event \<Rightarrow> bool) \<Rightarrow> i64 \<Rightarrow> world \<Rightarrow> world \<Rightarrow> bool" where
  "timed_step P t w w' \<longleftrightarrow> (\<exists>tr. trace w' = trace w @ tr \<and> (\<forall>now. stamps P now tr = [Some t]))"

lemma quiet_append:
  "trace w' = trace w @ tr \<Longrightarrow> quiet_step P w w' \<longleftrightarrow> (\<forall>ev \<in> set tr. \<not> P ev)"
  by (auto simp: quiet_step_def)

lemma timed_append:
  "trace w' = trace w @ tr \<Longrightarrow> timed_step P t w w' \<longleftrightarrow> (\<forall>now. stamps P now tr = [Some t])"
  by (auto simp: timed_step_def)

text \<open>A quiet prefix changes nothing.\<close>

lemma quiet_prefix:
  assumes "trace w1 = trace w @ tr" and "\<forall>ev \<in> set tr. \<not> P ev"
  shows "quiet_step P w1 w' \<Longrightarrow> quiet_step P w w'" and "timed_step P t w1 w' \<Longrightarrow> timed_step P t w w'"
proof -
  show "quiet_step P w1 w' \<Longrightarrow> quiet_step P w w'"
    using assms by (fastforce simp: quiet_step_def)
  assume "timed_step P t w1 w'"
  then obtain tr' where "trace w' = trace w @ tr @ tr'" "\<forall>now. stamps P now tr' = [Some t]"
    using assms(1) by (auto simp: timed_step_def)
  then show "timed_step P t w w'"
    using assms(2) by (auto simp: timed_step_def stamps_append stamps_none intro!: exI [of _ "tr @ tr'"])
qed

locale rate_limited =
  fixes step :: "'ev \<Rightarrow> 's \<Rightarrow> world \<Rightarrow> message list \<times> 's \<times> world"
    and inv :: "'s \<Rightarrow> bool"
    and last_sent :: "'s \<Rightarrow> i64"
    and interval :: "'s \<Rightarrow> i64"
    and kind :: "venue_event \<Rightarrow> bool"
  assumes step_inv: "inv s \<Longrightarrow> step ev s w = (logs, s', w') \<Longrightarrow> inv s' \<and> interval s' = interval s"
    and step_limited: "inv s \<Longrightarrow> step ev s w = (logs, s', w') \<Longrightarrow>
      quiet_step kind w w' \<and> (last_sent s' = last_sent s \<or> interval s \<le> last_sent s' - last_sent s)
      \<or> timed_step kind (last_sent s') w w' \<and> interval s \<le> last_sent s' - last_sent s"
begin

fun run :: "'ev list \<Rightarrow> 's \<Rightarrow> world \<Rightarrow> 's \<times> world" where
  "run [] s w = (s, w)"
| "run (ev # evs) s w = (let (logs, s, w) = step ev s w in run evs s w)"

definition in_step :: "'s \<Rightarrow> world \<Rightarrow> bool" where
  "in_step s w \<longleftrightarrow> (\<exists>ts. stamps kind None (trace w) = map Some ts \<and> spaced (interval s) ts
     \<and> (ts = [] \<or> last ts \<le> last_sent s))"

lemma in_step_step:
  assumes "inv s" and "step ev s w = (logs, s', w')" and "in_step s w" and "0 \<le> interval s"
  shows "in_step s' w'"
proof -
  from assms(3) obtain ts where ts: "stamps kind None (trace w) = map Some ts"
    "spaced (interval s) ts" "ts = [] \<or> last ts \<le> last_sent s" by (auto simp: in_step_def)
  have i: "interval s' = interval s" using step_inv [OF assms(1,2)] by simp
  from step_limited [OF assms(1,2)] show ?thesis
  proof
    assume q: "quiet_step kind w w' \<and> (last_sent s' = last_sent s \<or> interval s \<le> last_sent s' - last_sent s)"
    then have "ts = [] \<or> last ts \<le> last_sent s'" using ts(3) assms(4) by auto
    with q show ?thesis
      using ts(1,2) i by (auto simp: in_step_def quiet_step_def stamps_append stamps_none)
  next
    assume t: "timed_step kind (last_sent s') w w' \<and> interval s \<le> last_sent s' - last_sent s"
    then have "stamps kind None (trace w') = map Some (ts @ [last_sent s'])"
      using ts(1) by (auto simp: timed_step_def stamps_append)
    moreover have "spaced (interval s') (ts @ [last_sent s'])"
      using t ts(2,3) i by (auto simp: spaced_snoc)
    ultimately show ?thesis unfolding in_step_def by (metis last_snoc order_refl)
  qed
qed

text \<open>Over any run the orders of the kind are sent at least the interval apart.\<close>

lemma run_in_step: "inv s \<Longrightarrow> 0 \<le> interval s \<Longrightarrow> in_step s w \<Longrightarrow> run evs s w = (s', w') \<Longrightarrow> in_step s' w' \<and> interval s' = interval s"
proof (induction evs arbitrary: s w)
  case (Cons ev evs)
  obtain logs s1 w1 where st: "step ev s w = (logs, s1, w1)" by (rule prod_cases3)
  with Cons.prems have "run evs s1 w1 = (s', w')" by simp
  with Cons.IH [of s1 w1] in_step_step [OF Cons.prems(1) st Cons.prems(3,2)] step_inv [OF Cons.prems(1) st] Cons.prems(2)
  show ?case by simp
qed simp

lemma run_spaced:
  assumes "inv s" and "0 \<le> interval s" and "stamps kind None (trace w) = []" and "run evs s w = (s', w')"
  shows "\<exists>ts. stamps kind None (trace w') = map Some ts \<and> spaced (interval s) ts"
proof -
  have "in_step s w" using assms(3) by (auto simp: in_step_def intro: exI [of _ "[]"])
  with run_in_step [OF assms(1,2) _ assms(4)] show ?thesis by (auto simp: in_step_def)
qed

end

end
