(* ===== verification/Engine_Hl.thy ===== *)
theory Engine_Hl
  imports Strategy_Hl Limiter
begin

text \<open>
  \<open>MakerHedgeEngine\<close> of \<open>include/arb/engine.hpp\<close> and \<open>src/engine.cpp\<close>: drives the
  Hyperliquid-maker hedger against the two venues.  The engine's members are one record;
  every method takes the engine and the world and returns its log lines, the engine and
  the world updated.  The function-local \<open>static int skip_count\<close> is a field.
\<close>

section \<open>State\<close>

record engine_config =
  ec_strategy :: strategy_config
  hl_coin :: string
  lighter_market_id :: i64
  dry_run :: bool
  hl_order_interval_ms :: i64
  lighter_order_interval_ms :: i64
  spec_hedge_min_cross_bps :: double
  spec_hedge_min_trade_ratio :: double

definition default_engine_config :: engine_config where
  "default_engine_config = \<lparr>ec_strategy = default_strategy_config, hl_coin = ''HYPE'',
     lighter_market_id = 24, dry_run = True, hl_order_interval_ms = 200,
     lighter_order_interval_ms = 500, spec_hedge_min_cross_bps = D 1,
     spec_hedge_min_trade_ratio = D (1 / 2)\<rparr>"

record order_perf_trace =
  pt_oid :: string
  pt_signal_ns :: u64
  pt_hl_send_ns :: u64
  pt_hl_ack_ns :: u64
  pt_hl_sign_order_ms :: double
  pt_hl_ws_send_call_ms :: double
  pt_hl_ws_send_to_response_rx_ms :: double
  pt_hl_response_rx_to_unblock_ms :: double
  pt_cancel_trigger_ns :: u64
  pt_cancel_send_ns :: u64
  pt_hl_fill_rx_ns :: u64
  pt_lighter_send_ns :: u64
  pt_lighter_ack_ns :: u64

definition empty_perf_trace :: order_perf_trace where
  "empty_perf_trace = \<lparr>pt_oid = [], pt_signal_ns = 0, pt_hl_send_ns = 0, pt_hl_ack_ns = 0,
     pt_hl_sign_order_ms = 0, pt_hl_ws_send_call_ms = 0, pt_hl_ws_send_to_response_rx_ms = 0,
     pt_hl_response_rx_to_unblock_ms = 0, pt_cancel_trigger_ns = 0, pt_cancel_send_ns = 0,
     pt_hl_fill_rx_ns = 0, pt_lighter_send_ns = 0, pt_lighter_ack_ns = 0\<rparr>"

record engine =
  en_config :: engine_config
  strategy :: hedger
  active_hl_oid :: "string option"
  recently_placed_oids :: "string set"
  last_maker_direction :: direction
  hl_position_base :: double
  perf_trace :: order_perf_trace
  speculative_hedge_sent :: bool
  speculative_hedge_size :: double
  speculative_hedge_oid :: string
  maker_order_placed_epoch_ms :: u64
  last_hl_place_ms :: i64
  last_hl_cancel_ms :: i64
  last_lighter_api_ms :: i64
  deferred_hl_action :: "action option"
  next_retry_steady_ms :: "i64 option"
  skip_count :: int

type_synonym 's logged = "message list \<times> 's \<times> world"

definition engine_new :: "engine_config \<Rightarrow> string + engine" where
  "engine_new c = (case hl_hedger_new (ec_strategy c) of
     Inl err \<Rightarrow> Inl err
   | Inr h \<Rightarrow> Inr \<lparr>en_config = c, strategy = h, active_hl_oid = None,
       recently_placed_oids = {}, last_maker_direction = ShortLighterLongHl,
       hl_position_base = 0, perf_trace = empty_perf_trace, speculative_hedge_sent = False,
       speculative_hedge_size = 0, speculative_hedge_oid = [],
       maker_order_placed_epoch_ms = 0, last_hl_place_ms = 0, last_hl_cancel_ms = 0,
       last_lighter_api_ms = 0, deferred_hl_action = None, next_retry_steady_ms = None,
       skip_count = 0\<rparr>)"

section \<open>Arithmetic helpers\<close>

text \<open>\<open>static_cast<double>(ns) / 1000000.0\<close>, alone and guarded by \<open>a > b\<close>.\<close>

definition ms_of_ns :: "u64 \<Rightarrow> double" where
  "ms_of_ns ns = dbl_of_u64 ns / D 1000000"

definition gap_ms :: "u64 \<Rightarrow> u64 \<Rightarrow> double" where
  "gap_ms a b = (if b < a then ms_of_ns (a - b) else 0)"

text \<open>\<open>std::llround\<close>; out of range (and on NaN) x86-64 answers the least \<open>long long\<close>.\<close>

fun llround :: "double \<Rightarrow> i64" where
  "llround (Fin r) =
     (let n = (if 0 \<le> r then \<lfloor>r + 1 / 2\<rfloor> else - \<lfloor>1 / 2 - r\<rfloor>) in
      if - (2 ^ 63) \<le> n \<and> n < 2 ^ 63 then n else - (2 ^ 63))"
| "llround _ = - (2 ^ 63)"

text \<open>A marketable Lighter price, \<open>bps\<close> through the mid: below it to sell, above it to buy.\<close>

definition slipped :: "bool \<Rightarrow> double \<Rightarrow> double \<Rightarrow> double" where
  "slipped is_ask lighter_mid bps =
     (if is_ask then lighter_mid * (D 1 - bps / D 10000) else lighter_mid * (D 1 + bps / D 10000))"

section \<open>Snapshots and limits\<close>

definition collect_snapshot :: "env \<Rightarrow> engine_config \<Rightarrow> world \<Rightarrow> spread_snapshot \<times> world" where
  "collect_snapshot E c w =
     (let (hl_bbo, w) = hl_get_bbo E (hl_coin c) w;
          (lighter_bbo, w) = lighter_get_bbo E (lighter_market_id c) w;
          hl_mid = mid hl_bbo;
          lighter_mid = mid lighter_bbo;
          avg_mid = (hl_mid + lighter_mid) / D 2;
          spread = (if 0 < avg_mid then ((lighter_mid - hl_mid) / avg_mid) * D 10000 else 0)
      in (\<lparr>lighter = lighter_bbo, hl = hl_bbo, cross_spread_bps = spread\<rparr>, w))"

definition position_limit_reached :: "engine \<Rightarrow> double \<Rightarrow> bool" where
  "position_limit_reached e mid_price =
     (if mid_price \<le> 0 then False
      else max_position_usd (ec_strategy (en_config e)) \<le> \<bar>hl_position_base e\<bar> * mid_price)"

definition would_increase :: "engine \<Rightarrow> bool \<Rightarrow> bool" where
  "would_increase e would_buy_hl \<longleftrightarrow>
     (0 \<le> hl_position_base e \<and> would_buy_hl) \<or> (hl_position_base e < 0 \<and> \<not> would_buy_hl)"

definition hl_place_retry_at_ms :: "engine \<Rightarrow> i64 \<Rightarrow> i64 option" where
  "hl_place_retry_at_ms e now_ms =
     (let elapsed = now_ms - last_hl_place_ms e in
      if hl_order_interval_ms (en_config e) \<le> elapsed then None
      else Some (last_hl_place_ms e + hl_order_interval_ms (en_config e)))"

definition hl_cancel_retry_at_ms :: "engine \<Rightarrow> i64 \<Rightarrow> i64 option" where
  "hl_cancel_retry_at_ms e now_ms =
     (let elapsed = now_ms - last_hl_cancel_ms e in
      if hl_order_interval_ms (en_config e) \<le> elapsed then None
      else Some (last_hl_cancel_ms e + hl_order_interval_ms (en_config e)))"

definition clear_speculative :: "engine \<Rightarrow> engine" where
  "clear_speculative e = e\<lparr>speculative_hedge_sent := False, speculative_hedge_size := 0,
     speculative_hedge_oid := []\<rparr>"

text \<open>The three statements that end a trade: \<open>strategy_.reset\<close>, forget the order, a fresh trace.\<close>

definition end_trade :: "engine \<Rightarrow> engine" where
  "end_trade e = e\<lparr>active_hl_oid := None, strategy := hl_reset (strategy e),
     perf_trace := empty_perf_trace\<rparr>"

definition add_position :: "double \<Rightarrow> engine \<Rightarrow> engine" where
  "add_position fill_size_base e =
     (let hl_is_buy = (last_maker_direction e = ShortLighterLongHl) in
      e\<lparr>hl_position_base := hl_position_base e +
          (if hl_is_buy then fill_size_base else - fill_size_base)\<rparr>)"

section \<open>Executing an action\<close>

text \<open>\<open>PlaceHlMaker\<close>: the position limit, the rate limiter, then the order itself.\<close>

definition send_hl_maker :: "env \<Rightarrow> action \<Rightarrow> engine \<Rightarrow> world \<Rightarrow> engine logged" where
  "send_hl_maker E action e w =
     (let order = the (act_maker_order action);
          (hl_send_ns, w) = perf_now_ns E w;
          e = e\<lparr>perf_trace := (perf_trace e)\<lparr>pt_hl_send_ns := hl_send_ns\<rparr>\<rparr>;
          w = (if 0 < pt_signal_ns (perf_trace e) \<and> pt_signal_ns (perf_trace e) \<le> hl_send_ns
               then trade_path SignalToHlMakerSendNs (hl_send_ns - pt_signal_ns (perf_trace e)) w
               else w);
          (ack, w) = hl_place_limit E \<lparr>hlr_coin = hl_coin (en_config e),
             hlr_is_buy = po_is_buy order, hlr_price = po_price order,
             hlr_size = po_size_base order, hlr_post_only = True,
             hlr_dry_run = dry_run (en_config e)\<rparr> w;
          (hl_ack_ns, w) = perf_now_ns E w;
          e = e\<lparr>perf_trace := (perf_trace e)\<lparr>pt_hl_ack_ns := hl_ack_ns,
             pt_hl_sign_order_ms := hla_sign_latency_ms ack,
             pt_hl_ws_send_call_ms := hla_ws_send_call_latency_ms ack,
             pt_hl_ws_send_to_response_rx_ms := hla_ws_send_to_response_rx_latency_ms ack,
             pt_hl_response_rx_to_unblock_ms := hla_response_rx_to_unblock_latency_ms ack\<rparr>\<rparr>;
          w = trade_path HlMakerSendToAckNs (hl_ack_ns - hl_send_ns) w
      in if hla_ok ack then
           (let e = e\<lparr>active_hl_oid := Some (hla_oid ack)\<rparr>;
                e = e\<lparr>recently_placed_oids := {}\<rparr>;
                e = e\<lparr>recently_placed_oids := insert (hla_oid ack) (recently_placed_oids e)\<rparr>;
                e = e\<lparr>perf_trace := (perf_trace e)\<lparr>pt_oid := hla_oid ack\<rparr>\<rparr>;
                e = e\<lparr>last_maker_direction := po_direction order\<rparr>;
                (epoch_ms, w) = epoch_now_ms E w;
                e = e\<lparr>maker_order_placed_epoch_ms := epoch_ms\<rparr>;
                e = clear_speculative e
            in ([[Txt ''placed hl maker oid='', Txt (hla_oid ack)]], e, w))
         else ([[Txt ''hl maker placement failed: '', Txt (hla_message ack)]], e, w))"

definition exec_place_hl_maker ::
  "env \<Rightarrow> action \<Rightarrow> spread_snapshot \<Rightarrow> engine \<Rightarrow> world \<Rightarrow> engine logged" where
  "exec_place_hl_maker E action snapshot e w =
     (let blocked = (case act_maker_order action of
            None \<Rightarrow> False
          | Some order \<Rightarrow>
              (let hl_mid = mid (hl snapshot) in
               0 < hl_mid
               \<and> (let pos_usd = \<bar>hl_position_base e\<bar> * hl_mid in
                  max_position_usd (ec_strategy (en_config e)) \<le> pos_usd
                  \<and> would_increase e (po_is_buy order))))
      in if blocked then ([], e\<lparr>strategy := hl_reset (strategy e)\<rparr>, w)
         else
           (let (now, w) = steady_now_ms E w in
            case hl_place_retry_at_ms e now of
              Some retry_at \<Rightarrow>
                ([], e\<lparr>deferred_hl_action := Some action, next_retry_steady_ms := Some retry_at\<rparr>, w)
            | None \<Rightarrow>
                send_hl_maker E action
                  (e\<lparr>last_hl_place_ms := now, next_retry_steady_ms := None,
                     deferred_hl_action := None\<rparr>) w))"

text \<open>\<open>CancelHlMaker\<close>: a successful cancel unwinds a speculative hedge and ends the order.\<close>

definition unwind_speculative :: "env \<Rightarrow> spread_snapshot \<Rightarrow> engine \<Rightarrow> world \<Rightarrow> message list \<times> world" where
  "unwind_speculative E snapshot e w =
     (if \<not> speculative_hedge_sent e then ([], w)
      else
        (let spec_was_ask = (last_maker_direction e = ShortLighterLongHl);
             lighter_mid = mid (lighter snapshot);
             unwind_price = slipped (\<not> spec_was_ask) lighter_mid (D 15);
             (unwind_ack, w) = lighter_place_ioc E \<lparr>lir_is_ask = \<not> spec_was_ask,
                lir_price = unwind_price, lir_size = speculative_hedge_size e,
                lir_signal_price = lighter_mid, lir_dry_run = dry_run (en_config e)\<rparr> w
         in ([[Txt ''SPECULATIVE HEDGE UNWIND (HL cancelled): sz='',
               Dbl (speculative_hedge_size e), Txt '' ''] @
              (if lia_ok unwind_ack then [Txt ''SUCCESS'']
               else [Txt ''FAILED: '', Txt (lia_message unwind_ack)])], w)))"

definition send_hl_cancel ::
  "env \<Rightarrow> spread_snapshot \<Rightarrow> string \<Rightarrow> engine \<Rightarrow> world \<Rightarrow> engine logged" where
  "send_hl_cancel E snapshot oid e w =
     (let (cancel_send_ns, w) = perf_now_ns E w;
          e = e\<lparr>perf_trace := (perf_trace e)\<lparr>pt_cancel_send_ns := cancel_send_ns\<rparr>\<rparr>;
          w = (if 0 < pt_cancel_trigger_ns (perf_trace e)
                  \<and> pt_cancel_trigger_ns (perf_trace e) \<le> cancel_send_ns
               then trade_path CancelTriggerToHlCancelSendNs
                      (cancel_send_ns - pt_cancel_trigger_ns (perf_trace e)) w
               else w);
          (ack, w) = hl_cancel E (hl_coin (en_config e)) oid (dry_run (en_config e)) w;
          (cancel_ack_ns, w) = perf_now_ns E w;
          w = trade_path HlCancelSendToAckNs (cancel_ack_ns - cancel_send_ns) w;
          events = [if hca_ok ack then [Txt ''cancelled hl maker oid='', Txt (hca_oid ack)]
                    else [Txt ''hl cancel failed: '', Txt (hca_message ack)]];
          events = events @
            [[Txt ''perf cancel oid='', Txt oid,
              Txt '' cancel_trigger_to_send_ms='',
              Dbl (gap_ms cancel_send_ns (pt_cancel_trigger_ns (perf_trace e))),
              Txt '' cancel_send_to_ack_ms='', Dbl (ms_of_ns (cancel_ack_ns - cancel_send_ns)),
              Txt '' hl_resting_ms='', Dbl (gap_ms cancel_send_ns (pt_hl_ack_ns (perf_trace e)))]]
      in if hca_ok ack then
           (let (unwind, w) = unwind_speculative E snapshot e w;
                e = clear_speculative e;
                e = e\<lparr>active_hl_oid := None\<rparr>;
                e = e\<lparr>strategy := hl_reset (strategy e)\<rparr>
            in (events @ unwind, e, w))
         else (events @ [[Txt ''cancel failed, keeping OID active for fill reconciliation'']], e, w))"

definition exec_cancel_hl_maker ::
  "env \<Rightarrow> action \<Rightarrow> spread_snapshot \<Rightarrow> engine \<Rightarrow> world \<Rightarrow> engine logged" where
  "exec_cancel_hl_maker E action snapshot e w =
     (let (now, w) = steady_now_ms E w in
      case hl_cancel_retry_at_ms e now of
        Some retry_at \<Rightarrow>
          ([], e\<lparr>deferred_hl_action := Some action, next_retry_steady_ms := Some retry_at\<rparr>, w)
      | None \<Rightarrow>
          (let e = e\<lparr>last_hl_cancel_ms := now, next_retry_steady_ms := None,
                     deferred_hl_action := None\<rparr> in
           case active_hl_oid e of
             None \<Rightarrow> ([[Txt ''cancel requested with no active oid'']], e, w)
           | Some oid \<Rightarrow> send_hl_cancel E snapshot oid e w))"

text \<open>\<open>UnwindHlPosition\<close>: closes the Hyperliquid side of the hedger's open position.\<close>

definition exec_unwind_hl :: "env \<Rightarrow> engine \<Rightarrow> world \<Rightarrow> engine logged" where
  "exec_unwind_hl E e w =
     (let is_buy = (case open_position (strategy e) of
            None \<Rightarrow> False | Some pos \<Rightarrow> oh_direction pos = LongLighterShortHl);
          size_base = (case open_position (strategy e) of None \<Rightarrow> 0 | Some pos \<Rightarrow> oh_size_base pos);
          (ack, w) = hl_reduce E (hl_coin (en_config e)) is_buy size_base (dry_run (en_config e)) w
      in ([if hra_ok ack then [Txt ''unwound naked hl position'']
           else [Txt ''hl unwind failed: '', Txt (hra_message ack)]], e, w))"

text \<open>
  \<open>SendLighterTakerHedge\<close>: the hedge, and on failure the hedger's rejection action, which
  is executed in turn.  A rejection never asks for another hedge, so the recursion is one
  level deep; that is the termination argument.
\<close>

definition send_taker_hedge :: "env \<Rightarrow> action \<Rightarrow> engine \<Rightarrow> world \<Rightarrow> lighter_ioc_ack \<times> engine \<times> world" where
  "send_taker_hedge E action e w =
     (let hedge = the (act_hedge_intent action);
          (now, w) = steady_now_ms E w;
          e = e\<lparr>last_lighter_api_ms := now\<rparr>;
          (ack, w) = lighter_place_ioc E \<lparr>lir_is_ask = hi_is_ask hedge,
             lir_price = hi_limit_price hedge, lir_size = hi_size_base hedge,
             lir_signal_price = hi_limit_price hedge, lir_dry_run = dry_run (en_config e)\<rparr> w
      in (ack, e, w))"

lemma reject_action_type:
  "act_type (fst (on_lighter_hedge_reject h)) \<in> {NoAction, UnwindHlPosition}"
  by (simp add: on_lighter_hedge_reject_def split: option.split)

function execute_action ::
  "env \<Rightarrow> action \<Rightarrow> spread_snapshot \<Rightarrow> engine \<Rightarrow> world \<Rightarrow> engine logged" where
  "execute_action E action snapshot e w =
     (if act_type action = PlaceHlMaker then exec_place_hl_maker E action snapshot e w
      else if act_type action = CancelHlMaker then exec_cancel_hl_maker E action snapshot e w
      else if act_type action = SendLighterTakerHedge then
        (let (ack, e, w) = send_taker_hedge E action e w in
         if lia_ok ack \<and> lia_fill_confirmed ack then
           (let e = e\<lparr>strategy := on_lighter_hedge_fill
                      (hi_limit_price (the (act_hedge_intent action))) (strategy e)\<rparr>;
                pos = open_position (strategy e);
                msg = [Txt ''TRADE COMPLETE: lighter hedge CONFIRMED tx='', Txt (lia_tx_hash ack),
                  Txt '' confirmed_sz='', Dbl (lia_confirmed_size ack),
                  Txt '' hl_px='', Dbl (case pos of None \<Rightarrow> 0 | Some p \<Rightarrow> oh_hl_fill_price p),
                  Txt '' lt_px='', Dbl (case pos of None \<Rightarrow> 0 | Some p \<Rightarrow> oh_lighter_fill_price p),
                  Txt '' spread='', Dbl (cross_spread_bps snapshot)]
            in ([msg], e\<lparr>strategy := hl_reset (strategy e)\<rparr>, w))
         else
           (let reject = fst (on_lighter_hedge_reject (strategy e));
                e = e\<lparr>strategy := snd (on_lighter_hedge_reject (strategy e))\<rparr>;
                (reject_logs, e, w) = execute_action E reject snapshot e w;
                msg = [Txt ''lighter hedge '', Txt (if lia_ok ack then ''UNCONFIRMED'' else ''FAILED''),
                  Txt '': '', Txt (lia_message ack),
                  Txt '' spread='', Dbl (cross_spread_bps snapshot)]
            in (reject_logs @ [msg], e, w)))
      else if act_type action = UnwindHlPosition then exec_unwind_hl E e w
      else ([], e, w))"
  by pat_completeness auto

termination
proof (relation "measure (\<lambda>(E, action, s, e, w). if act_type action = SendLighterTakerHedge then 1 else 0)")
  fix E :: env and action :: action and s e w x ack ew e1 w1 reject e2
  assume "act_type action = SendLighterTakerHedge"
    and "reject = fst (on_lighter_hedge_reject (strategy e1))"
  then show "((E, reject, s, e2, w1), E, action, s, e, w)
    \<in> measure (\<lambda>(E, action, s, e, w). if act_type action = SendLighterTakerHedge then 1 else 0)"
    using reject_action_type [of "strategy e1"] by auto
qed simp

declare execute_action.simps [simp del]

definition execute_deferred_hl_action ::
  "env \<Rightarrow> i64 \<Rightarrow> spread_snapshot \<Rightarrow> engine \<Rightarrow> world \<Rightarrow> engine logged" where
  "execute_deferred_hl_action E now_ms snapshot e w =
     (case deferred_hl_action e of
        None \<Rightarrow> ([], e, w)
      | Some action \<Rightarrow>
          if (case next_retry_steady_ms e of None \<Rightarrow> False | Some t \<Rightarrow> now_ms < t) then ([], e, w)
          else execute_action E action snapshot
                 (e\<lparr>deferred_hl_action := None, next_retry_steady_ms := None\<rparr>) w)"

section \<open>Market data\<close>

definition on_market_decision ::
  "env \<Rightarrow> i64 \<Rightarrow> spread_snapshot \<Rightarrow> engine \<Rightarrow> world \<Rightarrow> engine logged" where
  "on_market_decision E now_ms snapshot e w =
     (let w = hot_path CrossVenueAlignmentMs
                (word_of_int \<bar>quote_age_ms (hl snapshot) - quote_age_ms (lighter snapshot)\<bar>) w;
          pos_limit_hit = position_limit_reached e (mid (hl snapshot));
          (decision_start_ns, w) = perf_now_ns E w;
          action = fst (hl_on_market_snapshot snapshot now_ms (hl_position_base e) (strategy e));
          e = e\<lparr>strategy := snd (hl_on_market_snapshot snapshot now_ms (hl_position_base e) (strategy e))\<rparr>;
          (decision_end_ns, w) = perf_now_ns E w;
          w = hot_path StrategyDecisionNs (decision_end_ns - decision_start_ns) w
      in if act_type action = PlaceHlMaker then
           (if pos_limit_hit \<and> (case act_maker_order action of
                  None \<Rightarrow> False | Some order \<Rightarrow> would_increase e (po_is_buy order))
            then ([], e\<lparr>strategy := hl_reset (strategy e)\<rparr>, w)
            else execute_action E action snapshot
                   (e\<lparr>perf_trace := empty_perf_trace\<lparr>pt_signal_ns := decision_end_ns\<rparr>\<rparr>) w)
         else if act_type action = CancelHlMaker then
           execute_action E action snapshot
             (e\<lparr>perf_trace := (perf_trace e)\<lparr>pt_cancel_trigger_ns := decision_end_ns\<rparr>\<rparr>) w
         else execute_action E action snapshot e w)"

definition on_market_data :: "env \<Rightarrow> i64 \<Rightarrow> engine \<Rightarrow> world \<Rightarrow> engine logged" where
  "on_market_data E now_ms e w =
     (let (snapshot, w) = collect_snapshot E (en_config e) w in
      if deferred_hl_action e \<noteq> None then
        (let (deferred_logs, e, w) = execute_deferred_hl_action E now_ms snapshot e w in
         if deferred_logs \<noteq> [] then (deferred_logs, e, w)
         else on_market_decision E now_ms snapshot e w)
      else on_market_decision E now_ms snapshot e w)"

section \<open>Trade prints\<close>

text \<open>Whether a print crosses the resting order deeply enough and is large enough.\<close>

definition trade_crosses :: "engine_config \<Rightarrow> pending_maker_order \<Rightarrow> trade_event \<Rightarrow> bool" where
  "trade_crosses c order trade =
     (let maker_price = po_price order;
          min_cross_bps = spec_hedge_min_cross_bps c;
          price_crossed =
            (if po_is_buy order
             then te_price trade \<le> maker_price * (D 1 - min_cross_bps / D 10000)
             else maker_price * (D 1 + min_cross_bps / D 10000) \<le> te_price trade);
          min_ratio = spec_hedge_min_trade_ratio c
      in if price_crossed \<and> 0 < min_ratio
            \<and> 0 < po_size_base order \<and> te_size trade / po_size_base order < min_ratio
         then False else price_crossed)"

definition skip_trade :: "pending_maker_order \<Rightarrow> trade_event \<Rightarrow> engine \<Rightarrow> world \<Rightarrow> engine logged" where
  "skip_trade order trade e w =
     (let e = e\<lparr>skip_count := skip_count e + 1\<rparr> in
      if skip_count e mod 100 = 0 then
        ([[Txt ''spec_hedge_debug: '', I64 (skip_count e), Txt '' trades checked, none crossed. '',
           Txt ''maker_px='', Dbl (po_price order), Txt '' '',
           Txt (if po_is_buy order then ''BUY'' else ''SELL''),
           Txt '' last_trade_px='', Dbl (te_price trade)]], e, w)
      else ([], e, w))"

definition send_speculative_hedge ::
  "env \<Rightarrow> spread_snapshot \<Rightarrow> pending_maker_order \<Rightarrow> string \<Rightarrow> trade_event \<Rightarrow> engine \<Rightarrow> world
     \<Rightarrow> engine logged" where
  "send_speculative_hedge E snapshot order oid trade e w =
     (let is_ask = (po_direction order = ShortLighterLongHl);
          hedge_size = po_size_base order;
          lighter_mid = mid (lighter snapshot);
          hedge_price = slipped is_ask lighter_mid (D 15);
          (hedge_send_ns, w) = perf_now_ns E w;
          (ack, w) = lighter_place_ioc E \<lparr>lir_is_ask = is_ask, lir_price = hedge_price,
             lir_size = hedge_size, lir_signal_price = lighter_mid,
             lir_dry_run = dry_run (en_config e)\<rparr> w;
          (hedge_ack_ns, w) = perf_now_ns E w;
          e = e\<lparr>speculative_hedge_sent := True, speculative_hedge_size := hedge_size,
                 speculative_hedge_oid := oid\<rparr>
      in if lia_ok ack \<and> lia_fill_confirmed ack then
           ([[Txt ''SPECULATIVE HEDGE SUCCESS: trade_px='', Dbl (te_price trade),
              Txt '' maker_px='', Dbl (po_price order), Txt '' hedge_px='', Dbl (lia_fill_price ack),
              Txt '' hedge_sz='', Dbl (lia_confirmed_size ack), Txt '' tx='', Txt (lia_tx_hash ack),
              Txt '' latency_ms='', Dbl (ms_of_ns (hedge_ack_ns - hedge_send_ns))]], e, w)
         else
           ([[Txt ''SPECULATIVE HEDGE FAILED: trade_px='', Dbl (te_price trade),
              Txt '' maker_px='', Dbl (po_price order), Txt '' err='', Txt (lia_message ack),
              Txt '' latency_ms='', Dbl (ms_of_ns (hedge_ack_ns - hedge_send_ns))]],
            clear_speculative e, w))"

definition on_trade_event :: "env \<Rightarrow> trade_event \<Rightarrow> engine \<Rightarrow> world \<Rightarrow> engine logged" where
  "on_trade_event E trade e w =
     (case (active_hl_oid e, pending_maker (strategy e)) of
        (Some oid, Some order) \<Rightarrow>
          (if speculative_hedge_sent e then ([], e, w)
           else if 0 < te_exchange_time_ms trade \<and> 0 < maker_order_placed_epoch_ms e
                \<and> te_exchange_time_ms trade < maker_order_placed_epoch_ms e then ([], e, w)
           else if \<not> trade_crosses (en_config e) order trade then skip_trade order trade e w
           else
             (let (snapshot, w) = collect_snapshot E (en_config e) w in
              if \<not> snapshot_valid snapshot (max_quote_age_ms (ec_strategy (en_config e))) then ([], e, w)
              else send_speculative_hedge E snapshot order oid trade e w))
      | _ \<Rightarrow> ([], e, w))"

section \<open>Fills\<close>

text \<open>
  A fill of an order whose speculative hedge is out: the two sizes are reconciled.  Equal
  sizes end the trade; a larger fill hedges the difference; a smaller one (or sizes that do
  not compare) unwinds the overshoot on Lighter.
\<close>

definition reconcile_match ::
  "double \<Rightarrow> string \<Rightarrow> engine \<Rightarrow> world \<Rightarrow> engine logged" where
  "reconcile_match fill_size_base oid e w =
     (let msg = [Txt ''SPECULATIVE HEDGE RECONCILED: hl_fill='', Dbl fill_size_base,
            Txt '' hedge='', Dbl (speculative_hedge_size e), Txt '' diff=0''];
          e = add_position fill_size_base e;
          e = clear_speculative e;
          e = e\<lparr>recently_placed_oids := recently_placed_oids e - {oid}\<rparr>
      in ([msg], end_trade e, w))"

definition reconcile_correction ::
  "env \<Rightarrow> spread_snapshot \<Rightarrow> double \<Rightarrow> double \<Rightarrow> string \<Rightarrow> engine \<Rightarrow> world \<Rightarrow> engine logged" where
  "reconcile_correction E snapshot fill_size_base size_diff oid e w =
     (let is_ask = (last_maker_direction e = ShortLighterLongHl);
          lighter_mid = mid (lighter snapshot);
          hedge_price = slipped is_ask lighter_mid (D 10);
          (ack, w) = lighter_place_ioc E \<lparr>lir_is_ask = is_ask, lir_price = hedge_price,
             lir_size = size_diff, lir_signal_price = lighter_mid,
             lir_dry_run = dry_run (en_config e)\<rparr> w;
          msg = [Txt ''SPECULATIVE HEDGE + CORRECTION: hl_fill='', Dbl fill_size_base,
            Txt '' spec_hedge='', Dbl (speculative_hedge_size e), Txt '' correction='', Dbl size_diff,
            Txt '' '', Txt (if lia_ok ack then ''SUCCESS'' else ''FAILED'')];
          e = add_position fill_size_base e;
          e = e\<lparr>recently_placed_oids := recently_placed_oids e - {oid}\<rparr>;
          e = end_trade e
      in ([msg], clear_speculative e, w))"

definition reconcile_overshoot ::
  "env \<Rightarrow> spread_snapshot \<Rightarrow> double \<Rightarrow> double \<Rightarrow> engine \<Rightarrow> world \<Rightarrow> engine logged" where
  "reconcile_overshoot E snapshot fill_size_base size_diff e w =
     (let overshoot = - size_diff;
          spec_was_ask = (last_maker_direction e = ShortLighterLongHl);
          lighter_mid = mid (lighter snapshot);
          unwind_price = slipped (\<not> spec_was_ask) lighter_mid (D 15);
          (unwind_ack, w) = lighter_place_ioc E \<lparr>lir_is_ask = \<not> spec_was_ask,
             lir_price = unwind_price, lir_size = overshoot, lir_signal_price = lighter_mid,
             lir_dry_run = dry_run (en_config e)\<rparr> w;
          msg = [Txt ''SPECULATIVE HEDGE OVERSHOOT UNWIND: hl_fill='', Dbl fill_size_base,
            Txt '' spec_hedge='', Dbl (speculative_hedge_size e), Txt '' overshoot='', Dbl overshoot,
            Txt '' unwind ''] @
            (if lia_ok unwind_ack then [Txt ''SUCCESS'']
             else [Txt ''FAILED: '', Txt (lia_message unwind_ack)]);
          e = add_position fill_size_base e
      in ([msg], clear_speculative e, w))"

definition reconcile_speculative ::
  "env \<Rightarrow> spread_snapshot \<Rightarrow> double \<Rightarrow> string \<Rightarrow> engine \<Rightarrow> world \<Rightarrow> engine logged" where
  "reconcile_speculative E snapshot fill_size_base oid e w =
     (let size_diff = fill_size_base - speculative_hedge_size e in
      if \<bar>size_diff\<bar> < D (1 / 1000) then reconcile_match fill_size_base oid e w
      else if D (1 / 1000) < size_diff
        then reconcile_correction E snapshot fill_size_base size_diff oid e w
      else reconcile_overshoot E snapshot fill_size_base size_diff e w)"

text \<open>
  Every other fill of a known order is hedged on Lighter at once, whatever the hedger's state.
  \<open>send_fill_hedge\<close> returns the acknowledgement with the two clock readings around it.
\<close>

definition send_fill_hedge ::
  "env \<Rightarrow> spread_snapshot \<Rightarrow> double \<Rightarrow> u64 \<Rightarrow> engine \<Rightarrow> world
     \<Rightarrow> (lighter_ioc_ack \<times> u64 \<times> u64) \<times> engine \<times> world" where
  "send_fill_hedge E snapshot fill_size_base fill_rx_ns e w =
     (let is_ask = (last_maker_direction e = ShortLighterLongHl);
          e = e\<lparr>perf_trace := (perf_trace e)\<lparr>pt_hl_fill_rx_ns := fill_rx_ns\<rparr>\<rparr>;
          w = (if 0 < pt_hl_ack_ns (perf_trace e) \<and> pt_hl_ack_ns (perf_trace e) \<le> fill_rx_ns
               then trade_path HlMakerRestingLifetimeNs (fill_rx_ns - pt_hl_ack_ns (perf_trace e)) w
               else w);
          lighter_mid = mid (lighter snapshot);
          hedge_price = slipped is_ask lighter_mid (D 10);
          (lighter_send_ns, w) = perf_now_ns E w;
          e = e\<lparr>perf_trace := (perf_trace e)\<lparr>pt_lighter_send_ns := lighter_send_ns\<rparr>\<rparr>;
          w = trade_path HlFillLocalRxToLighterSendNs (lighter_send_ns - fill_rx_ns) w;
          (ack, w) = lighter_place_ioc E \<lparr>lir_is_ask = is_ask, lir_price = hedge_price,
             lir_size = fill_size_base, lir_signal_price = lighter_mid,
             lir_dry_run = dry_run (en_config e)\<rparr> w;
          (lighter_ack_ns, w) = perf_now_ns E w;
          e = e\<lparr>perf_trace := (perf_trace e)\<lparr>pt_lighter_ack_ns := lighter_ack_ns\<rparr>\<rparr>;
          w = trade_path LighterSendToAckNs (lighter_ack_ns - lighter_send_ns) w;
          w = trade_path HlFillToLighterHttpAckTotalNs
                (word_of_int (llround (lia_place_to_http_ack_latency_ms ack * D 1000000
                   + dbl_of_u64 (lighter_send_ns - fill_rx_ns)))) w;
          w = trade_path MakerFillToTakerAckTotalNs (lighter_ack_ns - fill_rx_ns) w
      in ((ack, lighter_send_ns, lighter_ack_ns), e, w))"

text \<open>The items both perf lines of a fill share.\<close>

definition hedge_perf_items :: "lighter_ioc_ack \<Rightarrow> u64 \<Rightarrow> u64 \<Rightarrow> u64 \<Rightarrow> message" where
  "hedge_perf_items ack fill_rx_ns lighter_send_ns lighter_ack_ns =
     [Txt '' hl_fill_rx_to_lt_send_ms='', Dbl (ms_of_ns (lighter_send_ns - fill_rx_ns)),
      Txt '' hl_fill_to_lt_http_ack_ms='',
      Dbl (ms_of_ns (lighter_send_ns - fill_rx_ns) + lia_place_to_http_ack_latency_ms ack),
      Txt '' lt_nonce_fetch_ms='', Dbl (lia_nonce_fetch_latency_ms ack),
      Txt '' lt_sign_order_ms='', Dbl (lia_sign_order_latency_ms ack),
      Txt '' lt_sendtx_ack_ms='', Dbl (lia_send_tx_ack_latency_ms ack),
      Txt '' lt_send_to_http_ack_ms='', Dbl (lia_http_ack_latency_ms ack),
      Txt '' lt_http_ack_to_fill_confirm_ms='', Dbl (lia_fill_confirm_latency_ms ack),
      Txt '' lt_confirm_attempts='', I64 (lia_confirm_attempts ack),
      Txt '' lt_send_to_ack_ms='', Dbl (ms_of_ns (lighter_ack_ns - lighter_send_ns)),
      Txt '' hedge_total_ms='', Dbl (ms_of_ns (lighter_ack_ns - fill_rx_ns))]"

definition journal_write :: "journal_entry \<Rightarrow> world \<Rightarrow> world" where
  "journal_write entry w = w\<lparr>journal := map_option (journal_record entry) (journal w)\<rparr>"

definition trade_entry ::
  "spread_snapshot \<Rightarrow> double \<Rightarrow> double \<Rightarrow> string \<Rightarrow> u64 \<Rightarrow> double \<Rightarrow> lighter_ioc_ack \<Rightarrow> u64
     \<Rightarrow> bool \<Rightarrow> double \<Rightarrow> i64 \<Rightarrow> i64 \<Rightarrow> journal_entry" where
  "trade_entry snapshot fill_price fill_size_base oid fill_rx_ns hl_fee ack lighter_ack_ns
       hl_is_buy maker_resting trade_id timestamp_us =
     default_journal_entry\<lparr>
       je_trade_id := trade_id, je_timestamp_us := timestamp_us,
       je_type := CHR ''T'', je_hedge_status := ''filled'',
       je_hl_fill_timestamp_us := uint (fill_rx_ns div 1000),
       je_lighter_fill_timestamp_us := uint (lighter_ack_ns div 1000),
       je_hl_side := (if hl_is_buy then CHR ''B'' else CHR ''S''),
       je_hl_px := fill_price, je_hl_sz := fill_size_base, je_hl_fee := hl_fee,
       je_lt_fill_px := lia_fill_price ack, je_lt_sz := lia_confirmed_size ack,
       je_lt_fee := lia_fee ack, je_spread_bps := cross_spread_bps snapshot,
       je_signal_spread_bps := 0, je_maker_resting_ms := maker_resting,
       je_hedge_total_ms := ms_of_ns (lighter_ack_ns - fill_rx_ns),
       je_hl_oid := oid, je_lt_tx := lia_tx_hash ack\<rparr>"

definition complete_trade ::
  "env \<Rightarrow> spread_snapshot \<Rightarrow> double \<Rightarrow> double \<Rightarrow> string \<Rightarrow> u64 \<Rightarrow> double
     \<Rightarrow> lighter_ioc_ack \<times> u64 \<times> u64 \<Rightarrow> engine \<Rightarrow> world \<Rightarrow> engine logged" where
  "complete_trade E snapshot fill_price fill_size_base oid fill_rx_ns hl_fee sent e w =
     (let (ack, lighter_send_ns, lighter_ack_ns) = sent;
          msg = [Txt ''TRADE COMPLETE: hl_px='', Dbl fill_price, Txt '' sz='', Dbl fill_size_base,
            Txt '' lt_fill_px='', Dbl (lia_fill_price ack), Txt '' lt_sz='', Dbl (lia_confirmed_size ack),
            Txt '' lt_hedge tx='', Txt (lia_tx_hash ack),
            Txt '' spread='', Dbl (cross_spread_bps snapshot), Txt '' hl_fee='', Dbl hl_fee];
          hl_is_buy = (last_maker_direction e = ShortLighterLongHl);
          e = add_position fill_size_base e;
          pt = perf_trace e;
          perf_msg = [Txt ''perf trade oid='', Txt oid,
            Txt '' signal_to_hl_send_ms='', Dbl (gap_ms (pt_hl_send_ns pt) (pt_signal_ns pt)),
            Txt '' hl_send_to_ack_ms='', Dbl (gap_ms (pt_hl_ack_ns pt) (pt_hl_send_ns pt)),
            Txt '' hl_sign_order_ms='', Dbl (pt_hl_sign_order_ms pt),
            Txt '' hl_ws_send_call_ms='', Dbl (pt_hl_ws_send_call_ms pt),
            Txt '' hl_ws_send_to_response_rx_ms='', Dbl (pt_hl_ws_send_to_response_rx_ms pt),
            Txt '' hl_response_rx_to_unblock_ms='', Dbl (pt_hl_response_rx_to_unblock_ms pt),
            Txt '' hl_resting_ms='', Dbl (gap_ms fill_rx_ns (pt_hl_ack_ns pt))]
            @ hedge_perf_items ack fill_rx_ns lighter_send_ns lighter_ack_ns;
          w = (if journal w = None then w
               else
                 (let maker_resting = (if 0 < pt_hl_ack_ns pt then gap_ms fill_rx_ns (pt_hl_ack_ns pt) else 0);
                      (trade_id, w) = epoch_now_us E w;
                      (timestamp_us, w) = epoch_now_us E w
                  in journal_write (trade_entry snapshot fill_price fill_size_base oid fill_rx_ns hl_fee
                       ack lighter_ack_ns hl_is_buy maker_resting trade_id timestamp_us) w))
      in ([msg, perf_msg], end_trade e, w))"

text \<open>
  The two failure branches (the hedge unconfirmed, the hedge refused) run the same
  statements with different texts: the Hyperliquid fill is sold back.  The differences are
  the arguments: the first line, the status word, the journal's type, status, transaction
  and reason.
\<close>

definition unwind_entry ::
  "spread_snapshot \<Rightarrow> double \<Rightarrow> double \<Rightarrow> string \<Rightarrow> u64 \<Rightarrow> double \<Rightarrow> u64 \<Rightarrow> bool
     \<Rightarrow> hl_reduce_ack \<Rightarrow> char \<Rightarrow> string \<Rightarrow> string \<Rightarrow> string \<Rightarrow> i64 \<Rightarrow> i64 \<Rightarrow> journal_entry" where
  "unwind_entry snapshot fill_price fill_size_base oid fill_rx_ns hl_fee lighter_ack_ns is_ask
       unwind entry_type entry_status lt_tx reason trade_id timestamp_us =
     default_journal_entry\<lparr>
       je_trade_id := trade_id, je_timestamp_us := timestamp_us,
       je_type := entry_type, je_hedge_status := entry_status,
       je_hl_fill_timestamp_us := uint (fill_rx_ns div 1000),
       je_hl_side := (if is_ask then CHR ''S'' else CHR ''B''),
       je_hl_px := fill_price, je_hl_sz := fill_size_base, je_hl_fee := hl_fee,
       je_spread_bps := cross_spread_bps snapshot,
       je_hedge_total_ms := ms_of_ns (lighter_ack_ns - fill_rx_ns),
       je_hl_oid := oid, je_lt_tx := lt_tx,
       je_unwind_fill_px := hra_avg_fill_price unwind,
       je_unwind_fill_sz := hra_filled_size unwind,
       je_failure_reason := reason\<rparr>"

definition unwind_fill ::
  "env \<Rightarrow> spread_snapshot \<Rightarrow> double \<Rightarrow> double \<Rightarrow> string \<Rightarrow> u64 \<Rightarrow> double
     \<Rightarrow> lighter_ioc_ack \<times> u64 \<times> u64 \<Rightarrow> message \<Rightarrow> string \<Rightarrow> char \<Rightarrow> string \<Rightarrow> string \<Rightarrow> string
     \<Rightarrow> engine \<Rightarrow> world \<Rightarrow> engine logged" where
  "unwind_fill E snapshot fill_price fill_size_base oid fill_rx_ns hl_fee sent
       msg status entry_type entry_status lt_tx reason e w =
     (let (ack, lighter_send_ns, lighter_ack_ns) = sent;
          is_ask = (last_maker_direction e = ShortLighterLongHl);
          unwind_buy = (\<not> is_ask);
          (unwind_send_ns, w) = perf_now_ns E w;
          w = trade_path HedgeFailureToUnwindSendNs (unwind_send_ns - lighter_ack_ns) w;
          (unwind, w) = hl_reduce E (hl_coin (en_config e)) unwind_buy fill_size_base
                          (dry_run (en_config e)) w;
          (unwind_ack_ns, w) = perf_now_ns E w;
          w = trade_path UnwindSendToAckNs (unwind_ack_ns - unwind_send_ns) w;
          unwind_msg = [Txt (if hra_ok unwind then ''HL UNWIND OK'' else ''HL UNWIND FAILED''),
            Txt '' sz='', Dbl (hra_filled_size unwind), Txt '' avg_px='', Dbl (hra_avg_fill_price unwind)];
          unwind_perf = [Txt ''perf trade oid='', Txt oid, Txt '' hedge_status='', Txt status]
            @ hedge_perf_items ack fill_rx_ns lighter_send_ns lighter_ack_ns
            @ [Txt '' hedge_fail_to_unwind_send_ms='', Dbl (ms_of_ns (unwind_send_ns - lighter_ack_ns)),
               Txt '' unwind_send_to_ack_ms='', Dbl (ms_of_ns (unwind_ack_ns - unwind_send_ns))];
          w = (if journal w = None then w
               else
                 (let (trade_id, w) = epoch_now_us E w;
                      (timestamp_us, w) = epoch_now_us E w
                  in journal_write (unwind_entry snapshot fill_price fill_size_base oid fill_rx_ns hl_fee
                       lighter_ack_ns is_ask unwind entry_type entry_status lt_tx reason
                       trade_id timestamp_us) w))
      in ([msg, unwind_msg, unwind_perf], end_trade e, w))"

definition em_dash :: string where
  "em_dash = [CHR 0xE2, CHR 0x80, CHR 0x94]"

definition hedge_fill ::
  "env \<Rightarrow> spread_snapshot \<Rightarrow> double \<Rightarrow> double \<Rightarrow> string \<Rightarrow> u64 \<Rightarrow> double
     \<Rightarrow> engine \<Rightarrow> world \<Rightarrow> engine logged" where
  "hedge_fill E snapshot fill_price fill_size_base oid fill_rx_ns hl_fee e w =
     (let (sent, e, w) = send_fill_hedge E snapshot fill_size_base fill_rx_ns e w;
          ack = fst sent
      in if lia_ok ack \<and> lia_fill_confirmed ack then
           complete_trade E snapshot fill_price fill_size_base oid fill_rx_ns hl_fee sent e w
         else if lia_ok ack then
           unwind_fill E snapshot fill_price fill_size_base oid fill_rx_ns hl_fee sent
             [Txt ''HEDGE UNCONFIRMED: hl_px='', Dbl fill_price, Txt '' sz='', Dbl fill_size_base,
              Txt '' lt_tx='', Txt (lia_tx_hash ack), Txt ('' '' @ em_dash @ '' UNWINDING HL POSITION'')]
             ''unconfirmed'' (CHR ''U'') ''unconfirmed_then_unwind'' (lia_tx_hash ack)
             ''lighter_unconfirmed'' e w
         else
           unwind_fill E snapshot fill_price fill_size_base oid fill_rx_ns hl_fee sent
             [Txt ''HEDGE FAILED for hl fill px='', Dbl fill_price, Txt '' sz='', Dbl fill_size_base,
              Txt '' err='', Txt (lia_message ack), Txt ('' '' @ em_dash @ '' UNWINDING HL POSITION'')]
             ''failed'' (CHR ''F'') ''failed'' [] (take 100 (lia_message ack)) e w)"

definition on_hl_fill ::
  "env \<Rightarrow> double \<Rightarrow> double \<Rightarrow> spread_snapshot \<Rightarrow> string \<Rightarrow> u64 \<Rightarrow> double
     \<Rightarrow> engine \<Rightarrow> world \<Rightarrow> engine logged" where
  "on_hl_fill E fill_price fill_size_base snapshot oid fill_rx_ns hl_fee e w =
     (if oid \<notin> recently_placed_oids e then ([], e, w)
      else if speculative_hedge_sent e \<and> oid = speculative_hedge_oid e then
        reconcile_speculative E snapshot fill_size_base oid e w
      else hedge_fill E snapshot fill_price fill_size_base oid fill_rx_ns hl_fee e w)"

section \<open>The remaining public methods\<close>

definition engine_on_lighter_hedge_reject :: "env \<Rightarrow> engine \<Rightarrow> world \<Rightarrow> engine logged" where
  "engine_on_lighter_hedge_reject E e w =
     (let action = fst (on_lighter_hedge_reject (strategy e));
          e = e\<lparr>strategy := snd (on_lighter_hedge_reject (strategy e))\<rparr>;
          (snapshot, w) = collect_snapshot E (en_config e) w
      in execute_action E action snapshot e w)"

definition engine_on_lighter_hedge_fill :: "double \<Rightarrow> engine \<Rightarrow> engine" where
  "engine_on_lighter_hedge_fill fill_price e =
     e\<lparr>strategy := on_lighter_hedge_fill fill_price (strategy e)\<rparr>"

definition set_hl_position :: "double \<Rightarrow> engine \<Rightarrow> engine" where
  "set_hl_position base_size e = e\<lparr>hl_position_base := base_size\<rparr>"

end
