(* ===== verification/Engine_Lighter.thy ===== *)
theory Engine_Lighter
  imports Strategy_Lighter Engine_Hl
begin

text \<open>
  \<open>LighterMakerTakerEngine\<close> of \<open>include/arb/engine.hpp\<close> and \<open>src/engine.cpp\<close>: drives the
  Lighter-maker hedger.  The configuration, the clocks and the price helpers are those of
  \<open>Engine_Hl\<close>; the engine's own members are one record.
\<close>

section \<open>State\<close>

record lighter_perf_trace =
  lpt_client_order_index :: i64
  lpt_order_index :: i64
  lpt_signal_ns :: u64
  lpt_lighter_send_ns :: u64
  lpt_lighter_ack_ns :: u64
  lpt_fill_rx_ns :: u64
  lpt_hl_send_ns :: u64
  lpt_hl_ack_ns :: u64
  lpt_cancel_trigger_ns :: u64
  lpt_cancel_send_ns :: u64

definition empty_lighter_trace :: lighter_perf_trace where
  "empty_lighter_trace = \<lparr>lpt_client_order_index = 0, lpt_order_index = 0, lpt_signal_ns = 0,
     lpt_lighter_send_ns = 0, lpt_lighter_ack_ns = 0, lpt_fill_rx_ns = 0, lpt_hl_send_ns = 0,
     lpt_hl_ack_ns = 0, lpt_cancel_trigger_ns = 0, lpt_cancel_send_ns = 0\<rparr>"

record lighter_engine =
  le_config :: engine_config
  le_strategy :: hedger
  active_lighter_order_index :: "i64 option"
  active_lighter_client_order_index :: "i64 option"
  le_maker_direction :: direction
  lighter_position_base :: double
  le_perf_trace :: lighter_perf_trace
  last_lighter_place_ms :: i64
  last_lighter_cancel_ms :: i64
  deferred_lighter_action :: "action option"
  le_next_retry_steady_ms :: "i64 option"

definition lighter_engine_new :: "engine_config \<Rightarrow> string + lighter_engine" where
  "lighter_engine_new c = (case lm_hedger_new (ec_strategy c) of
     Inl err \<Rightarrow> Inl err
   | Inr h \<Rightarrow> Inr \<lparr>le_config = c, le_strategy = h, active_lighter_order_index = None,
       active_lighter_client_order_index = None, le_maker_direction = ShortLighterLongHl,
       lighter_position_base = 0, le_perf_trace = empty_lighter_trace,
       last_lighter_place_ms = 0, last_lighter_cancel_ms = 0,
       deferred_lighter_action = None, le_next_retry_steady_ms = None\<rparr>)"

definition lighter_collect_snapshot :: "env \<Rightarrow> engine_config \<Rightarrow> world \<Rightarrow> spread_snapshot \<times> world" where
  "lighter_collect_snapshot E c w =
     (let (hl_bbo, w) = hl_get_bbo E (hl_coin c) w;
          (lighter_bbo, w) = lighter_get_bbo E (lighter_market_id c) w;
          hl_mid = mid hl_bbo;
          lighter_mid = mid lighter_bbo;
          avg_mid = (hl_mid + lighter_mid) / D 2;
          spread = (if 0 < avg_mid then ((lighter_mid - hl_mid) / avg_mid) * D 10000 else 0)
      in (\<lparr>lighter = lighter_bbo, hl = hl_bbo, cross_spread_bps = spread\<rparr>, w))"

definition lighter_place_retry_at_ms :: "lighter_engine \<Rightarrow> i64 \<Rightarrow> i64 option" where
  "lighter_place_retry_at_ms e now_ms =
     (let elapsed = now_ms - last_lighter_place_ms e in
      if lighter_order_interval_ms (le_config e) \<le> elapsed then None
      else Some (last_lighter_place_ms e + lighter_order_interval_ms (le_config e)))"

definition lighter_cancel_retry_at_ms :: "lighter_engine \<Rightarrow> i64 \<Rightarrow> i64 option" where
  "lighter_cancel_retry_at_ms e now_ms =
     (let elapsed = now_ms - last_lighter_cancel_ms e in
      if lighter_order_interval_ms (le_config e) \<le> elapsed then None
      else Some (last_lighter_cancel_ms e + lighter_order_interval_ms (le_config e)))"

text \<open>The four statements that end a trade: both indices, the strategy and the trace.\<close>

definition forget_order :: "lighter_engine \<Rightarrow> lighter_engine" where
  "forget_order e = e\<lparr>active_lighter_order_index := None,
     active_lighter_client_order_index := None, le_strategy := lm_reset (le_strategy e),
     le_perf_trace := empty_lighter_trace\<rparr>"

section \<open>Executing an action\<close>

definition exec_place_lighter ::
  "env \<Rightarrow> action \<Rightarrow> lighter_engine \<Rightarrow> world \<Rightarrow> lighter_engine logged" where
  "exec_place_lighter E action e w =
     (let (now, w) = steady_now_ms E w in
      case lighter_place_retry_at_ms e now of
        Some retry_at \<Rightarrow>
          ([], e\<lparr>deferred_lighter_action := Some action, le_next_retry_steady_ms := Some retry_at\<rparr>, w)
      | None \<Rightarrow>
          (let e = e\<lparr>last_lighter_place_ms := now, le_next_retry_steady_ms := None,
                     deferred_lighter_action := None\<rparr>;
               order = the (act_maker_order action);
               (send_ns, w) = perf_now_ns E w;
               e = e\<lparr>le_perf_trace := (le_perf_trace e)\<lparr>lpt_lighter_send_ns := send_ns\<rparr>\<rparr>;
               (ack, w) = lighter_place_limit E \<lparr>llr_is_ask = (\<not> po_is_buy order),
                  llr_price = po_price order, llr_size = po_size_base order,
                  llr_post_only = True, llr_dry_run = dry_run (le_config e)\<rparr> w;
               (ack_ns, w) = perf_now_ns E w;
               e = e\<lparr>le_perf_trace := (le_perf_trace e)\<lparr>lpt_lighter_ack_ns := ack_ns\<rparr>\<rparr>
           in if lla_ok ack \<and> lla_resting_confirmed ack then
                ([[Txt ''placed lighter maker order_index='', I64 (lla_order_index ack)]],
                 e\<lparr>active_lighter_order_index := Some (lla_order_index ack),
                   active_lighter_client_order_index := Some (lla_client_order_index ack),
                   le_perf_trace := (le_perf_trace e)\<lparr>lpt_order_index := lla_order_index ack,
                     lpt_client_order_index := lla_client_order_index ack\<rparr>,
                   le_maker_direction := po_direction order\<rparr>, w)
              else ([[Txt ''lighter maker placement failed: '', Txt (lla_message ack)]], e, w)))"

definition send_lighter_cancel :: "env \<Rightarrow> i64 \<Rightarrow> lighter_engine \<Rightarrow> world \<Rightarrow> lighter_engine logged" where
  "send_lighter_cancel E order_index e w =
     (let (send_ns, w) = perf_now_ns E w;
          (ack, w) = lighter_cancel E order_index (dry_run (le_config e)) w;
          (ack_ns, w) = perf_now_ns E w;
          msg = (if lca_ok ack then [Txt ''cancelled lighter maker order_index='', I64 (lca_order_index ack)]
                 else [Txt ''lighter cancel failed: '', Txt (lca_message ack)]);
          pt = le_perf_trace e;
          perf_msg = [Txt ''perf cancel execution_policy=lt_maker_hl_taker order_index='', I64 order_index,
            Txt '' cancel_trigger_to_send_ms='', Dbl (gap_ms send_ns (lpt_cancel_trigger_ns pt)),
            Txt '' cancel_send_to_ack_ms='', Dbl (ms_of_ns (ack_ns - send_ns)),
            Txt '' lt_resting_ms='', Dbl (gap_ms send_ns (lpt_lighter_ack_ns pt))]
      in ([msg, perf_msg], if lca_ok ack then forget_order e else e, w))"

definition exec_cancel_lighter ::
  "env \<Rightarrow> action \<Rightarrow> lighter_engine \<Rightarrow> world \<Rightarrow> lighter_engine logged" where
  "exec_cancel_lighter E action e w =
     (let (now, w) = steady_now_ms E w in
      case lighter_cancel_retry_at_ms e now of
        Some retry_at \<Rightarrow>
          ([], e\<lparr>deferred_lighter_action := Some action, le_next_retry_steady_ms := Some retry_at\<rparr>, w)
      | None \<Rightarrow>
          (let e = e\<lparr>last_lighter_cancel_ms := now, le_next_retry_steady_ms := None,
                     deferred_lighter_action := None\<rparr> in
           case active_lighter_order_index e of
             None \<Rightarrow> ([[Txt ''cancel requested with no active lighter order'']], e, w)
           | Some order_index \<Rightarrow> send_lighter_cancel E order_index e w))"

text \<open>
  \<open>SendHlTakerHedge\<close>.  The journal entry reads the clock twice, before its other members.
\<close>

definition hl_hedge_entry ::
  "spread_snapshot \<Rightarrow> hl_hedge_intent \<Rightarrow> hl_ioc_order_ack \<Rightarrow> u64 \<Rightarrow> lighter_engine
     \<Rightarrow> i64 \<Rightarrow> i64 \<Rightarrow> journal_entry" where
  "hl_hedge_entry snapshot intent ack hl_ack_ns e trade_id timestamp_us =
     (let pos = open_position (le_strategy e);
          pt = le_perf_trace e in
      default_journal_entry\<lparr>
        je_trade_id := trade_id, je_timestamp_us := timestamp_us,
        je_type := CHR ''T'', je_hedge_status := ''filled'',
        je_hl_fill_timestamp_us := uint (hl_ack_ns div 1000),
        je_lighter_fill_timestamp_us := uint (lpt_fill_rx_ns pt div 1000),
        je_hl_side := (if hh_is_buy intent then CHR ''B'' else CHR ''S''),
        je_hl_px := hia_avg_fill_price ack, je_hl_sz := hia_filled_size ack, je_hl_fee := 0,
        je_lt_fill_px := (case pos of None \<Rightarrow> 0 | Some p \<Rightarrow> oh_lighter_fill_price p),
        je_lt_sz := (case pos of None \<Rightarrow> hh_size_base intent | Some p \<Rightarrow> oh_size_base p),
        je_lt_fee := 0, je_spread_bps := cross_spread_bps snapshot,
        je_maker_resting_ms := gap_ms (lpt_fill_rx_ns pt) (lpt_lighter_ack_ns pt),
        je_hedge_total_ms := ms_of_ns (hl_ack_ns - lpt_fill_rx_ns pt),
        je_hl_oid := ''hl_ioc'',
        je_lt_tx := int_string (case active_lighter_order_index e of None \<Rightarrow> 0 | Some i \<Rightarrow> i)\<rparr>)"

definition complete_lighter_trade ::
  "env \<Rightarrow> spread_snapshot \<Rightarrow> hl_hedge_intent \<Rightarrow> hl_ioc_order_ack \<Rightarrow> u64 \<Rightarrow> u64
     \<Rightarrow> lighter_engine \<Rightarrow> world \<Rightarrow> lighter_engine logged" where
  "complete_lighter_trade E snapshot intent ack hl_send_ns hl_ack_ns e w =
     (let e = e\<lparr>le_strategy := on_hl_hedge_fill (hia_avg_fill_price ack) (le_strategy e)\<rparr>;
          pos = open_position (le_strategy e);
          pt = le_perf_trace e;
          msg = [Txt ''TRADE COMPLETE: execution_policy=lt_maker_hl_taker'',
            Txt '' lt_px='', Dbl (case pos of None \<Rightarrow> 0 | Some p \<Rightarrow> oh_lighter_fill_price p),
            Txt '' sz='', Dbl (case pos of None \<Rightarrow> hh_size_base intent | Some p \<Rightarrow> oh_size_base p),
            Txt '' hl_fill_px='', Dbl (hia_avg_fill_price ack),
            Txt '' hl_sz='', Dbl (hia_filled_size ack),
            Txt '' spread='', Dbl (cross_spread_bps snapshot)];
          perf_msg = [Txt ''perf trade execution_policy=lt_maker_hl_taker order_index='',
            Txt (case active_lighter_order_index e of None \<Rightarrow> ''0'' | Some i \<Rightarrow> int_string i),
            Txt '' lt_send_to_ack_ms='', Dbl (gap_ms (lpt_lighter_ack_ns pt) (lpt_lighter_send_ns pt)),
            Txt '' lt_resting_ms='', Dbl (gap_ms (lpt_fill_rx_ns pt) (lpt_lighter_ack_ns pt)),
            Txt '' lt_fill_rx_to_hl_send_ms='', Dbl (ms_of_ns (hl_send_ns - lpt_fill_rx_ns pt)),
            Txt '' hl_send_to_ack_ms='', Dbl (ms_of_ns (hl_ack_ns - hl_send_ns)),
            Txt '' hedge_total_ms='', Dbl (ms_of_ns (hl_ack_ns - lpt_fill_rx_ns pt))];
          w = (if journal w = None then w
               else
                 (let (trade_id, w) = epoch_now_us E w;
                      (timestamp_us, w) = epoch_now_us E w
                  in journal_write (hl_hedge_entry snapshot intent ack hl_ack_ns e trade_id timestamp_us) w))
      in ([msg, perf_msg], forget_order e, w))"

definition unwind_lighter_fill ::
  "env \<Rightarrow> spread_snapshot \<Rightarrow> hl_hedge_intent \<Rightarrow> hl_ioc_order_ack
     \<Rightarrow> lighter_engine \<Rightarrow> world \<Rightarrow> lighter_engine logged" where
  "unwind_lighter_fill E snapshot intent ack e w =
     (let msg = [Txt ''HL taker hedge failed for lighter maker fill: '', Txt (hia_message ack),
            Txt ('' '' @ em_dash @ '' UNWINDING LIGHTER POSITION'')];
          unwind_is_ask = (le_maker_direction e = LongLighterShortHl);
          lighter_mid = mid (lighter snapshot);
          unwind_price = slipped unwind_is_ask lighter_mid (D 15);
          (unwind_ack, w) = lighter_place_ioc E \<lparr>lir_is_ask = unwind_is_ask,
             lir_price = unwind_price, lir_size = hh_size_base intent,
             lir_signal_price = lighter_mid, lir_dry_run = dry_run (le_config e)\<rparr> w;
          unwind_msg = [Txt ''LIGHTER UNWIND '', Txt (if lia_ok unwind_ack then ''OK'' else ''FAILED''),
            Txt '' tx='', Txt (lia_tx_hash unwind_ack)]
      in ([msg, unwind_msg], forget_order e, w))"

definition exec_hl_taker_hedge ::
  "env \<Rightarrow> action \<Rightarrow> spread_snapshot \<Rightarrow> lighter_engine \<Rightarrow> world \<Rightarrow> lighter_engine logged" where
  "exec_hl_taker_hedge E action snapshot e w =
     (let intent = the (act_hl_hedge_intent action);
          (hl_send_ns, w) = perf_now_ns E w;
          e = e\<lparr>le_perf_trace := (le_perf_trace e)\<lparr>lpt_hl_send_ns := hl_send_ns\<rparr>\<rparr>;
          (ack, w) = hl_place_ioc E \<lparr>hir_coin = hl_coin (le_config e), hir_is_buy = hh_is_buy intent,
             hir_price = hh_limit_price intent, hir_size = hh_size_base intent,
             hir_dry_run = dry_run (le_config e)\<rparr> w;
          (hl_ack_ns, w) = perf_now_ns E w;
          e = e\<lparr>le_perf_trace := (le_perf_trace e)\<lparr>lpt_hl_ack_ns := hl_ack_ns\<rparr>\<rparr>
      in if hia_ok ack \<and> 0 < hia_filled_size ack
         then complete_lighter_trade E snapshot intent ack hl_send_ns hl_ack_ns e w
         else unwind_lighter_fill E snapshot intent ack e w)"

definition exec_unwind_lighter ::
  "env \<Rightarrow> spread_snapshot \<Rightarrow> lighter_engine \<Rightarrow> world \<Rightarrow> lighter_engine logged" where
  "exec_unwind_lighter E snapshot e w =
     (let is_ask = (case open_position (le_strategy e) of
            None \<Rightarrow> False | Some pos \<Rightarrow> oh_direction pos = LongLighterShortHl);
          size_base = (case open_position (le_strategy e) of None \<Rightarrow> 0 | Some pos \<Rightarrow> oh_size_base pos);
          lighter_mid = mid (lighter snapshot);
          unwind_price = slipped is_ask lighter_mid (D 15);
          (ack, w) = lighter_place_ioc E \<lparr>lir_is_ask = is_ask, lir_price = unwind_price,
             lir_size = size_base, lir_signal_price = lighter_mid,
             lir_dry_run = dry_run (le_config e)\<rparr> w
      in ([if lia_ok ack then [Txt ''unwound naked lighter position'']
           else [Txt ''lighter unwind failed: '', Txt (lia_message ack)]], e, w))"

definition lighter_execute_action ::
  "env \<Rightarrow> action \<Rightarrow> spread_snapshot \<Rightarrow> lighter_engine \<Rightarrow> world \<Rightarrow> lighter_engine logged" where
  "lighter_execute_action E action snapshot e w =
     (case act_type action of
        PlaceLighterMaker \<Rightarrow> exec_place_lighter E action e w
      | CancelLighterMaker \<Rightarrow> exec_cancel_lighter E action e w
      | SendHlTakerHedge \<Rightarrow> exec_hl_taker_hedge E action snapshot e w
      | UnwindLighterPosition \<Rightarrow> exec_unwind_lighter E snapshot e w
      | _ \<Rightarrow> ([], e, w))"

section \<open>Public methods\<close>

definition execute_deferred_lighter_action ::
  "env \<Rightarrow> i64 \<Rightarrow> spread_snapshot \<Rightarrow> lighter_engine \<Rightarrow> world \<Rightarrow> lighter_engine logged" where
  "execute_deferred_lighter_action E now_ms snapshot e w =
     (case deferred_lighter_action e of
        None \<Rightarrow> ([], e, w)
      | Some action \<Rightarrow>
          if (case le_next_retry_steady_ms e of None \<Rightarrow> False | Some t \<Rightarrow> now_ms < t) then ([], e, w)
          else lighter_execute_action E action snapshot
                 (e\<lparr>deferred_lighter_action := None, le_next_retry_steady_ms := None\<rparr>) w)"

definition lighter_on_market_decision ::
  "env \<Rightarrow> i64 \<Rightarrow> spread_snapshot \<Rightarrow> lighter_engine \<Rightarrow> world \<Rightarrow> lighter_engine logged" where
  "lighter_on_market_decision E now_ms snapshot e w =
     (let w = hot_path CrossVenueAlignmentMs
                (word_of_int \<bar>quote_age_ms (hl snapshot) - quote_age_ms (lighter snapshot)\<bar>) w;
          (decision_start_ns, w) = perf_now_ns E w;
          action = fst (lm_on_market_snapshot snapshot now_ms (le_strategy e));
          e = e\<lparr>le_strategy := snd (lm_on_market_snapshot snapshot now_ms (le_strategy e))\<rparr>;
          (decision_end_ns, w) = perf_now_ns E w;
          w = hot_path StrategyDecisionNs (decision_end_ns - decision_start_ns) w;
          e = (if act_type action = PlaceLighterMaker
               then e\<lparr>le_perf_trace := empty_lighter_trace\<lparr>lpt_signal_ns := decision_end_ns\<rparr>\<rparr>
               else if act_type action = CancelLighterMaker
               then e\<lparr>le_perf_trace := (le_perf_trace e)\<lparr>lpt_cancel_trigger_ns := decision_end_ns\<rparr>\<rparr>
               else e)
      in lighter_execute_action E action snapshot e w)"

definition lighter_on_market_data :: "env \<Rightarrow> i64 \<Rightarrow> lighter_engine \<Rightarrow> world \<Rightarrow> lighter_engine logged" where
  "lighter_on_market_data E now_ms e w =
     (let (snapshot, w) = lighter_collect_snapshot E (le_config e) w in
      if deferred_lighter_action e \<noteq> None then
        (let (deferred_logs, e, w) = execute_deferred_lighter_action E now_ms snapshot e w in
         if deferred_logs \<noteq> [] then (deferred_logs, e, w)
         else lighter_on_market_decision E now_ms snapshot e w)
      else lighter_on_market_decision E now_ms snapshot e w)"

definition on_lighter_fill ::
  "env \<Rightarrow> double \<Rightarrow> double \<Rightarrow> spread_snapshot \<Rightarrow> i64 \<Rightarrow> i64 \<Rightarrow> u64
     \<Rightarrow> lighter_engine \<Rightarrow> world \<Rightarrow> lighter_engine logged" where
  "on_lighter_fill E fill_price fill_size_base snapshot order_index client_order_index fill_rx_ns e w =
     (if active_lighter_order_index e \<noteq> Some order_index then ([], e, w)
      else
        (let e = e\<lparr>le_perf_trace := (le_perf_trace e)\<lparr>lpt_fill_rx_ns := fill_rx_ns\<rparr>\<rparr>;
             pt = le_perf_trace e;
             w = (if 0 < lpt_lighter_ack_ns pt \<and> lpt_lighter_ack_ns pt \<le> fill_rx_ns
                  then trade_path HlMakerRestingLifetimeNs (fill_rx_ns - lpt_lighter_ack_ns pt) w
                  else w);
             action = fst (on_lighter_maker_fill fill_price fill_size_base snapshot (le_strategy e));
             e = e\<lparr>le_strategy := snd (on_lighter_maker_fill fill_price fill_size_base snapshot (le_strategy e))\<rparr>
         in lighter_execute_action E action snapshot e w))"

definition engine_on_hl_hedge_reject :: "env \<Rightarrow> lighter_engine \<Rightarrow> world \<Rightarrow> lighter_engine logged" where
  "engine_on_hl_hedge_reject E e w =
     (let action = fst (on_hl_hedge_reject (le_strategy e));
          e = e\<lparr>le_strategy := snd (on_hl_hedge_reject (le_strategy e))\<rparr>;
          (snapshot, w) = lighter_collect_snapshot E (le_config e) w
      in lighter_execute_action E action snapshot e w)"

end
