(* ===== verification/Engine_Hl_Steps.thy ===== *)
theory Engine_Hl_Steps
  imports Engine_Hl
begin

text \<open>
  What each method of the engine does, one case rule per method: the orders it sends, as an
  extension of the trace, and the members of the engine it changes.  The properties of
  \<open>Engine_Hl_Safety\<close> are proved from these rules alone.
\<close>

section \<open>Orders and frames\<close>


abbreviation hl_limit_request :: "engine \<Rightarrow> pending_maker_order \<Rightarrow> hl_limit_order_request" where
  "hl_limit_request e order \<equiv> \<lparr>hlr_coin = hl_coin (en_config e), hlr_is_buy = po_is_buy order,
     hlr_price = po_price order, hlr_size = po_size_base order, hlr_post_only = True,
     hlr_dry_run = dry_run (en_config e)\<rparr>"

abbreviation ioc_request :: "engine \<Rightarrow> spread_snapshot \<Rightarrow> bool \<Rightarrow> double \<Rightarrow> double \<Rightarrow> lighter_ioc_request" where
  "ioc_request e s is_ask bps size_base \<equiv> \<lparr>lir_is_ask = is_ask,
     lir_price = slipped is_ask (mid (lighter s)) bps, lir_size = size_base,
     lir_signal_price = mid (lighter s), lir_dry_run = dry_run (en_config e)\<rparr>"

text \<open>The members a call may leave alone: the order and position ones, and the limiter's.\<close>

definition same_trading :: "engine \<Rightarrow> engine \<Rightarrow> bool" where
  "same_trading e e' \<longleftrightarrow> en_config e' = en_config e \<and> strategy e' = strategy e
     \<and> active_hl_oid e' = active_hl_oid e \<and> recently_placed_oids e' = recently_placed_oids e
     \<and> last_maker_direction e' = last_maker_direction e \<and> hl_position_base e' = hl_position_base e
     \<and> speculative_hedge_sent e' = speculative_hedge_sent e
     \<and> speculative_hedge_size e' = speculative_hedge_size e
     \<and> speculative_hedge_oid e' = speculative_hedge_oid e
     \<and> maker_order_placed_epoch_ms e' = maker_order_placed_epoch_ms e"

definition same_limiter :: "engine \<Rightarrow> engine \<Rightarrow> bool" where
  "same_limiter e e' \<longleftrightarrow> deferred_hl_action e' = deferred_hl_action e
     \<and> next_retry_steady_ms e' = next_retry_steady_ms e
     \<and> last_hl_place_ms e' = last_hl_place_ms e \<and> last_hl_cancel_ms e' = last_hl_cancel_ms e"

lemmas frame_defs = same_trading_def same_limiter_def

lemma send_hl_maker_cases:
  assumes "send_hl_maker E a e w = (logs, e', w')"
  obtains (placed) t1 t2 t3 ack where "hla_ok ack"
      "trace w' = trace w @ [PerfNs t1, HlLimit (hl_limit_request e (the (act_maker_order a))) ack,
         PerfNs t2, EpochMs t3]"
      "logs = [[Txt ''placed hl maker oid='', Txt (hla_oid ack)]]"
      "same_limiter e e'" "same_trading (clear_speculative (e\<lparr>active_hl_oid := Some (hla_oid ack),
         recently_placed_oids := {hla_oid ack}, maker_order_placed_epoch_ms := t3,
         last_maker_direction := po_direction (the (act_maker_order a))\<rparr>)) e'"
      "journal w' = journal w"
      "ack = env_hl_limit E (trace w @ [PerfNs t1]) (hl_limit_request e (the (act_maker_order a)))"
  | (failed) t1 t2 ack where "\<not> hla_ok ack"
      "trace w' = trace w @ [PerfNs t1, HlLimit (hl_limit_request e (the (act_maker_order a))) ack, PerfNs t2]"
      "logs = [[Txt ''hl maker placement failed: '', Txt (hla_message ack)]]"
      "same_limiter e e'" "same_trading e e'" "journal w' = journal w"
      "ack = env_hl_limit E (trace w @ [PerfNs t1]) (hl_limit_request e (the (act_maker_order a)))"
proof -
  let ?req = "hl_limit_request e (the (act_maker_order a))"
  let ?t1 = "env_perf_ns E (trace w)"
  let ?tr1 = "trace w @ [PerfNs ?t1]"
  let ?ack = "env_hl_limit E ?tr1 ?req"
  let ?tr2 = "?tr1 @ [HlLimit ?req ?ack]"
  let ?t2 = "env_perf_ns E ?tr2"
  let ?t3 = "env_epoch_ms E (?tr2 @ [PerfNs ?t2])"
  have r: "logs = fst (send_hl_maker E a e w)" "e' = fst (snd (send_hl_maker E a e w))"
    "w' = snd (snd (send_hl_maker E a e w))"
    by (simp_all add: assms)
  show ?thesis
  proof (cases "hla_ok ?ack")
    case True
    then show ?thesis
      by (intro placed [of ?ack ?t1 ?t2 ?t3])
        (simp_all add: r send_hl_maker_def world_simps Let_def clear_speculative_def frame_defs)
  next
    case False
    then show ?thesis
      by (intro failed [of ?ack ?t1 ?t2])
        (simp_all add: r send_hl_maker_def world_simps Let_def frame_defs)
  qed
qed

definition place_blocked :: "action \<Rightarrow> spread_snapshot \<Rightarrow> engine \<Rightarrow> bool" where
  "place_blocked a s e \<longleftrightarrow> (\<exists>order. act_maker_order a = Some order \<and> 0 < mid (hl s)
     \<and> position_limit_reached e (mid (hl s)) \<and> would_increase e (po_is_buy order))"

lemma exec_place_cases:
  assumes "exec_place_hl_maker E a s e w = (logs, e', w')"
  obtains (blocked) "place_blocked a s e" "logs = []" "w' = w"
      "e' = e\<lparr>strategy := hl_reset (strategy e)\<rparr>"
  | (deferred) now retry where "\<not> place_blocked a s e" "hl_place_retry_at_ms e now = Some retry"
      "logs = []" "w' = happened (SteadyMs now) w"
      "e' = e\<lparr>deferred_hl_action := Some a, next_retry_steady_ms := Some retry\<rparr>"
      "now = env_steady_ms E (trace w)"
  | (sent) now where "\<not> place_blocked a s e" "hl_place_retry_at_ms e now = None"
      "send_hl_maker E a (e\<lparr>last_hl_place_ms := now, next_retry_steady_ms := None,
         deferred_hl_action := None\<rparr>) (happened (SteadyMs now) w) = (logs, e', w')"
      "now = env_steady_ms E (trace w)"
proof -
  have b: "place_blocked a s e \<longleftrightarrow> (case act_maker_order a of
            None \<Rightarrow> False
          | Some order \<Rightarrow> 0 < mid (hl s)
               \<and> max_position_usd (ec_strategy (en_config e)) \<le> \<bar>hl_position_base e\<bar> * mid (hl s)
                  \<and> would_increase e (po_is_buy order))"
  proof -
    have "\<not> m \<le> 0" if "0 < m" for m :: double
      using that by (cases m) (auto simp: zero_double_def)
    then show ?thesis
      by (auto simp: place_blocked_def position_limit_reached_def split: option.splits)
  qed
  note eq = assms [unfolded exec_place_hl_maker_def Let_def, folded b]
  consider "place_blocked a s e" | "\<not> place_blocked a s e" "hl_place_retry_at_ms e (env_steady_ms E (trace w)) = None"
    | retry where "\<not> place_blocked a s e" "hl_place_retry_at_ms e (env_steady_ms E (trace w)) = Some retry"
    by fastforce
  then show ?thesis
    using eq by cases (auto simp: steady_now_ms_def Let_def intro: blocked deferred sent)
qed

definition cancel_unwind :: "engine \<Rightarrow> spread_snapshot \<Rightarrow> lighter_ioc_ack \<Rightarrow> venue_event list" where
  "cancel_unwind e s ack = (if speculative_hedge_sent e
     then [LighterIoc (ioc_request e s (last_maker_direction e \<noteq> ShortLighterLongHl) (D 15)
             (speculative_hedge_size e)) ack] else [])"

lemma send_hl_cancel_cases:
  assumes "send_hl_cancel E s oid e w = (logs, e', w')"
  obtains (cancelled) t1 t2 ack ack' where "hca_ok ack"
      "trace w' = trace w @ [PerfNs t1, HlCancel (hl_coin (en_config e)) oid (dry_run (en_config e)) ack,
         PerfNs t2] @ cancel_unwind e s ack'"
      "logs \<noteq> []" "same_limiter e e'"
      "same_trading (clear_speculative (e\<lparr>active_hl_oid := None, strategy := hl_reset (strategy e)\<rparr>)) e'"
      "journal w' = journal w"
  | (failed) t1 t2 ack where "\<not> hca_ok ack"
      "trace w' = trace w @ [PerfNs t1, HlCancel (hl_coin (en_config e)) oid (dry_run (en_config e)) ack,
         PerfNs t2]"
      "logs \<noteq> []" "same_limiter e e'" "same_trading e e'" "journal w' = journal w"
proof -
  let ?t1 = "env_perf_ns E (trace w)"
  let ?tr1 = "trace w @ [PerfNs ?t1]"
  let ?ack = "env_hl_cancel E ?tr1 (hl_coin (en_config e)) oid (dry_run (en_config e))"
  let ?tr2 = "?tr1 @ [HlCancel (hl_coin (en_config e)) oid (dry_run (en_config e)) ?ack]"
  let ?t2 = "env_perf_ns E ?tr2"
  let ?req = "ioc_request e s (last_maker_direction e \<noteq> ShortLighterLongHl) (D 15) (speculative_hedge_size e)"
  let ?ack' = "env_lighter_ioc E (?tr2 @ [PerfNs ?t2]) ?req"
  have r: "logs = fst (send_hl_cancel E s oid e w)" "e' = fst (snd (send_hl_cancel E s oid e w))"
    "w' = snd (snd (send_hl_cancel E s oid e w))"
    by (simp_all add: assms)
  show ?thesis
  proof (cases "hca_ok ?ack")
    case True
    then show ?thesis
      by (intro cancelled [of ?ack ?t1 ?t2 ?ack'])
        (simp_all add: r send_hl_cancel_def unwind_speculative_def cancel_unwind_def world_simps
          Let_def clear_speculative_def frame_defs)
  next
    case False
    then show ?thesis
      by (intro failed [of ?ack ?t1 ?t2])
        (simp_all add: r send_hl_cancel_def world_simps Let_def frame_defs)
  qed
qed

lemma exec_cancel_cases:
  assumes "exec_cancel_hl_maker E a s e w = (logs, e', w')"
  obtains (deferred) now retry where "hl_cancel_retry_at_ms e now = Some retry"
      "logs = []" "w' = happened (SteadyMs now) w"
      "e' = e\<lparr>deferred_hl_action := Some a, next_retry_steady_ms := Some retry\<rparr>"
      "now = env_steady_ms E (trace w)"
  | (no_oid) now where "hl_cancel_retry_at_ms e now = None" "active_hl_oid e = None"
      "logs = [[Txt ''cancel requested with no active oid'']]" "w' = happened (SteadyMs now) w"
      "e' = e\<lparr>last_hl_cancel_ms := now, next_retry_steady_ms := None, deferred_hl_action := None\<rparr>"
  | (sent) now oid where "hl_cancel_retry_at_ms e now = None" "active_hl_oid e = Some oid"
      "send_hl_cancel E s oid (e\<lparr>last_hl_cancel_ms := now, next_retry_steady_ms := None,
         deferred_hl_action := None\<rparr>) (happened (SteadyMs now) w) = (logs, e', w')"
      "now = env_steady_ms E (trace w)"
  using assms
  by (cases "hl_cancel_retry_at_ms e (env_steady_ms E (trace w))"; cases "active_hl_oid e")
    (auto simp: exec_cancel_hl_maker_def steady_now_ms_def Let_def intro: deferred no_oid sent)

lemma exec_unwind_hl_eq:
  assumes "exec_unwind_hl E e w = (logs, e', w')"
  obtains ack where "e' = e" "logs \<noteq> []" "journal w' = journal w"
    "trace w' = trace w @ [HlReduce (hl_coin (en_config e))
       (case open_position (strategy e) of None \<Rightarrow> False | Some p \<Rightarrow> oh_direction p = LongLighterShortHl)
       (case open_position (strategy e) of None \<Rightarrow> 0 | Some p \<Rightarrow> oh_size_base p)
       (dry_run (en_config e)) ack]"
  using assms by (auto simp: exec_unwind_hl_def hl_reduce_def Let_def)

section \<open>Fills\<close>

definition traded :: "engine \<Rightarrow> double \<Rightarrow> double" where
  "traded e size_base = hl_position_base e
     + (if last_maker_direction e = ShortLighterLongHl then size_base else - size_base)"

lemma hl_position_add [simp]: "hl_position_base (add_position size_base e) = traded e size_base"
  by (simp add: add_position_def traded_def Let_def)

lemma add_position_frame:
  "add_position size_base e = e\<lparr>hl_position_base := traded e size_base\<rparr>"
  by (simp add: add_position_def traded_def Let_def)

lemma send_fill_hedge_eq:
  assumes "send_fill_hedge E s sz rx e w = (sent, e', w')"
  obtains t1 t2 where "sent = (fst sent, t1, t2)" "same_trading e e'" "same_limiter e e'"
    "journal w' = journal w"
    "trace w' = trace w @ [PerfNs t1,
       LighterIoc (ioc_request e s (last_maker_direction e = ShortLighterLongHl) (D 10) sz) (fst sent),
       PerfNs t2]"
proof -
  let ?t1 = "env_perf_ns E (trace w)"
  let ?tr1 = "trace w @ [PerfNs ?t1]"
  let ?req = "ioc_request e s (last_maker_direction e = ShortLighterLongHl) (D 10) sz"
  let ?ack = "env_lighter_ioc E ?tr1 ?req"
  let ?t2 = "env_perf_ns E (?tr1 @ [LighterIoc ?req ?ack])"
  have r: "sent = fst (send_fill_hedge E s sz rx e w)" "e' = fst (snd (send_fill_hedge E s sz rx e w))"
    "w' = snd (snd (send_fill_hedge E s sz rx e w))"
    by (simp_all add: assms)
  show ?thesis
    by (rule that [of ?t1 ?t2]) (simp_all add: r send_fill_hedge_def world_simps Let_def frame_defs)
qed

lemma complete_trade_eq:
  assumes "complete_trade E s px sz oid rx fee sent e w = (logs, e', w')"
  obtains clocks resting c1 c2 where "logs \<noteq> []" "same_limiter e e'"
    "same_trading (e\<lparr>hl_position_base := traded e sz, active_hl_oid := None,
       strategy := hl_reset (strategy e)\<rparr>) e'"
    "trace w' = trace w @ clocks" "orders_of clocks = []"
    "journal w' = map_option (journal_record (trade_entry s px sz oid rx fee (fst sent) (snd (snd sent))
       (last_maker_direction e = ShortLighterLongHl) resting c1 c2)) (journal w)"
proof -
  let ?c1 = "env_epoch_us E (trace w)"
  let ?c2 = "env_epoch_us E (trace w @ [EpochUs ?c1])"
  let ?clocks = "if journal w = None then [] else [EpochUs ?c1, EpochUs ?c2]"
  let ?pt = "perf_trace e"
  let ?resting = "if 0 < pt_hl_ack_ns ?pt then gap_ms rx (pt_hl_ack_ns ?pt) else 0"
  obtain ack t1 t2 where sent: "sent = (ack, t1, t2)" by (cases sent)
  have r: "logs = fst (complete_trade E s px sz oid rx fee sent e w)"
    "e' = fst (snd (complete_trade E s px sz oid rx fee sent e w))"
    "w' = snd (snd (complete_trade E s px sz oid rx fee sent e w))"
    by (simp_all add: assms)
  show ?thesis
    by (rule that [of ?clocks ?resting ?c1 ?c2]; cases "journal w")
      (simp_all add: r sent complete_trade_def world_simps Let_def frame_defs add_position_frame
        end_trade_def journal_write_def)
qed

lemma unwind_fill_eq:
  assumes "unwind_fill E s px sz oid rx fee sent msg status ty est tx reason e w = (logs, e', w')"
  obtains t1 t2 clocks ack c1 c2 where "logs \<noteq> []" "same_limiter e e'"
    "same_trading (e\<lparr>active_hl_oid := None, strategy := hl_reset (strategy e)\<rparr>) e'"
    "trace w' = trace w @ [PerfNs t1, HlReduce (hl_coin (en_config e))
       (last_maker_direction e \<noteq> ShortLighterLongHl) sz (dry_run (en_config e)) ack, PerfNs t2] @ clocks"
    "orders_of clocks = []"
    "journal w' = map_option (journal_record (unwind_entry s px sz oid rx fee (snd (snd sent))
       (last_maker_direction e = ShortLighterLongHl) ack ty est tx reason c1 c2)) (journal w)"
proof -
  obtain lack l1 l2 where sent: "sent = (lack, l1, l2)" by (cases sent)
  let ?t1 = "env_perf_ns E (trace w)"
  let ?tr1 = "trace w @ [PerfNs ?t1]"
  let ?buy = "last_maker_direction e \<noteq> ShortLighterLongHl"
  let ?ack = "env_hl_reduce E ?tr1 (hl_coin (en_config e)) ?buy sz (dry_run (en_config e))"
  let ?tr2 = "?tr1 @ [HlReduce (hl_coin (en_config e)) ?buy sz (dry_run (en_config e)) ?ack]"
  let ?t2 = "env_perf_ns E ?tr2"
  let ?c1 = "env_epoch_us E (?tr2 @ [PerfNs ?t2])"
  let ?c2 = "env_epoch_us E (?tr2 @ [PerfNs ?t2, EpochUs ?c1])"
  let ?clocks = "if journal w = None then [] else [EpochUs ?c1, EpochUs ?c2]"
  let ?u = "unwind_fill E s px sz oid rx fee sent msg status ty est tx reason e w"
  have r: "logs = fst ?u" "e' = fst (snd ?u)" "w' = snd (snd ?u)"
    by (simp_all add: assms)
  show ?thesis
    by (rule that [of ?t1 ?ack ?t2 ?clocks ?c1 ?c2]; cases "journal w")
      (simp_all add: r sent unwind_fill_def world_simps Let_def frame_defs
        end_trade_def journal_write_def)
qed

text \<open>The outcome of hedging one fill.\<close>

lemma hedge_fill_cases:
  assumes "hedge_fill E s px sz oid rx fee e w = (logs, e', w')"
  obtains (confirmed) t1 t2 ack clocks resting c1 c2 where
      "lia_ok ack" "lia_fill_confirmed ack" "orders_of clocks = []"
      "trace w' = trace w @ [PerfNs t1,
         LighterIoc (ioc_request e s (last_maker_direction e = ShortLighterLongHl) (D 10) sz) ack,
         PerfNs t2] @ clocks"
      "same_trading (e\<lparr>hl_position_base := traded e sz, active_hl_oid := None,
         strategy := hl_reset (strategy e)\<rparr>) e'"
      "same_limiter e e'" "logs \<noteq> []"
      "journal w' = map_option (journal_record (trade_entry s px sz oid rx fee ack t2
         (last_maker_direction e = ShortLighterLongHl) resting c1 c2)) (journal w)"
  | (unwound) t1 t2 ack u1 u2 unwind clocks ty est tx reason c1 c2 where
      "\<not> (lia_ok ack \<and> lia_fill_confirmed ack)" "orders_of clocks = []"
      "trace w' = trace w @ [PerfNs t1,
         LighterIoc (ioc_request e s (last_maker_direction e = ShortLighterLongHl) (D 10) sz) ack,
         PerfNs t2, PerfNs u1, HlReduce (hl_coin (en_config e))
         (last_maker_direction e \<noteq> ShortLighterLongHl) sz (dry_run (en_config e)) unwind, PerfNs u2] @ clocks"
      "same_trading (e\<lparr>active_hl_oid := None, strategy := hl_reset (strategy e)\<rparr>) e'"
      "same_limiter e e'" "logs \<noteq> []" "ty = (if lia_ok ack then CHR ''U'' else CHR ''F'')"
      "journal w' = map_option (journal_record (unwind_entry s px sz oid rx fee t2
         (last_maker_direction e = ShortLighterLongHl) unwind ty est tx reason c1 c2)) (journal w)"
proof -
  obtain sent e1 w1 where s: "send_fill_hedge E s sz rx e w = (sent, e1, w1)"
    by (cases "send_fill_hedge E s sz rx e w") auto
  obtain t1 t2 where sent: "sent = (fst sent, t1, t2)" and e1: "same_trading e e1" "same_limiter e e1"
    and w1: "journal w1 = journal w" "trace w1 = trace w @ [PerfNs t1,
       LighterIoc (ioc_request e s (last_maker_direction e = ShortLighterLongHl) (D 10) sz) (fst sent),
       PerfNs t2]"
    by (rule send_fill_hedge_eq [OF s])
  have sn: "snd (snd sent) = t2" by (metis sent snd_conv)
  have tr: "traded e1 sz = traded e sz" "last_maker_direction e1 = last_maker_direction e"
    "hl_coin (en_config e1) = hl_coin (en_config e)" "dry_run (en_config e1) = dry_run (en_config e)"
    using e1(1) by (simp_all add: traded_def same_trading_def)
  have st: "same_trading (e\<lparr>hl_position_base := x, active_hl_oid := None,
         strategy := hl_reset (strategy e)\<rparr>) e'" if "same_trading (e1\<lparr>hl_position_base := x,
         active_hl_oid := None, strategy := hl_reset (strategy e1)\<rparr>) e'" for x e'
    using that e1(1) by (simp add: same_trading_def)
  have st': "same_trading (e\<lparr>active_hl_oid := None, strategy := hl_reset (strategy e)\<rparr>) e'"
    if "same_trading (e1\<lparr>active_hl_oid := None, strategy := hl_reset (strategy e1)\<rparr>) e'" for e'
    using that e1(1) by (simp add: same_trading_def)
  have sl: "same_limiter e e'" if "same_limiter e1 e'" for e'
    using that e1(2) by (simp add: same_limiter_def)
  note eq = assms [unfolded hedge_fill_def s Let_def, simplified]
  show ?thesis
  proof (cases "lia_ok (fst sent) \<and> lia_fill_confirmed (fst sent)")
    case True
    with eq have "complete_trade E s px sz oid rx fee sent e1 w1 = (logs, e', w')" by simp
    then show ?thesis
    proof (rule complete_trade_eq)
      fix clocks resting c1 c2
      assume c: "logs \<noteq> []" "same_limiter e1 e'" "same_trading (e1\<lparr>hl_position_base := traded e1 sz,
         active_hl_oid := None, strategy := hl_reset (strategy e1)\<rparr>) e'"
        "trace w' = trace w1 @ clocks" "orders_of clocks = []"
        "journal w' = map_option (journal_record (trade_entry s px sz oid rx fee (fst sent) (snd (snd sent))
           (last_maker_direction e1 = ShortLighterLongHl) resting c1 c2)) (journal w1)"
      show thesis
        by (rule confirmed [of "fst sent" clocks t1 t2 resting c1 c2])
          (use True c st [of "traded e sz"] sl w1 in \<open>simp_all add: tr sn\<close>)
    qed
  next
    case False
    then obtain msg status est tx reason where
      "unwind_fill E s px sz oid rx fee sent msg status
         (if lia_ok (fst sent) then CHR ''U'' else CHR ''F'') est tx reason e1 w1 = (logs, e', w')"
      using eq by (cases "lia_ok (fst sent)") auto
    then show ?thesis
    proof (rule unwind_fill_eq)
      fix u1 u2 clocks ack c1 c2
      assume c: "logs \<noteq> []" "same_limiter e1 e'"
        "same_trading (e1\<lparr>active_hl_oid := None, strategy := hl_reset (strategy e1)\<rparr>) e'"
        "trace w' = trace w1 @ [PerfNs u1, HlReduce (hl_coin (en_config e1))
           (last_maker_direction e1 \<noteq> ShortLighterLongHl) sz (dry_run (en_config e1)) ack, PerfNs u2] @ clocks"
        "orders_of clocks = []"
        "journal w' = map_option (journal_record (unwind_entry s px sz oid rx fee (snd (snd sent))
           (last_maker_direction e1 = ShortLighterLongHl) ack
           (if lia_ok (fst sent) then CHR ''U'' else CHR ''F'') est tx reason c1 c2)) (journal w1)"
      show thesis
        by (rule unwound [of "fst sent" clocks t1 t2 u1 ack u2 _ est tx reason c1 c2])
          (use False c st' sl w1 in \<open>simp_all add: tr sn\<close>)
    qed
  qed
qed

section \<open>Reconciliation of a speculative hedge\<close>

lemma reconcile_cases:
  assumes "reconcile_speculative E s sz oid e w = (logs, e', w')"
  obtains (match) "\<bar>sz - speculative_hedge_size e\<bar> < D (1 / 1000)" "trace w' = trace w"
      "same_trading (clear_speculative (e\<lparr>hl_position_base := traded e sz, active_hl_oid := None,
         recently_placed_oids := recently_placed_oids e - {oid}, strategy := hl_reset (strategy e)\<rparr>)) e'"
  | (correction) ack where "D (1 / 1000) < sz - speculative_hedge_size e"
      "trace w' = trace w @ [LighterIoc (ioc_request e s (last_maker_direction e = ShortLighterLongHl)
         (D 10) (sz - speculative_hedge_size e)) ack]"
      "same_trading (clear_speculative (e\<lparr>hl_position_base := traded e sz, active_hl_oid := None,
         recently_placed_oids := recently_placed_oids e - {oid}, strategy := hl_reset (strategy e)\<rparr>)) e'"
  | (overshoot) ack where "\<not> \<bar>sz - speculative_hedge_size e\<bar> < D (1 / 1000)"
      "\<not> D (1 / 1000) < sz - speculative_hedge_size e"
      "trace w' = trace w @ [LighterIoc (ioc_request e s (last_maker_direction e \<noteq> ShortLighterLongHl)
         (D 15) (- (sz - speculative_hedge_size e))) ack]"
      "same_trading (clear_speculative (e\<lparr>hl_position_base := traded e sz\<rparr>)) e'"
proof -
  let ?r = "reconcile_speculative E s sz oid e w"
  let ?d = "sz - speculative_hedge_size e"
  let ?c = "ioc_request e s (last_maker_direction e = ShortLighterLongHl) (D 10) ?d"
  let ?o = "ioc_request e s (last_maker_direction e \<noteq> ShortLighterLongHl) (D 15) (- ?d)"
  have r: "logs = fst ?r" "e' = fst (snd ?r)" "w' = snd (snd ?r)" by (simp_all add: assms)
  note simps = reconcile_speculative_def reconcile_match_def reconcile_correction_def
    reconcile_overshoot_def world_simps Let_def frame_defs add_position_frame end_trade_def
    clear_speculative_def
  consider "\<bar>?d\<bar> < D (1 / 1000)" | "\<not> \<bar>?d\<bar> < D (1 / 1000)" "D (1 / 1000) < ?d"
    | "\<not> \<bar>?d\<bar> < D (1 / 1000)" "\<not> D (1 / 1000) < ?d" by blast
  then show ?thesis
  proof cases
    case 1
    then show ?thesis by (intro match) (simp_all add: r simps)
  next
    case 2
    then show ?thesis
      by (intro correction [of "env_lighter_ioc E (trace w) ?c"]) (simp_all add: r simps)
  next
    case 3
    then show ?thesis
      by (intro overshoot [of "env_lighter_ioc E (trace w) ?o"]) (simp_all add: r simps)
  qed
qed

lemma reconcile_limiter:
  assumes "reconcile_speculative E s sz oid e w = (logs, e', w')"
  shows "same_limiter e e'" and "logs \<noteq> []" and "journal w' = journal w"
proof -
  let ?r = "reconcile_speculative E s sz oid e w"
  have r: "logs = fst ?r" "e' = fst (snd ?r)" "w' = snd (snd ?r)" by (simp_all add: assms)
  show "same_limiter e e'" "logs \<noteq> []" "journal w' = journal w"
    by (simp_all add: r reconcile_speculative_def reconcile_match_def reconcile_correction_def
        reconcile_overshoot_def world_simps Let_def frame_defs add_position_frame end_trade_def
        clear_speculative_def)
qed

section \<open>Actions\<close>

lemma execute_action_simps:
  "act_type a = PlaceHlMaker \<Longrightarrow> execute_action E a s e w = exec_place_hl_maker E a s e w"
  "act_type a = CancelHlMaker \<Longrightarrow> execute_action E a s e w = exec_cancel_hl_maker E a s e w"
  "act_type a = UnwindHlPosition \<Longrightarrow> execute_action E a s e w = exec_unwind_hl E e w"
  "act_type a = NoAction \<Longrightarrow> execute_action E a s e w = ([], e, w)"
  by (simp_all add: execute_action.simps)

section \<open>Market data\<close>

lemma collect_snapshot_eq:
  assumes "collect_snapshot E c w = (s, w')"
  shows "trace w' = trace w @ [HlBbo (hl_coin c) (hl s), LighterBbo (lighter_market_id c) (lighter s)]"
    and "journal w' = journal w"
  using assms by (auto simp: collect_snapshot_def world_simps Let_def)

lemma on_market_decision_cases:
  assumes "on_market_decision E now s e w = (logs, e', w')"
  obtains (blocked) a h t1 t2 order where
      "hl_on_market_snapshot s now (hl_position_base e) (strategy e) = (a, h)"
      "act_type a = PlaceHlMaker" "act_maker_order a = Some order"
      "position_limit_reached e (mid (hl s))" "would_increase e (po_is_buy order)"
      "logs = []" "trace w' = trace w @ [PerfNs t1, PerfNs t2]" "journal w' = journal w"
      "e' = e\<lparr>strategy := hl_reset h\<rparr>"
  | (decided) a h t1 t2 e2 w2 where
      "hl_on_market_snapshot s now (hl_position_base e) (strategy e) = (a, h)"
      "same_trading (e\<lparr>strategy := h\<rparr>) e2" "same_limiter e e2"
      "trace w2 = trace w @ [PerfNs t1, PerfNs t2]" "journal w2 = journal w"
      "execute_action E a s e2 w2 = (logs, e', w')"
proof -
  obtain a h where r: "hl_on_market_snapshot s now (hl_position_base e) (strategy e) = (a, h)"
    by fastforce
  let ?t1 = "env_perf_ns E (trace w)"
  let ?t2 = "env_perf_ns E (trace w @ [PerfNs ?t1])"
  define w2 where "w2 = snd (perf_now_ns E (snd (perf_now_ns E (hot_path CrossVenueAlignmentMs
      (word_of_int \<bar>quote_age_ms (hl s) - quote_age_ms (lighter s)\<bar>) w))))"
  define w3 where "w3 = hot_path StrategyDecisionNs (?t2 - ?t1) w2"
  have tr: "trace w3 = trace w @ [PerfNs ?t1, PerfNs ?t2]" "journal w3 = journal w"
    by (simp_all add: w3_def w2_def world_simps Let_def)
  have wi: "would_increase (e\<lparr>strategy := h\<rparr>) b = would_increase e b" for b
    by (simp add: would_increase_def)
  have eq: "(logs, e', w') =
    (if act_type a = PlaceHlMaker then
       (if position_limit_reached e (mid (hl s)) \<and> (case act_maker_order a of
              None \<Rightarrow> False | Some order \<Rightarrow> would_increase e (po_is_buy order))
        then ([], e\<lparr>strategy := hl_reset h\<rparr>, w3)
        else execute_action E a s (e\<lparr>strategy := h,
               perf_trace := empty_perf_trace\<lparr>pt_signal_ns := ?t2\<rparr>\<rparr>) w3)
     else if act_type a = CancelHlMaker then
       execute_action E a s (e\<lparr>strategy := h,
         perf_trace := (perf_trace e)\<lparr>pt_cancel_trigger_ns := ?t2\<rparr>\<rparr>) w3
     else execute_action E a s (e\<lparr>strategy := h\<rparr>) w3)"
    unfolding assms [symmetric] by (simp add: on_market_decision_def r Let_def wi perf_now_ns_def w2_def w3_def cong: option.case_cong)
  have st: "same_trading (e\<lparr>strategy := h\<rparr>) (e\<lparr>strategy := h, perf_trace := p\<rparr>)"
    "same_limiter e (e\<lparr>strategy := h, perf_trace := p\<rparr>)"
    "same_trading (e\<lparr>strategy := h\<rparr>) (e\<lparr>strategy := h\<rparr>)" "same_limiter e (e\<lparr>strategy := h\<rparr>)" for p
    by (simp_all add: frame_defs)
  show ?thesis
  proof (cases "act_type a = PlaceHlMaker \<and> position_limit_reached e (mid (hl s))
      \<and> (\<exists>order. act_maker_order a = Some order \<and> would_increase e (po_is_buy order))")
    case True
    then obtain order where "act_maker_order a = Some order" "would_increase e (po_is_buy order)" by blast
    moreover from this eq True have "logs = []" "e' = e\<lparr>strategy := hl_reset h\<rparr>" "w' = w3"
      by simp_all
    ultimately show ?thesis using True tr by (intro blocked [OF r]) simp_all
  next
    case False
    then have nb: "\<not> (act_type a = PlaceHlMaker \<and> position_limit_reached e (mid (hl s))
      \<and> (case act_maker_order a of None \<Rightarrow> False | Some order \<Rightarrow> would_increase e (po_is_buy order)))"
      by (auto split: option.splits)
    obtain e2 where "same_trading (e\<lparr>strategy := h\<rparr>) e2" "same_limiter e e2"
      "execute_action E a s e2 w3 = (logs, e', w')"
    proof (cases "act_type a = PlaceHlMaker")
      case True
      then have "\<not> (position_limit_reached e (mid (hl s)) \<and> (case act_maker_order a of
          None \<Rightarrow> False | Some order \<Rightarrow> would_increase e (po_is_buy order)))"
        using nb by blast
      with eq True have "execute_action E a s (e\<lparr>strategy := h,
               perf_trace := empty_perf_trace\<lparr>pt_signal_ns := ?t2\<rparr>\<rparr>) w3 = (logs, e', w')"
        by (simp del: de_Morgan_conj)
      with st(1,2) show ?thesis by (rule that)
    next
      case False
      show ?thesis
      proof (cases "act_type a = CancelHlMaker")
        case True
        with eq have "execute_action E a s (e\<lparr>strategy := h,
           perf_trace := (perf_trace e)\<lparr>pt_cancel_trigger_ns := ?t2\<rparr>\<rparr>) w3 = (logs, e', w')"
          by simp
        with st(1,2) show ?thesis by (rule that)
      next
        case False
        with eq \<open>act_type a \<noteq> PlaceHlMaker\<close> have
          "execute_action E a s (e\<lparr>strategy := h\<rparr>) w3 = (logs, e', w')" by simp
        with st(3,4) show ?thesis by (rule that)
      qed
    qed
    then show ?thesis using tr by (intro decided [OF r]) 
  qed
qed

lemma on_market_data_cases:
  assumes "on_market_data E now e w = (logs, e', w')"
  obtains (deferred) s w1 a where "collect_snapshot E (en_config e) w = (s, w1)"
      "deferred_hl_action e = Some a"
      "\<not> (case next_retry_steady_ms e of None \<Rightarrow> False | Some t \<Rightarrow> now < t)"
      "execute_action E a s (e\<lparr>deferred_hl_action := None, next_retry_steady_ms := None\<rparr>) w1 = (logs, e', w')"
      "logs \<noteq> []"
  | (deferred_quiet) s w1 a e1 w2 where "collect_snapshot E (en_config e) w = (s, w1)"
      "deferred_hl_action e = Some a"
      "execute_action E a s (e\<lparr>deferred_hl_action := None, next_retry_steady_ms := None\<rparr>) w1 = ([], e1, w2)"
      "on_market_decision E now s e1 w2 = (logs, e', w')"
  | (direct) s w1 where "collect_snapshot E (en_config e) w = (s, w1)"
      "on_market_decision E now s e w1 = (logs, e', w')"
proof -
  obtain s w1 where c: "collect_snapshot E (en_config e) w = (s, w1)" by fastforce
  note eq = assms [unfolded on_market_data_def c Let_def prod.case]
  show ?thesis
  proof (cases "deferred_hl_action e")
    case None
    with eq show ?thesis by (intro direct [OF c]) simp
  next
    case (Some a)
    show ?thesis
    proof (cases "case next_retry_steady_ms e of None \<Rightarrow> False | Some t \<Rightarrow> now < t")
      case True
      with eq Some show ?thesis
        by (intro direct [OF c]) (simp add: execute_deferred_hl_action_def)
    next
      case False
      obtain dl e1 w2 where x: "execute_action E a s (e\<lparr>deferred_hl_action := None,
          next_retry_steady_ms := None\<rparr>) w1 = (dl, e1, w2)" by (rule prod_cases3)
      with eq Some False have "(if dl \<noteq> [] then (dl, e1, w2) else on_market_decision E now s e1 w2) = (logs, e', w')"
        by (simp add: execute_deferred_hl_action_def)
      then show ?thesis
        using x deferred [OF c Some False] deferred_quiet [OF c Some] by (cases "dl = []") auto
    qed
  qed
qed

section \<open>Trade prints\<close>

lemma on_trade_event_cases:
  assumes "on_trade_event E tr e w = (logs, e', w')"
  obtains (ignored) "trace w' = trace w" "same_trading e e'" "same_limiter e e'" "journal w' = journal w"
  | (stale) s where "collect_snapshot E (en_config e) w = (s, w')" "e' = e" "logs = []"
  | (hedged) oid order s w1 t1 t2 ack where "active_hl_oid e = Some oid"
      "pending_maker (strategy e) = Some order" "\<not> speculative_hedge_sent e"
      "\<not> (0 < te_exchange_time_ms tr \<and> 0 < maker_order_placed_epoch_ms e
         \<and> te_exchange_time_ms tr < maker_order_placed_epoch_ms e)"
      "trade_crosses (en_config e) order tr"
      "collect_snapshot E (en_config e) w = (s, w1)"
      "snapshot_valid s (max_quote_age_ms (ec_strategy (en_config e)))"
      "trace w' = trace w1 @ [PerfNs t1,
         LighterIoc (ioc_request e s (po_direction order = ShortLighterLongHl) (D 15) (po_size_base order)) ack,
         PerfNs t2]"
      "same_trading (if lia_ok ack \<and> lia_fill_confirmed ack
         then e\<lparr>speculative_hedge_sent := True, speculative_hedge_size := po_size_base order,
                speculative_hedge_oid := oid\<rparr>
         else clear_speculative e) e'"
      "same_limiter e e'" "journal w' = journal w"
proof -
  have ref: "same_trading e e" "same_limiter e e"
    "same_trading e (e\<lparr>skip_count := n\<rparr>)" "same_limiter e (e\<lparr>skip_count := n\<rparr>)" for n
    by (simp_all add: frame_defs)
  let ?r = "on_trade_event E tr e w"
  have r: "logs = fst ?r" "e' = fst (snd ?r)" "w' = snd (snd ?r)" by (simp_all add: assms)
  show ?thesis
  proof (cases "active_hl_oid e = None \<or> pending_maker (strategy e) = None
      \<or> speculative_hedge_sent e \<or> (0 < te_exchange_time_ms tr \<and> 0 < maker_order_placed_epoch_ms e
         \<and> te_exchange_time_ms tr < maker_order_placed_epoch_ms e)
      \<or> (\<exists>order. pending_maker (strategy e) = Some order \<and> \<not> trade_crosses (en_config e) order tr)")
    case True
    then show ?thesis
      by (intro ignored; cases "active_hl_oid e"; cases "pending_maker (strategy e)")
        (auto simp: r on_trade_event_def skip_trade_def Let_def ref)
  next
    case False
    then obtain oid order where p: "active_hl_oid e = Some oid" "pending_maker (strategy e) = Some order"
      "\<not> speculative_hedge_sent e" "trade_crosses (en_config e) order tr"
      "\<not> (0 < te_exchange_time_ms tr \<and> 0 < maker_order_placed_epoch_ms e
         \<and> te_exchange_time_ms tr < maker_order_placed_epoch_ms e)" by auto
    obtain s w1 where c: "collect_snapshot E (en_config e) w = (s, w1)" by fastforce
    have eq: "?r = (if \<not> snapshot_valid s (max_quote_age_ms (ec_strategy (en_config e))) then ([], e, w1)
       else send_speculative_hedge E s order oid tr e w1)"
      unfolding on_trade_event_def using p c by (simp del: de_Morgan_conj)
    show ?thesis
    proof (cases "snapshot_valid s (max_quote_age_ms (ec_strategy (en_config e)))")
      case False
      with eq c show ?thesis by (intro stale [of s]) (simp_all add: r)
    next
      case True
      let ?t1 = "env_perf_ns E (trace w1)"
      let ?req = "ioc_request e s (po_direction order = ShortLighterLongHl) (D 15) (po_size_base order)"
      let ?ack = "env_lighter_ioc E (trace w1 @ [PerfNs ?t1]) ?req"
      let ?t2 = "env_perf_ns E (trace w1 @ [PerfNs ?t1, LighterIoc ?req ?ack])"
      from eq True have "?r = send_speculative_hedge E s order oid tr e w1" by simp
      then show ?thesis
        using collect_snapshot_eq [OF c]
        by (intro hedged [OF p(1,2,3,5,4) c True, of ?t1 ?ack ?t2])
          (simp_all add: r send_speculative_hedge_def world_simps Let_def frame_defs clear_speculative_def)
    qed
  qed
qed

end
