(* ===== verification/Engine_Hl_Run.thy ===== *)
theory Engine_Hl_Run
  imports Engine_Hl_Steps
begin

text \<open>
  Runs of the Hyperliquid-maker engine over its public methods: the invariant every run
  keeps, and the rate limiter's contract, by which placements and cancels are spaced.
\<close>

section \<open>Runs\<close>

datatype engine_event =
    MarketData i64
  | HlFill double double spread_snapshot string u64 double
  | TradePrint trade_event
  | LighterHedgeReject
  | LighterHedgeFill double
  | SetPosition double

fun engine_step :: "env \<Rightarrow> engine_event \<Rightarrow> engine \<Rightarrow> world \<Rightarrow> engine logged" where
  "engine_step E (MarketData now) e w = on_market_data E now e w"
| "engine_step E (HlFill px sz s oid rx fee) e w = on_hl_fill E px sz s oid rx fee e w"
| "engine_step E (TradePrint tr) e w = on_trade_event E tr e w"
| "engine_step E LighterHedgeReject e w = engine_on_lighter_hedge_reject E e w"
| "engine_step E (LighterHedgeFill px) e w = ([], engine_on_lighter_hedge_fill px e, w)"
| "engine_step E (SetPosition x) e w = ([], set_hl_position x e, w)"

fun run_engine :: "env \<Rightarrow> engine_event list \<Rightarrow> engine \<Rightarrow> world \<Rightarrow> engine \<times> world" where
  "run_engine E [] e w = (e, w)"
| "run_engine E (ev # evs) e w =
     (let (logs, e, w) = engine_step E ev e w in run_engine E evs e w)"

section \<open>Invariant\<close>

text \<open>
  The order the engine believes live is the one whose fills it accepts; a speculative hedge
  belongs to that order; a deferred action is a placement or a cancel with its order.
\<close>

definition action_ok :: "action \<Rightarrow> bool" where
  "action_ok a \<longleftrightarrow> (act_type a = PlaceHlMaker \<or> act_type a = CancelHlMaker)
     \<and> (\<exists>order. act_maker_order a = Some order \<and> hl_order_ok order)"

definition engine_inv :: "engine \<Rightarrow> bool" where
  "engine_inv e \<longleftrightarrow> hl_inv (strategy e) \<and> config (strategy e) = ec_strategy (en_config e)
     \<and> (\<forall>oid. active_hl_oid e = Some oid \<longrightarrow> recently_placed_oids e = {oid})
     \<and> (speculative_hedge_sent e \<longrightarrow> active_hl_oid e = Some (speculative_hedge_oid e))
     \<and> (\<forall>a. deferred_hl_action e = Some a \<longrightarrow> action_ok a)"

lemma engine_inv_new: "engine_new c = Inr e \<Longrightarrow> engine_inv e \<and> en_config e = c"
proof -
  assume "engine_new c = Inr e"
  then have "strategy e = initial_hedger (ec_strategy c)" "active_hl_oid e = None"
    "\<not> speculative_hedge_sent e" "deferred_hl_action e = None" "en_config e = c"
    by (auto simp: engine_new_def hl_hedger_new_def split: if_splits)
  moreover have "config (initial_hedger (ec_strategy c)) = ec_strategy c"
    by (simp add: initial_hedger_def)
  ultimately show ?thesis by (simp add: engine_inv_def hl_inv_initial)
qed

lemma engine_inv_frame:
  "same_trading e e' \<Longrightarrow> same_limiter e e' \<Longrightarrow> engine_inv e \<Longrightarrow> engine_inv e'"
  by (simp add: engine_inv_def frame_defs)

lemma engine_inv_defer:
  "engine_inv e \<Longrightarrow> action_ok a \<Longrightarrow>
     engine_inv (e\<lparr>deferred_hl_action := Some a, next_retry_steady_ms := r\<rparr>)"
  "engine_inv e \<Longrightarrow> engine_inv (e\<lparr>deferred_hl_action := None, next_retry_steady_ms := r\<rparr>)"
  "engine_inv e \<Longrightarrow> engine_inv (e\<lparr>last_hl_place_ms := t, next_retry_steady_ms := r,
     deferred_hl_action := None\<rparr>)"
  "engine_inv e \<Longrightarrow> engine_inv (e\<lparr>last_hl_cancel_ms := t, next_retry_steady_ms := r,
     deferred_hl_action := None\<rparr>)"
  by (simp_all add: engine_inv_def)

lemma hl_reset_inv [simp]: "hl_inv (hl_reset h)" "config (hl_reset h) = config h"
  "state (hl_reset h) = Idle" "pending_maker (hl_reset h) = None"
  by (simp_all add: hl_inv_def hl_reset_def hl_gate_ok_def disarmed_gate_def)

lemma engine_inv_reset: "engine_inv e \<Longrightarrow> engine_inv (e\<lparr>strategy := hl_reset (strategy e)\<rparr>)"
  by (simp add: engine_inv_def)

lemma engine_inv_end:
  assumes "engine_inv e" and "same_limiter e e'"
    and "same_trading (clear_speculative (e\<lparr>hl_position_base := x, active_hl_oid := None,
       recently_placed_oids := R, strategy := hl_reset (strategy e)\<rparr>)) e'"
  shows "engine_inv e'"
  using assms by (simp add: engine_inv_def frame_defs clear_speculative_def)

lemma engine_inv_place:
  assumes "engine_inv e" and "act_type a = PlaceHlMaker" and "action_ok a"
    and "exec_place_hl_maker E a s e w = (logs, e', w')"
  shows "engine_inv e' \<and> en_config e' = en_config e"
  using assms(4)
proof (cases rule: exec_place_cases)
  case blocked
  with assms(1) show ?thesis by (simp add: engine_inv_reset)
next
  case (deferred now retry)
  with assms show ?thesis by (simp add: engine_inv_defer)
next
  case (sent now)
  let ?e = "e\<lparr>last_hl_place_ms := now, next_retry_steady_ms := None, deferred_hl_action := None\<rparr>"
  have inv: "engine_inv ?e" using assms(1) by (rule engine_inv_defer)
  from sent(3) show ?thesis
  proof (cases rule: send_hl_maker_cases)
    case placed
    with inv show ?thesis by (simp add: engine_inv_def frame_defs clear_speculative_def)
  next
    case failed
    with inv engine_inv_frame [of ?e e'] show ?thesis by (simp add: same_trading_def)
  qed
qed

lemma engine_inv_cancel:
  assumes "engine_inv e" and "act_type a = CancelHlMaker" and "action_ok a"
    and "exec_cancel_hl_maker E a s e w = (logs, e', w')"
  shows "engine_inv e' \<and> en_config e' = en_config e"
  using assms(4)
proof (cases rule: exec_cancel_cases)
  case (deferred now retry)
  with assms show ?thesis by (simp add: engine_inv_defer)
next
  case (no_oid now)
  with assms(1) show ?thesis by (simp add: engine_inv_defer)
next
  case (sent now oid)
  let ?e = "e\<lparr>last_hl_cancel_ms := now, next_retry_steady_ms := None, deferred_hl_action := None\<rparr>"
  have inv: "engine_inv ?e" using assms(1) by (rule engine_inv_defer)
  from sent(3) show ?thesis
  proof (cases rule: send_hl_cancel_cases)
    case cancelled
    with inv show ?thesis by (simp add: engine_inv_def frame_defs clear_speculative_def)
  next
    case failed
    with inv engine_inv_frame [of ?e e'] show ?thesis by (simp add: same_trading_def)
  qed
qed

lemma engine_inv_execute:
  assumes "engine_inv e" and "action_ok a \<or> act_type a \<in> {NoAction, UnwindHlPosition}"
    and "execute_action E a s e w = (logs, e', w')"
  shows "engine_inv e' \<and> en_config e' = en_config e"
  using assms(2)
proof
  assume ok: "action_ok a"
  then consider "act_type a = PlaceHlMaker" | "act_type a = CancelHlMaker"
    by (auto simp: action_ok_def)
  then show ?thesis
    using engine_inv_place [OF assms(1) _ ok] engine_inv_cancel [OF assms(1) _ ok] assms(3)
    by cases (auto simp: execute_action_simps)
next
  assume "act_type a \<in> {NoAction, UnwindHlPosition}"
  then show ?thesis
    using assms(1,3) by (auto simp: execute_action_simps elim: exec_unwind_hl_eq)
qed

text \<open>What a snapshot makes the hedger ask for is always executable.\<close>

lemma snapshot_action_ok:
  assumes "hl_inv h" and "hl_on_market_snapshot s now pos h = (a, h')"
  shows "action_ok a \<or> act_type a \<in> {NoAction, UnwindHlPosition}"
proof -
  have "hl_inv h'" by (rule hl_inv_market_snapshot [OF assms])
  with assms(2) show ?thesis
    using assms(1) by (cases rule: hl_on_market_snapshot_cases) (simp_all add: action_ok_def hl_inv_def)
qed

lemma engine_inv_decision:
  assumes "engine_inv e" and "on_market_decision E now s e w = (logs, e', w')"
  shows "engine_inv e' \<and> en_config e' = en_config e"
  using assms(2)
proof (cases rule: on_market_decision_cases)
  case (blocked a h t1 t2 order)
  have "config h = config (strategy e)" using hl_market_pending(1) [OF blocked(1)] .
  with blocked assms(1) show ?thesis by (simp add: engine_inv_def)
next
  case (decided a h t1 t2 e2 w2)
  have "hl_inv (strategy e)" using assms(1) by (simp add: engine_inv_def)
  then have h: "hl_inv h" "config h = config (strategy e)"
    and ok: "action_ok a \<or> act_type a \<in> {NoAction, UnwindHlPosition}"
    using hl_inv_market_snapshot [OF _ decided(1)] hl_market_pending(1) [OF decided(1)]
      snapshot_action_ok [OF _ decided(1)] by blast+
  have "engine_inv (e\<lparr>strategy := h\<rparr>)" using assms(1) h by (simp add: engine_inv_def)
  then have "engine_inv e2"
    using decided(2,3) engine_inv_frame [of "e\<lparr>strategy := h\<rparr>" e2] by (simp add: same_limiter_def)
  with engine_inv_execute [OF _ ok decided(6)] decided(2) show ?thesis by (simp add: same_trading_def)
qed

lemma engine_inv_market_data:
  assumes "engine_inv e" and "on_market_data E now e w = (logs, e', w')"
  shows "engine_inv e' \<and> en_config e' = en_config e"
  using assms(2)
proof (cases rule: on_market_data_cases)
  case (deferred s w1 a)
  have "action_ok a" using assms(1) deferred(2) by (simp add: engine_inv_def)
  with engine_inv_execute [OF engine_inv_defer(2) [OF assms(1)] _ deferred(4)] show ?thesis by simp
next
  case (deferred_quiet s w1 a e1 w2)
  have "action_ok a" using assms(1) deferred_quiet(2) by (simp add: engine_inv_def)
  with engine_inv_execute [OF engine_inv_defer(2) [OF assms(1)] _ deferred_quiet(3)]
  have "engine_inv e1" "en_config e1 = en_config e" by simp_all
  with engine_inv_decision [OF _ deferred_quiet(4)] show ?thesis by simp
next
  case (direct s w1)
  with assms(1) engine_inv_decision show ?thesis by blast
qed

lemma engine_inv_fill:
  assumes "engine_inv e" and "on_hl_fill E px sz s oid rx fee e w = (logs, e', w')"
  shows "engine_inv e' \<and> en_config e' = en_config e"
proof -
  consider "oid \<notin> recently_placed_oids e"
    | "oid \<in> recently_placed_oids e" "speculative_hedge_sent e" "oid = speculative_hedge_oid e"
    | "oid \<in> recently_placed_oids e" "\<not> (speculative_hedge_sent e \<and> oid = speculative_hedge_oid e)"
    by blast
  then show ?thesis
  proof cases
    case 1
    with assms show ?thesis by (simp add: on_hl_fill_def)
  next
    case 2
    with assms(2) have r: "reconcile_speculative E s sz oid e w = (logs, e', w')"
      by (simp add: on_hl_fill_def)
    note l = reconcile_limiter(1) [OF r]
    from r show ?thesis
    proof (cases rule: reconcile_cases)
      case match
      with engine_inv_end [OF assms(1) l] show ?thesis
        by (simp add: same_trading_def clear_speculative_def)
    next
      case correction
      with engine_inv_end [OF assms(1) l] show ?thesis
        by (simp add: same_trading_def clear_speculative_def)
    next
      case overshoot
      with assms(1) l show ?thesis by (simp add: engine_inv_def frame_defs clear_speculative_def)
    qed
  next
    case 3
    with assms(2) have r: "hedge_fill E s px sz oid rx fee e w = (logs, e', w')"
      by (auto simp: on_hl_fill_def)
    have "\<not> speculative_hedge_sent e" using 3 assms(1) by (auto simp: engine_inv_def)
    with r assms(1) show ?thesis
      by (cases rule: hedge_fill_cases) (simp_all add: engine_inv_def frame_defs)
  qed
qed

lemma engine_inv_trade:
  assumes "engine_inv e" and "on_trade_event E tr e w = (logs, e', w')"
  shows "engine_inv e' \<and> en_config e' = en_config e"
  using assms(2)
proof (cases rule: on_trade_event_cases)
  case ignored
  with assms(1) engine_inv_frame show ?thesis by (auto simp: same_trading_def)
next
  case stale
  with assms(1) show ?thesis by simp
next
  case (hedged oid order s w1 t1 t2 ack)
  with assms(1) show ?thesis
    by (auto simp: engine_inv_def frame_defs clear_speculative_def split: if_splits)
qed

lemma hedge_outcome_inv:
  assumes "hl_inv h"
  shows "hl_inv (snd (on_lighter_hedge_reject h))" "config (snd (on_lighter_hedge_reject h)) = config h"
    and "hl_inv (on_lighter_hedge_fill px h)" "config (on_lighter_hedge_fill px h) = config h"
  using hl_inv_step [OF assms, of HedgeReject] hl_inv_step [OF assms, of "HedgeFill px"]
  by (auto simp: on_lighter_hedge_reject_def on_lighter_hedge_fill_def split: option.splits)

lemma engine_inv_step:
  assumes "engine_inv e" and "engine_step E ev e w = (logs, e', w')"
  shows "engine_inv e' \<and> en_config e' = en_config e"
proof (cases ev)
  case (MarketData now)
  with assms engine_inv_market_data show ?thesis by simp
next
  case (HlFill px sz s oid rx fee)
  with assms engine_inv_fill show ?thesis by simp
next
  case (TradePrint tr)
  with assms engine_inv_trade show ?thesis by simp
next
  case LighterHedgeReject
  let ?h = "snd (on_lighter_hedge_reject (strategy e))"
  have "hl_inv ?h" "config ?h = config (strategy e)"
    using hedge_outcome_inv assms(1) by (simp_all add: engine_inv_def)
  then have inv: "engine_inv (e\<lparr>strategy := ?h\<rparr>)" using assms(1) by (simp add: engine_inv_def)
  obtain s w1 where c: "collect_snapshot E (en_config e) w = (s, w1)" by fastforce
  with LighterHedgeReject assms(2) have
    "execute_action E (fst (on_lighter_hedge_reject (strategy e))) s (e\<lparr>strategy := ?h\<rparr>) w1 = (logs, e', w')"
    by (simp add: engine_on_lighter_hedge_reject_def Let_def)
  from engine_inv_execute [OF inv disjI2 [OF reject_action_type] this] show ?thesis by simp
next
  case (LighterHedgeFill px)
  have "hl_inv (on_lighter_hedge_fill px (strategy e))"
    "config (on_lighter_hedge_fill px (strategy e)) = config (strategy e)"
    using hedge_outcome_inv assms(1) by (simp_all add: engine_inv_def)
  with LighterHedgeFill assms show ?thesis
    by (auto simp: engine_inv_def engine_on_lighter_hedge_fill_def)
next
  case (SetPosition x)
  with assms show ?thesis by (auto simp: engine_inv_def set_hl_position_def)
qed

lemma engine_inv_run:
  "engine_inv e \<Longrightarrow> run_engine E evs e w = (e', w') \<Longrightarrow> engine_inv e' \<and> en_config e' = en_config e"
proof (induction evs arbitrary: e w)
  case (Cons ev evs)
  obtain logs e1 w1 where s: "engine_step E ev e w = (logs, e1, w1)" by (rule prod_cases3)
  with Cons.prems have "run_engine E evs e1 w1 = (e', w')" by simp
  with Cons.IH engine_inv_step [OF Cons.prems(1) s] show ?case by metis
qed simp

section \<open>The rate limiters\<close>

fun is_hl_limit :: "venue_event \<Rightarrow> bool" where
  "is_hl_limit (HlLimit _ _) = True"
| "is_hl_limit _ = False"

fun is_hl_cancel :: "venue_event \<Rightarrow> bool" where
  "is_hl_cancel (HlCancel _ _ _ _) = True"
| "is_hl_cancel _ = False"

definition place_limited :: "engine \<Rightarrow> world \<Rightarrow> engine \<Rightarrow> world \<Rightarrow> bool" where
  "place_limited e w e' w' \<longleftrightarrow>
     quiet_step is_hl_limit w w' \<and> (last_hl_place_ms e' = last_hl_place_ms e
         \<or> hl_order_interval_ms (en_config e) \<le> last_hl_place_ms e' - last_hl_place_ms e)
     \<or> timed_step is_hl_limit (last_hl_place_ms e') w w'
       \<and> hl_order_interval_ms (en_config e) \<le> last_hl_place_ms e' - last_hl_place_ms e"

definition cancel_limited :: "engine \<Rightarrow> world \<Rightarrow> engine \<Rightarrow> world \<Rightarrow> bool" where
  "cancel_limited e w e' w' \<longleftrightarrow>
     quiet_step is_hl_cancel w w' \<and> (last_hl_cancel_ms e' = last_hl_cancel_ms e
         \<or> hl_order_interval_ms (en_config e) \<le> last_hl_cancel_ms e' - last_hl_cancel_ms e)
     \<or> timed_step is_hl_cancel (last_hl_cancel_ms e') w w'
       \<and> hl_order_interval_ms (en_config e) \<le> last_hl_cancel_ms e' - last_hl_cancel_ms e"

definition limited :: "engine \<Rightarrow> world \<Rightarrow> engine \<Rightarrow> world \<Rightarrow> bool" where
  "limited e w e' w' \<longleftrightarrow> place_limited e w e' w' \<and> cancel_limited e w e' w'"

lemmas limited_defs = limited_def place_limited_def cancel_limited_def

lemma limited_quiet:
  assumes "trace w' = trace w @ tr" and "\<forall>ev \<in> set tr. \<not> is_hl_limit ev \<and> \<not> is_hl_cancel ev"
    and "last_hl_place_ms e' = last_hl_place_ms e" and "last_hl_cancel_ms e' = last_hl_cancel_ms e"
  shows "limited e w e' w'"
  using assms by (simp add: limited_defs quiet_append)

lemma limited_prefix:
  assumes "limited e1 w1 e' w'" and "trace w1 = trace w @ tr"
    and "\<forall>ev \<in> set tr. \<not> is_hl_limit ev \<and> \<not> is_hl_cancel ev"
    and "last_hl_place_ms e1 = last_hl_place_ms e" "last_hl_cancel_ms e1 = last_hl_cancel_ms e"
    and "en_config e1 = en_config e"
  shows "limited e w e' w'"
  using assms quiet_prefix [OF assms(2), of is_hl_limit] quiet_prefix [OF assms(2), of is_hl_cancel]
  by (auto simp: limited_defs)

lemma retry_none:
  "hl_place_retry_at_ms e now = None \<longleftrightarrow> hl_order_interval_ms (en_config e) \<le> now - last_hl_place_ms e"
  "hl_cancel_retry_at_ms e now = None \<longleftrightarrow> hl_order_interval_ms (en_config e) \<le> now - last_hl_cancel_ms e"
  by (simp_all add: hl_place_retry_at_ms_def hl_cancel_retry_at_ms_def Let_def)

lemma limited_place:
  assumes "exec_place_hl_maker E a s e w = (logs, e', w')"
  shows "limited e w e' w'"
  using assms
proof (cases rule: exec_place_cases)
  case blocked
  then show ?thesis by (intro limited_quiet [of _ _ "[]"]) simp_all
next
  case (deferred now retry)
  then show ?thesis by (intro limited_quiet [of _ _ "[SteadyMs now]"]) simp_all
next
  case (sent now)
  let ?e = "e\<lparr>last_hl_place_ms := now, next_retry_steady_ms := None, deferred_hl_action := None\<rparr>"
  have i: "hl_order_interval_ms (en_config e) \<le> now - last_hl_place_ms e"
    using sent(2) by (simp add: retry_none)
  from sent(3) show ?thesis
  proof (cases rule: send_hl_maker_cases)
    case (placed t1 t2 t3 ack)
    have tr: "trace w' = trace w @ [SteadyMs now, PerfNs t1,
        HlLimit (hl_limit_request ?e (the (act_maker_order a))) ack, PerfNs t2, EpochMs t3]"
      using placed(2) by simp
    with i placed(4) show ?thesis
      by (simp add: limited_defs quiet_append [OF tr] timed_append [OF tr] same_limiter_def)
  next
    case (failed t1 t2 ack)
    have tr: "trace w' = trace w @ [SteadyMs now, PerfNs t1,
        HlLimit (hl_limit_request ?e (the (act_maker_order a))) ack, PerfNs t2]"
      using failed(2) by simp
    with i failed(4) show ?thesis
      by (simp add: limited_defs quiet_append [OF tr] timed_append [OF tr] same_limiter_def)
  qed
qed

lemma limited_cancel:
  assumes "exec_cancel_hl_maker E a s e w = (logs, e', w')"
  shows "limited e w e' w'"
  using assms
proof (cases rule: exec_cancel_cases)
  case (deferred now retry)
  then show ?thesis by (intro limited_quiet [of _ _ "[SteadyMs now]"]) simp_all
next
  case (no_oid now)
  have "hl_order_interval_ms (en_config e) \<le> now - last_hl_cancel_ms e"
    using no_oid(1) by (simp add: retry_none)
  moreover have tr: "trace w' = trace w @ [SteadyMs now]" using no_oid(4) by simp
  ultimately show ?thesis
    using no_oid(5) by (simp add: limited_defs quiet_append [OF tr] timed_append [OF tr])
next
  case (sent now oid)
  let ?e = "e\<lparr>last_hl_cancel_ms := now, next_retry_steady_ms := None, deferred_hl_action := None\<rparr>"
  have i: "hl_order_interval_ms (en_config e) \<le> now - last_hl_cancel_ms e"
    using sent(1) by (simp add: retry_none)
  have u: "\<forall>ev \<in> set (cancel_unwind x s ack'). \<not> is_hl_limit ev \<and> \<not> is_hl_cancel ev"
    "stamps is_hl_cancel n (cancel_unwind x s ack') = []" for x ack' n
    by (simp_all add: cancel_unwind_def)
  from sent(3) show ?thesis
  proof (cases rule: send_hl_cancel_cases)
    case (cancelled t1 t2 ack ack')
    have tr: "trace w' = trace w @ [SteadyMs now, PerfNs t1, HlCancel (hl_coin (en_config e)) oid
        (dry_run (en_config e)) ack, PerfNs t2] @ cancel_unwind ?e s ack'"
      using cancelled(2) by simp
    with i u cancelled(4) show ?thesis
      by (auto simp: limited_defs quiet_append [OF tr] timed_append [OF tr] same_limiter_def)
  next
    case (failed t1 t2 ack)
    have tr: "trace w' = trace w @ [SteadyMs now, PerfNs t1, HlCancel (hl_coin (en_config e)) oid
        (dry_run (en_config e)) ack, PerfNs t2]"
      using failed(2) by simp
    with i failed(4) show ?thesis
      by (simp add: limited_defs quiet_append [OF tr] timed_append [OF tr] same_limiter_def)
  qed
qed

lemma limited_execute:
  assumes "action_ok a \<or> act_type a \<in> {NoAction, UnwindHlPosition}"
    and "execute_action E a s e w = (logs, e', w')"
  shows "limited e w e' w'"
proof -
  from assms(1) consider "act_type a = PlaceHlMaker" | "act_type a = CancelHlMaker"
    | "act_type a = NoAction" | "act_type a = UnwindHlPosition" by (auto simp: action_ok_def)
  then show ?thesis
  proof cases
    case 3
    with assms(2) show ?thesis by (intro limited_quiet [of _ _ "[]"]) (auto simp: execute_action_simps)
  next
    case 4
    with assms(2) have "exec_unwind_hl E e w = (logs, e', w')" by (simp add: execute_action_simps)
    then show ?thesis by (rule exec_unwind_hl_eq) (rule limited_quiet, auto)
  qed (use assms(2) limited_place limited_cancel in \<open>auto simp: execute_action_simps\<close>)
qed

lemma limited_decision:
  assumes "hl_inv (strategy e)" and "on_market_decision E now s e w = (logs, e', w')"
  shows "limited e w e' w'"
  using assms(2)
proof (cases rule: on_market_decision_cases)
  case (blocked a h t1 t2 order)
  then show ?thesis by (intro limited_quiet [of _ _ "[PerfNs t1, PerfNs t2]"]) simp_all
next
  case (decided a h t1 t2 e2 w2)
  have "limited e2 w2 e' w'"
    by (rule limited_execute [OF snapshot_action_ok [OF assms(1) decided(1)] decided(6)])
  from limited_prefix [OF this decided(4)] decided(2,3) show ?thesis by (simp add: frame_defs)
qed

text \<open>An execution that logs nothing has sent nothing: it was blocked or deferred.\<close>

lemma silent_execution:
  assumes "action_ok a" and "execute_action E a s e w = ([], e1, w1)"
  obtains tr where "trace w1 = trace w @ tr" "orders_of tr = []" "journal w1 = journal w"
    "en_config e1 = en_config e" "hl_position_base e1 = hl_position_base e"
    "active_hl_oid e1 = active_hl_oid e" "recently_placed_oids e1 = recently_placed_oids e"
    "last_hl_place_ms e1 = last_hl_place_ms e" "last_hl_cancel_ms e1 = last_hl_cancel_ms e"
    "strategy e1 = strategy e \<and> deferred_hl_action e1 = Some a
      \<or> act_type a = PlaceHlMaker \<and> strategy e1 = hl_reset (strategy e) \<and> deferred_hl_action e1 = deferred_hl_action e"
proof -
  from assms(1) consider "act_type a = PlaceHlMaker" | "act_type a = CancelHlMaker"
    by (auto simp: action_ok_def)
  then show ?thesis
  proof cases
    case 1
    with assms(2) have "exec_place_hl_maker E a s e w = ([], e1, w1)"
      by (simp add: execute_action_simps)
    then show ?thesis
    proof (cases rule: exec_place_cases)
      case blocked
      with 1 show ?thesis by (intro that [of "[]"]) simp_all
    next
      case (deferred now retry)
      then show ?thesis by (intro that [of "[SteadyMs now]"]) simp_all
    next
      case (sent now)
      from sent(3) show ?thesis by (cases rule: send_hl_maker_cases) simp_all
    qed
  next
    case 2
    with assms(2) have "exec_cancel_hl_maker E a s e w = ([], e1, w1)"
      by (simp add: execute_action_simps)
    then show ?thesis
    proof (cases rule: exec_cancel_cases)
      case (deferred now retry)
      then show ?thesis by (intro that [of "[SteadyMs now]"]) simp_all
    next
      case no_oid
      then show ?thesis by simp
    next
      case (sent now oid)
      from sent(3) show ?thesis by (cases rule: send_hl_cancel_cases) simp_all
    qed
  qed
qed

lemma no_orders_quiet:
  "orders_of tr = [] \<Longrightarrow> \<forall>ev \<in> set tr. \<not> is_hl_limit ev \<and> \<not> is_hl_cancel ev"
proof
  fix ev
  assume "orders_of tr = []" "ev \<in> set tr"
  then have "\<not> is_order ev" by (auto simp: orders_of_def filter_empty_conv)
  then show "\<not> is_hl_limit ev \<and> \<not> is_hl_cancel ev" by (cases ev) simp_all
qed

lemma limited_market_data:
  assumes inv: "engine_inv e" and "on_market_data E now e w = (logs, e', w')"
  shows "limited e w e' w'"
  using assms(2)
proof (cases rule: on_market_data_cases)
  case (deferred s w1 a)
  have ok: "action_ok a \<or> act_type a \<in> {NoAction, UnwindHlPosition}"
    using inv deferred(2) by (simp add: engine_inv_def)
  from limited_prefix [OF limited_execute [OF ok deferred(4)] collect_snapshot_eq(1) [OF deferred(1)]]
  show ?thesis by simp
next
  case (deferred_quiet s w1 a e1 w2)
  have ok: "action_ok a" using inv deferred_quiet(2) by (simp add: engine_inv_def)
  have inv1: "engine_inv e1"
    using engine_inv_execute [OF engine_inv_defer(2) [OF inv] disjI1 [OF ok] deferred_quiet(3)] by simp
  from ok deferred_quiet(3) obtain tr where tr: "trace w2 = trace w1 @ tr" "orders_of tr = []"
    "en_config e1 = en_config e" "last_hl_place_ms e1 = last_hl_place_ms e"
    "last_hl_cancel_ms e1 = last_hl_cancel_ms e"
    by (rule silent_execution) simp
  have t: "trace w2 = trace w @ (HlBbo (hl_coin (en_config e)) (hl s)
      # LighterBbo (lighter_market_id (en_config e)) (lighter s) # tr)"
    using tr(1) collect_snapshot_eq(1) [OF deferred_quiet(1)] by simp
  have "limited e1 w2 e' w'"
    using inv1 deferred_quiet(4) by (intro limited_decision) (simp_all add: engine_inv_def)
  from limited_prefix [OF this t] no_orders_quiet [OF tr(2)] tr(3-5) show ?thesis by simp
next
  case (direct s w1)
  have "limited e w1 e' w'"
    using inv direct(2) by (intro limited_decision) (simp_all add: engine_inv_def)
  from limited_prefix [OF this collect_snapshot_eq(1) [OF direct(1)]] show ?thesis by simp
qed

lemma limited_fill:
  assumes "on_hl_fill E px sz s oid rx fee e w = (logs, e', w')"
  shows "limited e w e' w'"
proof -
  consider "oid \<notin> recently_placed_oids e"
    | "oid \<in> recently_placed_oids e" "speculative_hedge_sent e" "oid = speculative_hedge_oid e"
    | "oid \<in> recently_placed_oids e" "\<not> (speculative_hedge_sent e \<and> oid = speculative_hedge_oid e)"
    by blast
  then show ?thesis
  proof cases
    case 1
    with assms show ?thesis by (intro limited_quiet [of _ _ "[]"]) (simp_all add: on_hl_fill_def)
  next
    case 2
    with assms have r: "reconcile_speculative E s sz oid e w = (logs, e', w')"
      by (simp add: on_hl_fill_def)
    note l = reconcile_limiter(1) [OF r, unfolded same_limiter_def]
    from r show ?thesis
      by (cases rule: reconcile_cases)
        (use l in \<open>auto intro: limited_quiet [of _ _ "[]"] limited_quiet [of _ _ "[x]" for x]\<close>)
  next
    case 3
    with assms have "hedge_fill E s px sz oid rx fee e w = (logs, e', w')"
      by (auto simp: on_hl_fill_def)
    then show ?thesis
    proof (cases rule: hedge_fill_cases)
      case (confirmed t1 t2 ack clocks)
      then show ?thesis
        using no_orders_quiet [OF confirmed(3)]
        by (intro limited_quiet [OF confirmed(4)]) (auto simp: same_limiter_def)
    next
      case (unwound t1 t2 ack u1 u2 unwind clocks)
      then show ?thesis
        using no_orders_quiet [OF unwound(2)]
        by (intro limited_quiet [OF unwound(3)]) (auto simp: same_limiter_def)
    qed
  qed
qed

lemma limited_trade:
  assumes "on_trade_event E tr e w = (logs, e', w')"
  shows "limited e w e' w'"
  using assms
proof (cases rule: on_trade_event_cases)
  case ignored
  then show ?thesis by (intro limited_quiet [of _ _ "[]"]) (simp_all add: same_limiter_def)
next
  case (stale s)
  from collect_snapshot_eq(1) [OF stale(1)] stale(2) show ?thesis
    by (intro limited_quiet) (assumption, simp_all)
next
  case (hedged oid order s w1 t1 t2 ack)
  have "trace w' = trace w @ [HlBbo (hl_coin (en_config e)) (hl s),
      LighterBbo (lighter_market_id (en_config e)) (lighter s), PerfNs t1,
      LighterIoc (ioc_request e s (po_direction order = ShortLighterLongHl) (D 15) (po_size_base order)) ack,
      PerfNs t2]"
    using hedged(8) collect_snapshot_eq(1) [OF hedged(6)] by simp
  with hedged(10) show ?thesis by (intro limited_quiet) (assumption, simp_all add: same_limiter_def)
qed

lemma limited_step:
  assumes "engine_inv e" and "engine_step E ev e w = (logs, e', w')"
  shows "limited e w e' w'"
proof (cases ev)
  case LighterHedgeReject
  let ?h = "snd (on_lighter_hedge_reject (strategy e))"
  obtain s w1 where c: "collect_snapshot E (en_config e) w = (s, w1)" by fastforce
  with LighterHedgeReject assms(2) have
    "execute_action E (fst (on_lighter_hedge_reject (strategy e))) s (e\<lparr>strategy := ?h\<rparr>) w1 = (logs, e', w')"
    by (simp add: engine_on_lighter_hedge_reject_def Let_def)
  from limited_prefix [OF limited_execute [OF disjI2 [OF reject_action_type] this]
      collect_snapshot_eq(1) [OF c]] show ?thesis by simp
next
  case (LighterHedgeFill px)
  with assms show ?thesis
    by (intro limited_quiet [of _ _ "[]"]) (auto simp: engine_on_lighter_hedge_fill_def)
next
  case (SetPosition x)
  with assms show ?thesis by (intro limited_quiet [of _ _ "[]"]) (auto simp: set_hl_position_def)
qed (use assms limited_market_data limited_fill limited_trade in \<open>simp_all\<close>)

interpretation hl_places: rate_limited "engine_step E" engine_inv last_hl_place_ms
  "\<lambda>e. hl_order_interval_ms (en_config e)" is_hl_limit for E
  by unfold_locales (use engine_inv_step limited_step in \<open>fastforce simp: limited_defs\<close>)+

interpretation hl_cancels: rate_limited "engine_step E" engine_inv last_hl_cancel_ms
  "\<lambda>e. hl_order_interval_ms (en_config e)" is_hl_cancel for E
  by unfold_locales (use engine_inv_step limited_step in \<open>fastforce simp: limited_defs\<close>)+

text \<open>The locale's runs over \<open>engine_step\<close> are the engine's.\<close>

lemma run_engine_limited: "hl_places.run E evs e w = run_engine E evs e w"
proof (induction evs arbitrary: e w)
  case (Cons ev evs)
  then show ?case by (cases "engine_step E ev e w") simp
qed simp

end
