(* ===== verification/Engine_Lighter_Run.thy ===== *)
theory Engine_Lighter_Run
  imports Engine_Lighter Engine_Hl_Run
begin

text \<open>
  What the methods of the Lighter-maker engine do, one case rule per action, the invariant
  of its runs, and the rate limiter's contract on its placements and cancels.
\<close>

section \<open>The actions\<close>

abbreviation lighter_limit_request :: "lighter_engine \<Rightarrow> pending_maker_order \<Rightarrow> lighter_limit_order_request" where
  "lighter_limit_request e order \<equiv> \<lparr>llr_is_ask = (\<not> po_is_buy order), llr_price = po_price order,
     llr_size = po_size_base order, llr_post_only = True, llr_dry_run = dry_run (le_config e)\<rparr>"

abbreviation hl_hedge_request :: "lighter_engine \<Rightarrow> hl_hedge_intent \<Rightarrow> hl_ioc_order_request" where
  "hl_hedge_request e intent \<equiv> \<lparr>hir_coin = hl_coin (le_config e), hir_is_buy = hh_is_buy intent,
     hir_price = hh_limit_price intent, hir_size = hh_size_base intent,
     hir_dry_run = dry_run (le_config e)\<rparr>"

abbreviation lighter_unwind_request :: "lighter_engine \<Rightarrow> spread_snapshot \<Rightarrow> bool \<Rightarrow> double \<Rightarrow> lighter_ioc_request" where
  "lighter_unwind_request e s is_ask size_base \<equiv> \<lparr>lir_is_ask = is_ask,
     lir_price = slipped is_ask (mid (lighter s)) (D 15), lir_size = size_base,
     lir_signal_price = mid (lighter s), lir_dry_run = dry_run (le_config e)\<rparr>"

lemma exec_place_lighter_cases:
  assumes "exec_place_lighter E a e w = (logs, e', w')"
  obtains (deferred) now retry where "lighter_place_retry_at_ms e now = Some retry" "logs = []"
      "w' = happened (SteadyMs now) w"
      "e' = e\<lparr>deferred_lighter_action := Some a, le_next_retry_steady_ms := Some retry\<rparr>"
      "now = env_steady_ms E (trace w)"
  | (placed) now t1 t2 ack pt where "lighter_place_retry_at_ms e now = None"
      "lla_ok ack" "lla_resting_confirmed ack" "logs \<noteq> []"
      "trace w' = trace w @ [SteadyMs now, PerfNs t1,
         LighterLimit (lighter_limit_request e (the (act_maker_order a))) ack, PerfNs t2]"
      "e' = e\<lparr>last_lighter_place_ms := now, le_next_retry_steady_ms := None,
         deferred_lighter_action := None, active_lighter_order_index := Some (lla_order_index ack),
         active_lighter_client_order_index := Some (lla_client_order_index ack),
         le_maker_direction := po_direction (the (act_maker_order a)), le_perf_trace := pt\<rparr>"
      "ack = env_lighter_limit E (trace w @ [SteadyMs now, PerfNs t1])
         (lighter_limit_request e (the (act_maker_order a)))"
  | (failed) now t1 t2 ack pt where "lighter_place_retry_at_ms e now = None"
      "\<not> (lla_ok ack \<and> lla_resting_confirmed ack)" "logs \<noteq> []"
      "trace w' = trace w @ [SteadyMs now, PerfNs t1,
         LighterLimit (lighter_limit_request e (the (act_maker_order a))) ack, PerfNs t2]"
      "e' = e\<lparr>last_lighter_place_ms := now, le_next_retry_steady_ms := None,
         deferred_lighter_action := None, le_perf_trace := pt\<rparr>"
proof -
  let ?now = "env_steady_ms E (trace w)"
  let ?tr = "trace w @ [SteadyMs ?now]"
  let ?t1 = "env_perf_ns E ?tr"
  let ?req = "lighter_limit_request e (the (act_maker_order a))"
  let ?ack = "env_lighter_limit E (?tr @ [PerfNs ?t1]) ?req"
  let ?t2 = "env_perf_ns E (?tr @ [PerfNs ?t1, LighterLimit ?req ?ack])"
  let ?r = "exec_place_lighter E a e w"
  have r: "logs = fst ?r" "e' = fst (snd ?r)" "w' = snd (snd ?r)" by (simp_all add: assms)
  show ?thesis
  proof (cases "lighter_place_retry_at_ms e ?now")
    case (Some retry)
    then show ?thesis
      by (intro deferred [of ?now retry]) (simp_all add: r exec_place_lighter_def world_simps Let_def)
  next
    case None
    show ?thesis
    proof (cases "lla_ok ?ack \<and> lla_resting_confirmed ?ack")
      case True
      with None show ?thesis
        by (intro placed [of ?now ?ack ?t1 ?t2 "le_perf_trace e'"])
          (simp_all add: r exec_place_lighter_def world_simps Let_def)
    next
      case False
      with None show ?thesis
        by (intro failed [of ?now ?ack ?t1 ?t2 "le_perf_trace e'"])
          (simp_all add: r exec_place_lighter_def world_simps Let_def del: de_Morgan_conj)
    qed
  qed
qed

lemma exec_cancel_lighter_cases:
  assumes "exec_cancel_lighter E a e w = (logs, e', w')"
  obtains (deferred) now retry where "lighter_cancel_retry_at_ms e now = Some retry" "logs = []"
      "w' = happened (SteadyMs now) w"
      "e' = e\<lparr>deferred_lighter_action := Some a, le_next_retry_steady_ms := Some retry\<rparr>"
  | (no_order) now where "lighter_cancel_retry_at_ms e now = None" "logs \<noteq> []"
      "active_lighter_order_index e = None" "w' = happened (SteadyMs now) w"
      "e' = e\<lparr>last_lighter_cancel_ms := now, le_next_retry_steady_ms := None,
         deferred_lighter_action := None\<rparr>"
  | (sent) now t1 t2 ack i where "lighter_cancel_retry_at_ms e now = None" "logs \<noteq> []"
      "active_lighter_order_index e = Some i"
      "trace w' = trace w @ [SteadyMs now, PerfNs t1, LighterCancel i (dry_run (le_config e)) ack, PerfNs t2]"
      "e' = (let e1 = e\<lparr>last_lighter_cancel_ms := now, le_next_retry_steady_ms := None,
         deferred_lighter_action := None\<rparr> in if lca_ok ack then forget_order e1 else e1)"
proof -
  let ?now = "env_steady_ms E (trace w)"
  let ?tr = "trace w @ [SteadyMs ?now]"
  let ?t1 = "env_perf_ns E ?tr"
  let ?r = "exec_cancel_lighter E a e w"
  have r: "logs = fst ?r" "e' = fst (snd ?r)" "w' = snd (snd ?r)" by (simp_all add: assms)
  show ?thesis
  proof (cases "lighter_cancel_retry_at_ms e ?now")
    case (Some retry)
    then show ?thesis
      by (intro deferred [of ?now retry]) (simp_all add: r exec_cancel_lighter_def world_simps Let_def)
  next
    case None
    show ?thesis
    proof (cases "active_lighter_order_index e")
      case None': None
      with None show ?thesis
        by (intro no_order [of ?now]) (simp_all add: r exec_cancel_lighter_def world_simps Let_def)
    next
      case (Some i)
      let ?ack = "env_lighter_cancel E (?tr @ [PerfNs ?t1]) i (dry_run (le_config e))"
      let ?t2 = "env_perf_ns E (?tr @ [PerfNs ?t1, LighterCancel i (dry_run (le_config e)) ?ack])"
      from Some None show ?thesis
        by (intro sent [of ?now i ?t1 ?ack ?t2])
          (simp_all add: r exec_cancel_lighter_def send_lighter_cancel_def world_simps Let_def)
    qed
  qed
qed


definition clock_reads :: "venue_event list \<Rightarrow> bool" where
  "clock_reads tr \<longleftrightarrow> (\<forall>ev \<in> set tr. \<exists>t. ev = EpochUs t)"

lemma exec_hl_taker_cases:
  assumes "exec_hl_taker_hedge E a s e w = (logs, e', w')"
  obtains (hedged) t1 t2 ack clocks entry where "hia_ok ack" "0 < hia_filled_size ack" "logs \<noteq> []"
      "trace w' = trace w @ [PerfNs t1, HlIoc (hl_hedge_request e (the (act_hl_hedge_intent a))) ack,
         PerfNs t2] @ clocks" "clock_reads clocks"
      "e' = forget_order (e\<lparr>le_strategy := on_hl_hedge_fill (hia_avg_fill_price ack) (le_strategy e)\<rparr>)"
      "journal w' = map_option (journal_record entry) (journal w)" "je_type entry = CHR ''T''"
      "je_hl_sz entry = hia_filled_size ack"
  | (unwound) t1 t2 ack unwind where "\<not> (hia_ok ack \<and> 0 < hia_filled_size ack)" "logs \<noteq> []"
      "trace w' = trace w @ [PerfNs t1, HlIoc (hl_hedge_request e (the (act_hl_hedge_intent a))) ack,
         PerfNs t2, LighterIoc (lighter_unwind_request e s (le_maker_direction e = LongLighterShortHl)
           (hh_size_base (the (act_hl_hedge_intent a)))) unwind]"
      "e' = forget_order e" "journal w' = journal w"
proof -
  let ?req = "hl_hedge_request e (the (act_hl_hedge_intent a))"
  let ?t1 = "env_perf_ns E (trace w)"
  let ?tr1 = "trace w @ [PerfNs ?t1]"
  let ?ack = "env_hl_ioc E ?tr1 ?req"
  let ?tr2 = "?tr1 @ [HlIoc ?req ?ack]"
  let ?t2 = "env_perf_ns E ?tr2"
  let ?tr3 = "?tr2 @ [PerfNs ?t2]"
  let ?r = "exec_hl_taker_hedge E a s e w"
  have r: "logs = fst ?r" "e' = fst (snd ?r)" "w' = snd (snd ?r)" by (simp_all add: assms)
  show ?thesis
  proof (cases "hia_ok ?ack \<and> 0 < hia_filled_size ?ack")
    case True
    let ?u1 = "env_epoch_us E ?tr3"
    let ?u2 = "env_epoch_us E (?tr3 @ [EpochUs ?u1])"
    let ?e2 = "e\<lparr>le_perf_trace := (le_perf_trace e)\<lparr>lpt_hl_send_ns := ?t1, lpt_hl_ack_ns := ?t2\<rparr>,
      le_strategy := on_hl_hedge_fill (hia_avg_fill_price ?ack) (le_strategy e)\<rparr>"
    let ?entry = "hl_hedge_entry s (the (act_hl_hedge_intent a)) ?ack ?t2 ?e2 ?u1 ?u2"
    let ?clocks = "if journal w = None then [] else [EpochUs ?u1, EpochUs ?u2]"
    have "e' = forget_order (e\<lparr>le_strategy := on_hl_hedge_fill (hia_avg_fill_price ?ack) (le_strategy e)\<rparr>)"
      using True by (simp add: r exec_hl_taker_hedge_def complete_lighter_trade_def world_simps Let_def
          forget_order_def)
    moreover have "trace w' = trace w @ [PerfNs ?t1, HlIoc ?req ?ack, PerfNs ?t2] @ ?clocks"
      using True by (simp add: r exec_hl_taker_hedge_def complete_lighter_trade_def world_simps Let_def
          journal_write_def)
    moreover have "journal w' = map_option (journal_record ?entry) (journal w)"
      using True by (cases "journal w") (simp_all add: r exec_hl_taker_hedge_def
          complete_lighter_trade_def world_simps Let_def journal_write_def)
    moreover have "logs \<noteq> []"
      using True by (simp add: r exec_hl_taker_hedge_def complete_lighter_trade_def world_simps Let_def)
    ultimately show ?thesis
      using True by (intro hedged [of ?ack ?t1 ?t2 ?clocks ?entry])
        (simp_all add: clock_reads_def hl_hedge_entry_def Let_def)
  next
    case False
    let ?un = "lighter_unwind_request e s (le_maker_direction e = LongLighterShortHl)
      (hh_size_base (the (act_hl_hedge_intent a)))"
    from False show ?thesis
      by (intro unwound [of ?ack ?t1 ?t2 "env_lighter_ioc E ?tr3 ?un"])
        (simp_all add: r exec_hl_taker_hedge_def unwind_lighter_fill_def world_simps Let_def
          forget_order_def del: de_Morgan_conj)
  qed
qed

section \<open>Runs and their invariant\<close>

datatype lighter_event =
    LMarketData i64
  | LFill double double spread_snapshot i64 i64 u64
  | LHedgeReject

fun lighter_engine_step :: "env \<Rightarrow> lighter_event \<Rightarrow> lighter_engine \<Rightarrow> world \<Rightarrow> lighter_engine logged" where
  "lighter_engine_step E (LMarketData now) e w = lighter_on_market_data E now e w"
| "lighter_engine_step E (LFill px sz s i ci rx) e w = on_lighter_fill E px sz s i ci rx e w"
| "lighter_engine_step E LHedgeReject e w = engine_on_hl_hedge_reject E e w"

fun run_lighter_engine ::
  "env \<Rightarrow> lighter_event list \<Rightarrow> lighter_engine \<Rightarrow> world \<Rightarrow> lighter_engine \<times> world" where
  "run_lighter_engine E [] e w = (e, w)"
| "run_lighter_engine E (ev # evs) e w =
     (let (logs, e, w) = lighter_engine_step E ev e w in run_lighter_engine E evs e w)"

text \<open>
  Between two calls the strategy never holds a position: a fill is hedged or unwound before
  the method returns.  The live order is the strategy's pending one, in the direction the
  engine remembers; a deferred placement is of the pending order, with no order live.
\<close>

definition lm_action_ok :: "lighter_engine \<Rightarrow> action \<Rightarrow> bool" where
  "lm_action_ok e a \<longleftrightarrow> act_type a = CancelLighterMaker
     \<or> act_type a = PlaceLighterMaker \<and> act_maker_order a = pending_maker (le_strategy e)
        \<and> pending_maker (le_strategy e) \<noteq> None \<and> active_lighter_order_index e = None"

definition lighter_engine_inv :: "lighter_engine \<Rightarrow> bool" where
  "lighter_engine_inv e \<longleftrightarrow> lm_inv (le_strategy e) \<and> config (le_strategy e) = ec_strategy (le_config e)
     \<and> open_position (le_strategy e) = None
     \<and> (active_lighter_order_index e = None \<longleftrightarrow> active_lighter_client_order_index e = None)
     \<and> (active_lighter_order_index e \<noteq> None \<longrightarrow> (\<exists>order. pending_maker (le_strategy e) = Some order
          \<and> po_direction order = le_maker_direction e))
     \<and> (\<forall>a. deferred_lighter_action e = Some a \<longrightarrow> lm_action_ok e a)"

lemma lighter_engine_inv_new:
  "lighter_engine_new c = Inr e \<Longrightarrow> lighter_engine_inv e \<and> le_config e = c"
proof -
  assume "lighter_engine_new c = Inr e"
  then have "le_strategy e = initial_hedger (ec_strategy c)" "active_lighter_order_index e = None"
    "active_lighter_client_order_index e = None" "deferred_lighter_action e = None" "le_config e = c"
    by (auto simp: lighter_engine_new_def lm_hedger_new_def split: if_splits)
  moreover have "config (initial_hedger (ec_strategy c)) = ec_strategy c"
    "open_position (initial_hedger (ec_strategy c)) = None"
    by (simp_all add: initial_hedger_def)
  ultimately show ?thesis by (simp add: lighter_engine_inv_def lm_inv_initial)
qed

lemma lm_reset_facts [simp]:
  "lm_inv (lm_reset h)" "config (lm_reset h) = config h" "open_position (lm_reset h) = None"
  "state (lm_reset h) = Idle" "pending_maker (lm_reset h) = None"
  by (simp_all add: lm_inv_def lm_reset_def disarmed_gate_def)

lemma on_hl_hedge_fill_config [simp]: "config (on_hl_hedge_fill px h) = config h"
  by (simp add: on_hl_hedge_fill_def split: option.split)

lemma lm_decide_cases:
  assumes "lm_decide s now h = (a, h')"
  obtains (quiet) "a = no_action" "h' = h"
  | (place) order where "state h = Idle" "act_type a = PlaceLighterMaker"
      "act_maker_order a = Some order" "h' = h\<lparr>pending_maker := Some order, state := PendingLighterMaker\<rparr>"
  | (cancel) "state h = PendingLighterMaker" "pending_maker h \<noteq> None" "act_type a = CancelLighterMaker"
      "h' = lm_disarm now (h\<lparr>state := CancelledPendingLighterConfirm\<rparr>)"
proof -
  consider "state h = Idle" "sg_armed (gate h)" | "state h = Idle" "\<not> sg_armed (gate h)"
    | order where "state h = PendingLighterMaker" "pending_maker h = Some order"
    | "state h \<noteq> Idle" "state h \<noteq> PendingLighterMaker \<or> pending_maker h = None" by fastforce
  then show ?thesis
  proof cases
    case 1
    with assms show ?thesis by (intro place) (auto simp: lm_decide_def Let_def)
  next
    case 2
    with assms show ?thesis by (intro quiet) (auto simp: lm_decide_def Let_def)
  next
    case 3
    define out where "out \<longleftrightarrow> \<not> sg_armed (gate h)
      \<or> lm_direction_for_spread (cross_spread_bps s) \<noteq> po_direction order
      \<or> \<bar>cross_spread_bps s\<bar> < lm_cancel_threshold_bps h (po_entry_spread_bps order)"
    have "(a, h') = (if out then (no_action\<lparr>act_type := CancelLighterMaker,
        act_reason := ''spread mean-reverted below cancel threshold'',
        act_maker_order := pending_maker h\<rparr>,
        lm_disarm now (h\<lparr>state := CancelledPendingLighterConfirm\<rparr>)) else (no_action, h))"
      using assms 3 by (simp add: lm_decide_def Let_def out_def)
    with 3 show ?thesis by (cases out) (auto intro: quiet cancel)
  next
    case 4
    then have "lm_decide s now h = (no_action, h)"
      by (cases "state h"; cases "pending_maker h") (simp_all add: lm_decide_def Let_def)
    with assms show ?thesis by (intro quiet) simp_all
  qed
qed

lemma lm_snapshot_action:
  assumes "lm_on_market_snapshot s now h = (a, h')" and "lm_inv h"
  shows "a = no_action \<or> act_type a = CancelLighterMaker \<and> pending_maker h' = pending_maker h
      \<or> act_type a = PlaceLighterMaker \<and> act_maker_order a = pending_maker h'
         \<and> pending_maker h = None \<and> pending_maker h' \<noteq> None"
    and "open_position h' = open_position h"
    and "act_type a \<noteq> PlaceLighterMaker \<Longrightarrow> pending_maker h' = pending_maker h"
    and "state h \<noteq> Idle \<Longrightarrow> act_type a \<noteq> PlaceLighterMaker \<and> state h' \<noteq> Idle"
proof -
  let ?g = "lm_update_gate s now h"
  have "a = no_action \<and> h' = h \<or> lm_decide s now ?g = (a, h')"
    using assms(1) unfolding lm_on_market_snapshot_def
    by (cases "snapshot_valid s (max_quote_age_ms (config h))") simp_all
  then consider "a = no_action" "h' = h" | "lm_decide s now ?g = (a, h')" by blast
  then have all: "(a = no_action \<or> act_type a = CancelLighterMaker \<and> pending_maker h' = pending_maker h
      \<or> act_type a = PlaceLighterMaker \<and> act_maker_order a = pending_maker h'
         \<and> pending_maker h = None \<and> pending_maker h' \<noteq> None)
      \<and> open_position h' = open_position h
      \<and> (act_type a \<noteq> PlaceLighterMaker \<longrightarrow> pending_maker h' = pending_maker h)
      \<and> (state h \<noteq> Idle \<longrightarrow> act_type a \<noteq> PlaceLighterMaker \<and> state h' \<noteq> Idle)"
  proof cases
    case 1
    then show ?thesis by simp
  next
    case 2
    have inv: "lm_inv ?g" by (rule lm_inv_update_gate [OF assms(2)])
    from 2 show ?thesis
    proof (cases rule: lm_decide_cases)
      case (place order)
      with inv show ?thesis by (simp add: record_frame lm_inv_def)
    qed (simp_all add: record_frame lm_disarm_def)
  qed
  from all show "a = no_action \<or> act_type a = CancelLighterMaker \<and> pending_maker h' = pending_maker h
      \<or> act_type a = PlaceLighterMaker \<and> act_maker_order a = pending_maker h'
         \<and> pending_maker h = None \<and> pending_maker h' \<noteq> None" by (rule conjunct1)
  from all show "open_position h' = open_position h"
    and "act_type a \<noteq> PlaceLighterMaker \<Longrightarrow> pending_maker h' = pending_maker h"
    and "state h \<noteq> Idle \<Longrightarrow> act_type a \<noteq> PlaceLighterMaker \<and> state h' \<noteq> Idle" by blast+
qed

lemma lighter_execute_simps:
  "act_type a = PlaceLighterMaker \<Longrightarrow> lighter_execute_action E a s e w = exec_place_lighter E a e w"
  "act_type a = CancelLighterMaker \<Longrightarrow> lighter_execute_action E a s e w = exec_cancel_lighter E a e w"
  "act_type a = SendHlTakerHedge \<Longrightarrow> lighter_execute_action E a s e w = exec_hl_taker_hedge E a s e w"
  "act_type a = NoAction \<Longrightarrow> lighter_execute_action E a s e w = ([], e, w)"
  by (simp_all add: lighter_execute_action_def)

lemma no_action_type [simp]: "act_type no_action = NoAction"
  by (simp add: no_action_def)

lemma lighter_inv_execute:
  assumes "lighter_engine_inv e" and "a = no_action \<or> lm_action_ok e a"
    and "lighter_execute_action E a s e w = (logs, e', w')"
  shows "lighter_engine_inv e' \<and> le_config e' = le_config e"
proof -
  consider "a = no_action" | "lm_action_ok e a" "act_type a = PlaceLighterMaker"
    | "act_type a = CancelLighterMaker"
    using assms(2) by (auto simp: lm_action_ok_def)
  then show ?thesis
  proof cases
    case 1
    with assms show ?thesis by (simp add: lighter_execute_simps)
  next
    case 2
    with assms(3) have "exec_place_lighter E a e w = (logs, e', w')" by (simp add: lighter_execute_simps)
    then show ?thesis
      using assms(1) 2 by (cases rule: exec_place_lighter_cases)
        (auto simp: lighter_engine_inv_def lm_action_ok_def)
  next
    case 3
    with assms(3) have "exec_cancel_lighter E a e w = (logs, e', w')" by (simp add: lighter_execute_simps)
    then show ?thesis
      using assms(1) 3 by (cases rule: exec_cancel_lighter_cases)
        (auto simp: lighter_engine_inv_def lm_action_ok_def forget_order_def Let_def)
  qed
qed

lemma lighter_inv_decided:
  assumes "lighter_engine_inv e" and "lm_on_market_snapshot s now (le_strategy e) = (a, h)"
  shows "lighter_engine_inv (e\<lparr>le_strategy := h, le_perf_trace := pt\<rparr>)"
    and "a = no_action \<or> lm_action_ok (e\<lparr>le_strategy := h, le_perf_trace := pt\<rparr>) a"
proof -
  have inv: "lm_inv (le_strategy e)" using assms(1) by (simp add: lighter_engine_inv_def)
  note h = lm_market_step(1,2) [OF assms(2)] lm_snapshot_action [OF assms(2) inv]
  show "lighter_engine_inv (e\<lparr>le_strategy := h, le_perf_trace := pt\<rparr>)"
    using assms(1) h(1-5) by (auto simp: lighter_engine_inv_def lm_action_ok_def)
  show "a = no_action \<or> lm_action_ok (e\<lparr>le_strategy := h, le_perf_trace := pt\<rparr>) a"
    using assms(1) h(3) by (auto simp: lighter_engine_inv_def lm_action_ok_def)
qed

lemma lighter_decision_cases:
  assumes "lighter_on_market_decision E now s e w = (logs, e', w')"
  obtains a h t1 t2 w1 pt where "lm_on_market_snapshot s now (le_strategy e) = (a, h)"
    "trace w1 = trace w @ [PerfNs t1, PerfNs t2]"
    "lighter_execute_action E a s (e\<lparr>le_strategy := h, le_perf_trace := pt\<rparr>) w1 = (logs, e', w')"
proof -
  obtain a h where ah: "lm_on_market_snapshot s now (le_strategy e) = (a, h)" by fastforce
  let ?w0 = "hot_path CrossVenueAlignmentMs
    (word_of_int \<bar>quote_age_ms (hl s) - quote_age_ms (lighter s)\<bar>) w"
  define t1 where "t1 = env_perf_ns E (trace w)"
  define t2 where "t2 = env_perf_ns E (trace w @ [PerfNs t1])"
  define w1 where "w1 = hot_path StrategyDecisionNs (t2 - t1) (happened (PerfNs t2) (happened (PerfNs t1) ?w0))"
  define pt where "pt = (if act_type a = PlaceLighterMaker then empty_lighter_trace\<lparr>lpt_signal_ns := t2\<rparr>
    else if act_type a = CancelLighterMaker then (le_perf_trace e)\<lparr>lpt_cancel_trigger_ns := t2\<rparr>
    else le_perf_trace e)"
  have e: "(if act_type a = PlaceLighterMaker
        then e\<lparr>le_strategy := h, le_perf_trace := empty_lighter_trace\<lparr>lpt_signal_ns := t2\<rparr>\<rparr>
        else if act_type a = CancelLighterMaker
        then e\<lparr>le_strategy := h, le_perf_trace := (le_perf_trace e)\<lparr>lpt_cancel_trigger_ns := t2\<rparr>\<rparr>
        else e\<lparr>le_strategy := h\<rparr>) = e\<lparr>le_strategy := h, le_perf_trace := pt\<rparr>"
    by (simp add: pt_def)
  have "lighter_on_market_decision E now s e w =
      lighter_execute_action E a s (e\<lparr>le_strategy := h, le_perf_trace := pt\<rparr>) w1"
    unfolding e [symmetric] w1_def
    by (simp add: lighter_on_market_decision_def ah world_simps Let_def t1_def t2_def)
  with assms show ?thesis
    by (intro that [OF ah, of w1 t1 t2 pt]) (simp_all add: w1_def)
qed

lemma lighter_inv_decision:
  assumes "lighter_engine_inv e" and "lighter_on_market_decision E now s e w = (logs, e', w')"
  shows "lighter_engine_inv e' \<and> le_config e' = le_config e"
proof -
  obtain a h t1 t2 w1 pt where d: "lm_on_market_snapshot s now (le_strategy e) = (a, h)"
    "trace w1 = trace w @ [PerfNs t1, PerfNs t2]"
    "lighter_execute_action E a s (e\<lparr>le_strategy := h, le_perf_trace := pt\<rparr>) w1 = (logs, e', w')"
    by (rule lighter_decision_cases [OF assms(2)])
  from lighter_inv_execute [OF lighter_inv_decided [OF assms(1) d(1)] d(3)] show ?thesis by simp
qed

lemma lighter_collect_snapshot_eq:
  assumes "lighter_collect_snapshot E c w = (s, w')"
  shows "trace w' = trace w @ [HlBbo (hl_coin c) (hl s), LighterBbo (lighter_market_id c) (lighter s)]"
    and "journal w' = journal w"
  using assms by (auto simp: lighter_collect_snapshot_def world_simps Let_def)

lemma lighter_market_data_cases:
  assumes "lighter_on_market_data E now e w = (logs, e', w')"
  obtains (deferred) s w1 a where "lighter_collect_snapshot E (le_config e) w = (s, w1)"
      "deferred_lighter_action e = Some a"
      "lighter_execute_action E a s (e\<lparr>deferred_lighter_action := None, le_next_retry_steady_ms := None\<rparr>) w1
         = (logs, e', w')" "logs \<noteq> []"
  | (deferred_quiet) s w1 a e1 w2 where "lighter_collect_snapshot E (le_config e) w = (s, w1)"
      "deferred_lighter_action e = Some a"
      "lighter_execute_action E a s (e\<lparr>deferred_lighter_action := None, le_next_retry_steady_ms := None\<rparr>) w1
         = ([], e1, w2)" "lighter_on_market_decision E now s e1 w2 = (logs, e', w')"
  | (direct) s w1 where "lighter_collect_snapshot E (le_config e) w = (s, w1)"
      "lighter_on_market_decision E now s e w1 = (logs, e', w')"
proof -
  obtain s w1 where c: "lighter_collect_snapshot E (le_config e) w = (s, w1)" by fastforce
  note eq = assms [unfolded lighter_on_market_data_def c Let_def prod.case]
  show ?thesis
  proof (cases "deferred_lighter_action e")
    case None
    with eq show ?thesis by (intro direct [OF c]) simp
  next
    case (Some a)
    show ?thesis
    proof (cases "case le_next_retry_steady_ms e of None \<Rightarrow> False | Some t \<Rightarrow> now < t")
      case True
      with eq Some show ?thesis by (intro direct [OF c]) (simp add: execute_deferred_lighter_action_def)
    next
      case False
      obtain dl e1 w2 where x: "lighter_execute_action E a s
          (e\<lparr>deferred_lighter_action := None, le_next_retry_steady_ms := None\<rparr>) w1 = (dl, e1, w2)"
        by (rule prod_cases3)
      have "execute_deferred_lighter_action E now s e w1 = (dl, e1, w2)"
        using Some False x by (simp add: execute_deferred_lighter_action_def)
      with eq Some have "(if dl \<noteq> [] then (dl, e1, w2) else lighter_on_market_decision E now s e1 w2)
          = (logs, e', w')" by simp
      with x show ?thesis
        by (cases "dl = []") (auto intro: deferred [OF c Some] deferred_quiet [OF c Some])
    qed
  qed
qed

lemma lighter_inv_forget_deferred:
  "lighter_engine_inv e \<Longrightarrow>
     lighter_engine_inv (e\<lparr>deferred_lighter_action := None, le_next_retry_steady_ms := None\<rparr>)"
  "lighter_engine_inv e \<Longrightarrow> deferred_lighter_action e = Some a \<Longrightarrow>
     lm_action_ok (e\<lparr>deferred_lighter_action := None, le_next_retry_steady_ms := None\<rparr>) a"
  by (auto simp: lighter_engine_inv_def lm_action_ok_def)

lemma lighter_inv_market_data:
  assumes "lighter_engine_inv e" and "lighter_on_market_data E now e w = (logs, e', w')"
  shows "lighter_engine_inv e' \<and> le_config e' = le_config e"
  using assms(2)
proof (cases rule: lighter_market_data_cases)
  case (deferred s w1 a)
  from lighter_inv_execute [OF lighter_inv_forget_deferred(1) [OF assms(1)]
      disjI2 [OF lighter_inv_forget_deferred(2) [OF assms(1) deferred(2)]] deferred(3)]
  show ?thesis by simp
next
  case (deferred_quiet s w1 a e1 w2)
  from lighter_inv_execute [OF lighter_inv_forget_deferred(1) [OF assms(1)]
      disjI2 [OF lighter_inv_forget_deferred(2) [OF assms(1) deferred_quiet(2)]] deferred_quiet(3)]
  have "lighter_engine_inv e1" "le_config e1 = le_config e" by simp_all
  with lighter_inv_decision [OF _ deferred_quiet(4)] show ?thesis by simp
next
  case (direct s w1)
  with assms(1) lighter_inv_decision show ?thesis by blast
qed

text \<open>A fill of the active order, as the hedge of its size.\<close>

lemma lighter_fill_cases:
  assumes "on_lighter_fill E px sz s i ci rx e w = (logs, e', w')"
  obtains (ignored) "active_lighter_order_index e \<noteq> Some i \<or> pending_maker (le_strategy e) = None"
      "logs = []" "trace w' = trace w" "journal w' = journal w" "\<exists>pt. e' = e\<lparr>le_perf_trace := pt\<rparr>"
  | (hedge) order a h w1 pt where "active_lighter_order_index e = Some i"
      "pending_maker (le_strategy e) = Some order"
      "act_type a = SendHlTakerHedge" "act_hl_hedge_intent a = Some
         \<lparr>hh_is_buy = (po_direction order = ShortLighterLongHl),
          hh_limit_price = aggressive_hl_price s (po_direction order), hh_size_base = sz\<rparr>"
      "config h = config (le_strategy e)" "trace w1 = trace w" "journal w1 = journal w"
      "exec_hl_taker_hedge E a s (e\<lparr>le_strategy := h, le_perf_trace := pt\<rparr>) w1 = (logs, e', w')"
proof (cases "active_lighter_order_index e = Some i")
  case False
  with assms show ?thesis
    by (intro ignored) (auto simp: on_lighter_fill_def intro: exI [of _ "le_perf_trace e"])
next
  case True
  define pt where "pt = (le_perf_trace e)\<lparr>lpt_fill_rx_ns := rx\<rparr>"
  define w1 where "w1 = (if 0 < lpt_lighter_ack_ns pt \<and> lpt_lighter_ack_ns pt \<le> rx
    then trade_path HlMakerRestingLifetimeNs (rx - lpt_lighter_ack_ns pt) w else w)"
  let ?f = "on_lighter_maker_fill px sz s (le_strategy e)"
  have upd: "e\<lparr>le_perf_trace := p, le_strategy := g\<rparr> = e\<lparr>le_strategy := g, le_perf_trace := p\<rparr>" for p g
    by simp
  have x: "lighter_execute_action E (fst ?f) s (e\<lparr>le_strategy := snd ?f, le_perf_trace := pt\<rparr>) w1
    = (logs, e', w')"
    using assms True by (simp add: on_lighter_fill_def Let_def w1_def pt_def upd cong: if_cong split del: if_split)
  have w1: "trace w1 = trace w" "journal w1 = journal w" by (simp_all add: w1_def)
  show ?thesis
  proof (cases "pending_maker (le_strategy e)")
    case None
    then have "?f = (no_action, le_strategy e)" by (simp add: on_lighter_maker_fill_def)
    with x None w1 show ?thesis
      by (intro ignored) (auto simp: lighter_execute_simps intro: exI [of _ pt])
  next
    case (Some order)
    then have f: "act_type (fst ?f) = SendHlTakerHedge" "act_hl_hedge_intent (fst ?f) = Some
         \<lparr>hh_is_buy = (po_direction order = ShortLighterLongHl),
          hh_limit_price = aggressive_hl_price s (po_direction order), hh_size_base = sz\<rparr>"
      "config (snd ?f) = config (le_strategy e)"
      by (simp_all add: on_lighter_maker_fill_def Let_def build_hl_hedge_def)
    with x have "exec_hl_taker_hedge E (fst ?f) s (e\<lparr>le_strategy := snd ?f, le_perf_trace := pt\<rparr>) w1
      = (logs, e', w')" by (simp add: lighter_execute_simps)
    then show ?thesis by (rule hedge [OF True Some f w1])
  qed
qed

text \<open>With an order live no placement is deferred, so forgetting it keeps the invariant.\<close>

lemma lighter_inv_forget_order:
  assumes "lighter_engine_inv e" and "active_lighter_order_index e \<noteq> None"
    and "config h = config (le_strategy e)"
  shows "lighter_engine_inv (forget_order (e\<lparr>le_strategy := h, le_perf_trace := pt\<rparr>))"
  using assms by (auto simp: lighter_engine_inv_def lm_action_ok_def forget_order_def)

lemma lighter_inv_fill:
  assumes "lighter_engine_inv e" and "on_lighter_fill E px sz s i ci rx e w = (logs, e', w')"
  shows "lighter_engine_inv e' \<and> le_config e' = le_config e"
  using assms(2)
proof (cases rule: lighter_fill_cases)
  case ignored
  with assms(1) show ?thesis by (auto simp: lighter_engine_inv_def lm_action_ok_def)
next
  case (hedge order a h w1 pt)
  have f: "lighter_engine_inv (forget_order (e\<lparr>le_strategy := g, le_perf_trace := pt\<rparr>))"
    if "config g = config h" for g
    using lighter_inv_forget_order [OF assms(1)] hedge(1,5) that by simp
  from hedge(8) show ?thesis
  proof (cases rule: exec_hl_taker_cases)
    case hedged
    with f show ?thesis by (simp add: forget_order_def)
  next
    case unwound
    with f [of h] show ?thesis by (simp add: forget_order_def)
  qed
qed

lemma lighter_reject_quiet:
  assumes "open_position (le_strategy e) = None"
    and "engine_on_hl_hedge_reject E e w = (logs, e', w')"
  shows "logs = []" "e' = e" "\<exists>s. lighter_collect_snapshot E (le_config e) w = (s, w')"
  using assms by (auto simp: engine_on_hl_hedge_reject_def on_hl_hedge_reject_def Let_def
      lighter_execute_simps split: prod.splits)

lemma lighter_inv_step:
  assumes "lighter_engine_inv e" and "lighter_engine_step E ev e w = (logs, e', w')"
  shows "lighter_engine_inv e' \<and> le_config e' = le_config e"
proof (cases ev)
  case (LMarketData now)
  with assms lighter_inv_market_data show ?thesis by simp
next
  case (LFill px sz s i ci rx)
  with assms lighter_inv_fill show ?thesis by simp
next
  case LHedgeReject
  have "open_position (le_strategy e) = None" using assms(1) by (simp add: lighter_engine_inv_def)
  with LHedgeReject assms lighter_reject_quiet(2) [OF this, of E w logs e' w'] show ?thesis by simp
qed

lemma lighter_inv_run:
  "lighter_engine_inv e \<Longrightarrow> run_lighter_engine E evs e w = (e', w') \<Longrightarrow>
     lighter_engine_inv e' \<and> le_config e' = le_config e"
proof (induction evs arbitrary: e w)
  case (Cons ev evs)
  obtain logs e1 w1 where s: "lighter_engine_step E ev e w = (logs, e1, w1)" by (rule prod_cases3)
  with Cons.prems have "run_lighter_engine E evs e1 w1 = (e', w')" by simp
  with Cons.IH lighter_inv_step [OF Cons.prems(1) s] show ?case by metis
qed simp

section \<open>The rate limiters\<close>

fun is_lighter_limit :: "venue_event \<Rightarrow> bool" where
  "is_lighter_limit (LighterLimit _ _) = True"
| "is_lighter_limit _ = False"

fun is_lighter_cancel :: "venue_event \<Rightarrow> bool" where
  "is_lighter_cancel (LighterCancel _ _ _) = True"
| "is_lighter_cancel _ = False"

text \<open>
  What \<open>rate_limited\<close> asks of a step, for both kinds at once; \<open>still\<close> is a step that sends
  neither and leaves the two instants alone.
\<close>

definition paced :: "(venue_event \<Rightarrow> bool) \<Rightarrow> i64 \<Rightarrow> i64 \<Rightarrow> i64 \<Rightarrow> world \<Rightarrow> world \<Rightarrow> bool" where
  "paced P d t t' w w' \<longleftrightarrow> quiet_step P w w' \<and> (t' = t \<or> d \<le> t' - t)
     \<or> timed_step P t' w w' \<and> d \<le> t' - t"

definition lighter_limited :: "lighter_engine \<Rightarrow> world \<Rightarrow> lighter_engine \<Rightarrow> world \<Rightarrow> bool" where
  "lighter_limited e w e' w' \<longleftrightarrow>
     paced is_lighter_limit (lighter_order_interval_ms (le_config e))
       (last_lighter_place_ms e) (last_lighter_place_ms e') w w'
     \<and> paced is_lighter_cancel (lighter_order_interval_ms (le_config e))
       (last_lighter_cancel_ms e) (last_lighter_cancel_ms e') w w'"

definition still :: "lighter_engine \<Rightarrow> world \<Rightarrow> lighter_engine \<Rightarrow> world \<Rightarrow> bool" where
  "still e w e' w' \<longleftrightarrow> quiet_step (\<lambda>ev. is_lighter_limit ev \<or> is_lighter_cancel ev) w w'
     \<and> last_lighter_place_ms e' = last_lighter_place_ms e
     \<and> last_lighter_cancel_ms e' = last_lighter_cancel_ms e \<and> le_config e' = le_config e"

lemma stillI:
  assumes "trace w' = trace w @ tr" and "\<forall>ev \<in> set tr. \<not> is_lighter_limit ev \<and> \<not> is_lighter_cancel ev"
    and "last_lighter_place_ms e' = last_lighter_place_ms e"
    and "last_lighter_cancel_ms e' = last_lighter_cancel_ms e" and "le_config e' = le_config e"
  shows "still e w e' w'"
  using assms by (auto simp: still_def quiet_step_def)

lemma still_limited: "still e w e' w' \<Longrightarrow> lighter_limited e w e' w'"
  by (auto simp: still_def lighter_limited_def paced_def quiet_step_def)

lemma still_prefix:
  assumes "still e w e1 w1" and "lighter_limited e1 w1 e' w'"
  shows "lighter_limited e w e' w'"
proof -
  from assms(1) obtain tr where tr: "trace w1 = trace w @ tr"
    "\<forall>ev \<in> set tr. \<not> is_lighter_limit ev" "\<forall>ev \<in> set tr. \<not> is_lighter_cancel ev"
    by (auto simp: still_def quiet_step_def)
  from assms quiet_prefix [OF tr(1,2)] quiet_prefix [OF tr(1,3)] show ?thesis
    by (auto simp: still_def lighter_limited_def paced_def)
qed

lemma lighter_retry_none:
  "lighter_place_retry_at_ms e now = None \<longleftrightarrow>
     lighter_order_interval_ms (le_config e) \<le> now - last_lighter_place_ms e"
  "lighter_cancel_retry_at_ms e now = None \<longleftrightarrow>
     lighter_order_interval_ms (le_config e) \<le> now - last_lighter_cancel_ms e"
  by (simp_all add: lighter_place_retry_at_ms_def lighter_cancel_retry_at_ms_def Let_def)

lemma limited_place_lighter:
  assumes "exec_place_lighter E a e w = (logs, e', w')"
  shows "lighter_limited e w e' w' \<and> (logs = [] \<longrightarrow> still e w e' w')"
  using assms
proof (cases rule: exec_place_lighter_cases)
  case (deferred now retry)
  then have "still e w e' w'" by (intro stillI [of _ _ "[SteadyMs now]"]) simp_all
  then show ?thesis by (simp add: still_limited)
next
  case (placed now t1 t2 ack pt)
  then show ?thesis
    by (simp add: lighter_limited_def paced_def lighter_retry_none
        quiet_append [OF placed(5)] timed_append [OF placed(5)])
next
  case (failed now t1 t2 ack pt)
  then show ?thesis
    by (simp add: lighter_limited_def paced_def lighter_retry_none
        quiet_append [OF failed(4)] timed_append [OF failed(4)])
qed

lemma limited_cancel_lighter:
  assumes "exec_cancel_lighter E a e w = (logs, e', w')"
  shows "lighter_limited e w e' w' \<and> (logs = [] \<longrightarrow> still e w e' w')"
  using assms
proof (cases rule: exec_cancel_lighter_cases)
  case (deferred now retry)
  then have "still e w e' w'" by (intro stillI [of _ _ "[SteadyMs now]"]) simp_all
  then show ?thesis by (simp add: still_limited)
next
  case (no_order now)
  have tr: "trace w' = trace w @ [SteadyMs now]" using no_order(4) by simp
  from no_order(1,2,5) show ?thesis
    by (simp add: lighter_limited_def paced_def lighter_retry_none quiet_append [OF tr])
next
  case (sent now t1 t2 ack i)
  then show ?thesis
    by (simp add: lighter_limited_def paced_def lighter_retry_none Let_def forget_order_def
        quiet_append [OF sent(4)] timed_append [OF sent(4)])
qed

lemma limited_execute_lighter:
  assumes "a = no_action \<or> lm_action_ok e a" and "lighter_execute_action E a s e w = (logs, e', w')"
  shows "lighter_limited e w e' w' \<and> (logs = [] \<longrightarrow> still e w e' w')"
proof -
  consider "a = no_action" | "act_type a = PlaceLighterMaker" | "act_type a = CancelLighterMaker"
    using assms(1) by (auto simp: lm_action_ok_def)
  then show ?thesis
  proof cases
    case 1
    with assms(2) have "still e w e' w'"
      by (intro stillI [of _ _ "[]"]) (simp_all add: lighter_execute_simps)
    then show ?thesis by (simp add: still_limited)
  next
    case 2
    with assms(2) limited_place_lighter show ?thesis by (simp add: lighter_execute_simps)
  next
    case 3
    with assms(2) limited_cancel_lighter show ?thesis by (simp add: lighter_execute_simps)
  qed
qed

lemma limited_decision_lighter:
  assumes "lighter_engine_inv e" and "lighter_on_market_decision E now s e w = (logs, e', w')"
  shows "lighter_limited e w e' w'"
proof -
  obtain a h t1 t2 w1 pt where d: "lm_on_market_snapshot s now (le_strategy e) = (a, h)"
    "trace w1 = trace w @ [PerfNs t1, PerfNs t2]"
    "lighter_execute_action E a s (e\<lparr>le_strategy := h, le_perf_trace := pt\<rparr>) w1 = (logs, e', w')"
    by (rule lighter_decision_cases [OF assms(2)])
  have "still e w (e\<lparr>le_strategy := h, le_perf_trace := pt\<rparr>) w1"
    by (rule stillI [OF d(2)]) simp_all
  with limited_execute_lighter [OF lighter_inv_decided(2) [OF assms(1) d(1)] d(3)]
  show ?thesis by (blast intro: still_prefix)
qed

lemma limited_step_lighter:
  assumes "lighter_engine_inv e" and "lighter_engine_step E ev e w = (logs, e', w')"
  shows "lighter_limited e w e' w'"
proof (cases ev)
  case (LMarketData now)
  with assms(2) have "lighter_on_market_data E now e w = (logs, e', w')" by simp
  then show ?thesis
  proof (cases rule: lighter_market_data_cases)
    case (deferred s w1 a)
    let ?e = "e\<lparr>deferred_lighter_action := None, le_next_retry_steady_ms := None\<rparr>"
    have ok: "lm_action_ok ?e a" by (rule lighter_inv_forget_deferred(2) [OF assms(1) deferred(2)])
    have "still e w ?e w1"
      by (rule stillI [OF lighter_collect_snapshot_eq(1) [OF deferred(1)]]) simp_all
    with limited_execute_lighter [OF disjI2 [OF ok] deferred(3)] show ?thesis
      by (blast intro: still_prefix)
  next
    case (deferred_quiet s w1 a e1 w2)
    let ?e = "e\<lparr>deferred_lighter_action := None, le_next_retry_steady_ms := None\<rparr>"
    have ok: "lm_action_ok ?e a" by (rule lighter_inv_forget_deferred(2) [OF assms(1) deferred_quiet(2)])
    have s1: "still e w ?e w1"
      by (rule stillI [OF lighter_collect_snapshot_eq(1) [OF deferred_quiet(1)]]) simp_all
    have s2: "still ?e w1 e1 w2"
      using limited_execute_lighter [OF disjI2 [OF ok] deferred_quiet(3)] by simp
    have "lighter_engine_inv e1"
      using lighter_inv_execute [OF lighter_inv_forget_deferred(1) [OF assms(1)] disjI2 [OF ok]
        deferred_quiet(3)] by simp
    from limited_decision_lighter [OF this deferred_quiet(4)] s1 s2 show ?thesis
      by (blast intro: still_prefix)
  next
    case (direct s w1)
    have "still e w e w1"
      by (rule stillI [OF lighter_collect_snapshot_eq(1) [OF direct(1)]]) simp_all
    then show ?thesis
      using limited_decision_lighter [OF assms(1) direct(2)] by (rule still_prefix)
  qed
next
  case (LFill px sz s i ci rx)
  with assms(2) have "on_lighter_fill E px sz s i ci rx e w = (logs, e', w')" by simp
  then show ?thesis
  proof (cases rule: lighter_fill_cases)
    case ignored
    then show ?thesis by (intro still_limited stillI [of _ _ "[]"]) auto
  next
    case (hedge order a h w1 pt)
    from hedge(8) show ?thesis
    proof (cases rule: exec_hl_taker_cases)
      case (hedged t1 t2 ack clocks entry)
      have "\<not> is_lighter_limit ev \<and> \<not> is_lighter_cancel ev" if "ev \<in> set clocks" for ev
        using that hedged(5) by (auto simp: clock_reads_def)
      with hedged hedge(6) show ?thesis
        by (intro still_limited stillI) (simp, auto simp: forget_order_def)
    next
      case (unwound t1 t2 ack unwind)
      with hedge(6) show ?thesis by (intro still_limited stillI) (simp, auto simp: forget_order_def)
    qed
  qed
next
  case LHedgeReject
  have "open_position (le_strategy e) = None" using assms(1) by (simp add: lighter_engine_inv_def)
  from lighter_reject_quiet [OF this] LHedgeReject assms(2) obtain s where
    "e' = e" "lighter_collect_snapshot E (le_config e) w = (s, w')" by force
  then show ?thesis by (intro still_limited stillI [OF lighter_collect_snapshot_eq(1)]) simp_all
qed

interpretation lighter_places: rate_limited "lighter_engine_step E" lighter_engine_inv
  last_lighter_place_ms "\<lambda>e. lighter_order_interval_ms (le_config e)" is_lighter_limit for E
  by unfold_locales
    (use lighter_inv_step limited_step_lighter in \<open>fastforce simp: lighter_limited_def paced_def\<close>)+

interpretation lighter_cancels: rate_limited "lighter_engine_step E" lighter_engine_inv
  last_lighter_cancel_ms "\<lambda>e. lighter_order_interval_ms (le_config e)" is_lighter_cancel for E
  by unfold_locales
    (use lighter_inv_step limited_step_lighter in \<open>fastforce simp: lighter_limited_def paced_def\<close>)+

lemma run_lighter_limited: "lighter_places.run E evs e w = run_lighter_engine E evs e w"
  "lighter_cancels.run E evs e w = run_lighter_engine E evs e w"
  by (induction evs arbitrary: e w) (auto split: prod.splits)

end
