(* ===== verification/Engine_Hl_Safety.thy ===== *)
theory Engine_Hl_Safety
  imports Engine_Hl_Run
begin

text \<open>
  The properties of the Hyperliquid-maker engine: its invariant over every run, the rate
  limiter, the position limit, and what a fill, a trade print and a cancel do to the
  exposure on the two venues.
\<close>

section \<open>A concrete engine\<close>

text \<open>
  A venue pair that quotes \<open>demo_wide\<close>, accepts everything and confirms every hedge; its
  clocks advance by a second with every call.
\<close>

definition demo_hedge_ack :: lighter_ioc_ack where
  "demo_hedge_ack = \<lparr>lia_ok = True, lia_fill_confirmed = True, lia_message = [],
     lia_tx_hash = ''0xabc'', lia_confirmed_size = D 2, lia_fill_price = D 10, lia_fee = 0,
     lia_nonce_fetch_latency_ms = 0, lia_sign_order_latency_ms = 0,
     lia_send_tx_ack_latency_ms = 0, lia_place_to_http_ack_latency_ms = 0,
     lia_http_ack_latency_ms = 0, lia_fill_confirm_latency_ms = 0, lia_confirm_attempts = 1\<rparr>"

definition demo_env :: env where
  "demo_env = \<lparr>
     env_hl_bbo = (\<lambda>_ _. hl demo_wide), env_lighter_bbo = (\<lambda>_ _. lighter demo_wide),
     env_hl_limit = (\<lambda>_ _. \<lparr>hla_ok = True, hla_message = [], hla_oid = ''77'',
        hla_sign_latency_ms = 0, hla_ws_send_call_latency_ms = 0,
        hla_ws_send_to_response_rx_latency_ms = 0, hla_response_rx_to_unblock_latency_ms = 0\<rparr>),
     env_hl_ioc = (\<lambda>_ _. \<lparr>hia_ok = True, hia_message = [], hia_filled_size = D 2,
        hia_avg_fill_price = D 10, hia_sign_latency_ms = 0, hia_ws_send_call_latency_ms = 0,
        hia_ws_send_to_response_rx_latency_ms = 0, hia_response_rx_to_unblock_latency_ms = 0\<rparr>),
     env_hl_cancel = (\<lambda>_ _ oid _. \<lparr>hca_ok = True, hca_message = [], hca_oid = oid\<rparr>),
     env_hl_reduce = (\<lambda>_ _ _ sz _. \<lparr>hra_ok = True, hra_message = [], hra_filled_size = sz,
        hra_avg_fill_price = D 10\<rparr>),
     env_lighter_limit = (\<lambda>_ _. \<lparr>lla_ok = True, lla_resting_confirmed = True, lla_message = [],
        lla_tx_hash = [], lla_client_order_index = 5, lla_order_index = 6,
        lla_nonce_fetch_latency_ms = 0, lla_sign_order_latency_ms = 0,
        lla_send_tx_ack_latency_ms = 0, lla_place_to_http_ack_latency_ms = 0,
        lla_http_ack_latency_ms = 0\<rparr>),
     env_lighter_cancel = (\<lambda>_ i _. \<lparr>lca_ok = True, lca_message = [], lca_tx_hash = [],
        lca_order_index = i, lca_nonce_fetch_latency_ms = 0, lca_sign_order_latency_ms = 0,
        lca_send_tx_ack_latency_ms = 0, lca_cancel_to_http_ack_latency_ms = 0\<rparr>),
     env_lighter_ioc = (\<lambda>_ _. demo_hedge_ack),
     env_steady_ms = (\<lambda>tr. 1000 * int (length tr)), env_epoch_ms = (\<lambda>tr. 5000),
     env_epoch_us = (\<lambda>tr. 5000000), env_perf_ns = (\<lambda>tr. word_of_nat (length tr))\<rparr>"

definition demo_world :: world where
  "demo_world = \<lparr>trace = [], perf = empty_collector, journal = None\<rparr>"

definition demo_engine :: engine where
  "demo_engine = (case engine_new default_engine_config of Inr e \<Rightarrow> e)"

lemma demo_engine_new: "engine_new default_engine_config = Inr demo_engine"
proof -
  have "hl_hedger_new (ec_strategy default_engine_config) = Inr demo_hedger"
    using demo_new by (simp add: default_engine_config_def)
  then show ?thesis by (simp add: demo_engine_def engine_new_def)
qed

lemma demo_engine_fields:
  "strategy demo_engine = demo_hedger" "en_config demo_engine = default_engine_config"
  "last_hl_place_ms demo_engine = 0" "last_hl_cancel_ms demo_engine = 0" "deferred_hl_action demo_engine = None"
  "hl_position_base demo_engine = 0" "active_hl_oid demo_engine = None"
  "\<not> speculative_hedge_sent demo_engine" "last_maker_direction demo_engine = ShortLighterLongHl" "recently_placed_oids demo_engine = {}"
proof -
  have "hl_hedger_new (ec_strategy default_engine_config) = Inr demo_hedger"
    using demo_new by (simp add: default_engine_config_def)
  then show "strategy demo_engine = demo_hedger" "en_config demo_engine = default_engine_config"
    "last_hl_place_ms demo_engine = 0" "last_hl_cancel_ms demo_engine = 0" "deferred_hl_action demo_engine = None"
    "hl_position_base demo_engine = 0" "active_hl_oid demo_engine = None"
    "\<not> speculative_hedge_sent demo_engine" "last_maker_direction demo_engine = ShortLighterLongHl" "recently_placed_oids demo_engine = {}"
    by (simp_all add: demo_engine_def engine_new_def)
qed

text \<open>The engine with one resting buy order of size two.\<close>

definition demo_resting :: engine where
  "demo_resting = demo_engine\<lparr>strategy := demo_pending, active_hl_oid := Some ''77'',
     recently_placed_oids := {''77''}, maker_order_placed_epoch_ms := 5000\<rparr>"

lemma demo_pending_inv: "hl_inv demo_pending"
proof -
  obtain a where s: "hl_on_market_snapshot demo_wide 1000 0 demo_hedger = (a, demo_pending)"
    using demo_place by (metis prod.collapse)
  have "hl_inv demo_hedger" by (simp add: demo_hedger_def hl_inv_initial)
  then show ?thesis by (rule hl_inv_market_snapshot [OF _ s])
qed

lemma demo_resting_inv: "engine_inv demo_resting"
  using engine_inv_new [OF demo_engine_new] demo_pending_inv
  by (simp add: demo_resting_def engine_inv_def demo_engine_fields demo_pending_def)

section \<open>Runs\<close>

text \<open>C1: Over any run of the engine (market data, fills, trade prints, hedge outcomes, position
  updates, in any order, whatever the venues answer) the strategy keeps its invariant and
  the configuration; fills are only accepted for the order believed live; a speculative
  hedge always belongs to that order; and a deferred action is a placement or a cancel
  that carries its order.\<close>

theorem engine_run_safe:
  assumes "engine_new c = Inr e" and "run_engine E evs e w = (e', w')"
  shows "hl_inv (strategy e') \<and> en_config e' = c
    \<and> (\<forall>oid. active_hl_oid e' = Some oid \<longrightarrow> recently_placed_oids e' = {oid})
    \<and> (speculative_hedge_sent e' \<longrightarrow> active_hl_oid e' = Some (speculative_hedge_oid e'))
    \<and> (\<forall>a. deferred_hl_action e' = Some a \<longrightarrow>
         act_type a \<in> {PlaceHlMaker, CancelHlMaker} \<and> act_maker_order a \<noteq> None)"
proof -
  from engine_inv_new [OF assms(1)] have "engine_inv e" "en_config e = c" by simp_all
  with engine_inv_run [OF _ assms(2)] have inv: "engine_inv e'" and "en_config e' = c" by simp_all
  moreover have "act_type a \<in> {PlaceHlMaker, CancelHlMaker} \<and> act_maker_order a \<noteq> None"
    if "action_ok a" for a using that by (auto simp: action_ok_def)
  ultimately show ?thesis by (simp add: engine_inv_def)
qed

theorem engine_run_safe_witness:
  "hl_inv (strategy (fst (run_engine demo_env [MarketData 1000, HlFill (D 10) (D 2) demo_wide ''77'' 9 0]
     demo_engine demo_world)))"
  by (rule conjunct1 [OF engine_run_safe [OF demo_engine_new surjective_pairing]])

text \<open>C2: The rate limiter: over any run, the instants (steady clock) at which Hyperliquid
  maker orders are placed are each at least \<open>hl_order_interval_ms\<close> after the one before,
  and likewise the instants of the cancels.\<close>

theorem placements_rate_limited:
  assumes "engine_new c = Inr e" and "0 \<le> hl_order_interval_ms c" and "trace w = []"
    and "run_engine E evs e w = (e', w')"
  shows "(\<exists>ts. stamps is_hl_limit None (trace w') = map Some ts \<and> spaced (hl_order_interval_ms c) ts)
    \<and> (\<exists>ts. stamps is_hl_cancel None (trace w') = map Some ts \<and> spaced (hl_order_interval_ms c) ts)"
proof -
  from engine_inv_new [OF assms(1)] have inv: "engine_inv e" and c: "en_config e = c" by simp_all
  have run: "hl_places.run E evs e w = (e', w')" using assms(4) by (simp add: run_engine_limited)
  show ?thesis
    using hl_places.run_spaced [OF inv _ _ run] hl_cancels.run_spaced [OF inv _ _ run] assms(2,3)
    by (simp add: c)
qed

theorem placements_rate_limited_witness:
  "\<exists>ts. stamps is_hl_limit None (trace (snd (run_engine demo_env
       [MarketData 1000, MarketData 2000] demo_engine demo_world))) = map Some ts \<and> spaced 200 ts"
  using placements_rate_limited [OF demo_engine_new _ _ surjective_pairing,
      of demo_world demo_env "[MarketData 1000, MarketData 2000]"]
  by (simp add: default_engine_config_def demo_world_def del: run_engine.simps)

section \<open>Market data\<close>

definition new_orders :: "world \<Rightarrow> world \<Rightarrow> venue_event list" where
  "new_orders w w' = orders_of (drop (length (trace w)) (trace w'))"

lemma new_orders_append: "trace w' = trace w @ tr \<Longrightarrow> new_orders w w' = orders_of tr"
  by (simp add: new_orders_def)

lemma placed_not_blocked:
  assumes "exec_place_hl_maker E a s e w = (logs, e', w')" and "act_maker_order a \<noteq> None"
    and "trace w' = trace w @ tr" and "HlLimit req ack \<in> set tr"
  shows "0 < mid (hl s) \<and> position_limit_reached e (mid (hl s)) \<longrightarrow> \<not> would_increase e (hlr_is_buy req)"
  using assms(1)
proof (cases rule: exec_place_cases)
  case blocked
  with assms show ?thesis by simp
next
  case deferred
  with assms(3,4) show ?thesis by auto
next
  case (sent now)
  obtain order where o: "act_maker_order a = Some order" using assms(2) by blast
  from sent(3) have "hlr_is_buy req = po_is_buy order"
    by (cases rule: send_hl_maker_cases) (use assms(3,4) o in auto)
  with sent(1) o show ?thesis by (auto simp: place_blocked_def)
qed


lemma execute_not_blocked:
  assumes "action_ok a \<or> act_type a \<in> {NoAction, UnwindHlPosition}"
    and "execute_action E a s e w = (logs, e', w')"
    and "trace w' = trace w @ tr" and "HlLimit req ack \<in> set tr"
  shows "0 < mid (hl s) \<and> position_limit_reached e (mid (hl s)) \<longrightarrow> \<not> would_increase e (hlr_is_buy req)"
proof -
  from assms(1) consider "act_type a = PlaceHlMaker" "act_maker_order a \<noteq> None"
    | "act_type a = CancelHlMaker" | "act_type a = NoAction" | "act_type a = UnwindHlPosition"
    by (auto simp: action_ok_def)
  then show ?thesis
  proof cases
    case 1
    with placed_not_blocked [OF _ 1(2) assms(3,4)] assms(2) show ?thesis
      by (simp add: execute_action_simps)
  next
    case 2
    from 2 assms(2) have c: "exec_cancel_hl_maker E a s e w = (logs, e', w')"
      by (simp add: execute_action_simps)
    then have "HlLimit req ack \<notin> set tr"
    proof (cases rule: exec_cancel_cases)
      case (sent now oid)
      from sent(3) show ?thesis
        by (cases rule: send_hl_cancel_cases) (use assms(3) in \<open>auto simp: cancel_unwind_def split: if_splits\<close>)
    qed (use assms(3) in auto)
    with assms(4) show ?thesis by blast
  next
    case 3
    with assms show ?thesis by (simp add: execute_action_simps)
  next
    case 4
    with assms(2) have "exec_unwind_hl E e w = (logs, e', w')" by (simp add: execute_action_simps)
    then show ?thesis by (rule exec_unwind_hl_eq) (use assms(3,4) in auto)
  qed
qed

lemma decision_not_blocked:
  assumes "hl_inv (strategy e)" and "on_market_decision E now s e w = (logs, e', w')"
    and "trace w' = trace w @ tr" and "HlLimit req ack \<in> set tr"
  shows "0 < mid (hl s) \<and> position_limit_reached e (mid (hl s)) \<longrightarrow> \<not> would_increase e (hlr_is_buy req)"
  using assms(2)
proof (cases rule: on_market_decision_cases)
  case blocked
  with assms(3,4) show ?thesis by auto
next
  case (decided a h t1 t2 e2 w2)
  have pos: "position_limit_reached e2 m = position_limit_reached e m"
    "would_increase e2 b = would_increase e b" for m b
    using decided(2) by (simp_all add: position_limit_reached_def would_increase_def same_trading_def)
  have ok: "action_ok a \<or> act_type a \<in> {NoAction, UnwindHlPosition}"
    by (rule snapshot_action_ok [OF assms(1) decided(1)])
  obtain tr2 where "trace w' = trace w2 @ tr2"
    using limited_execute [OF ok decided(6)] by (auto simp: limited_defs quiet_step_def timed_step_def)
  with execute_not_blocked [OF ok decided(6) this] assms(3,4) decided(4) show ?thesis
    by (auto simp: pos)
qed

lemma limit_frame:
  "en_config e1 = en_config e \<Longrightarrow> hl_position_base e1 = hl_position_base e \<Longrightarrow>
     position_limit_reached e1 = position_limit_reached e \<and> would_increase e1 = would_increase e"
  by (simp add: fun_eq_iff position_limit_reached_def would_increase_def)

text \<open>C9: The position limit: whatever the hedger decides or the limiter had deferred, a
  market-data step places no maker order that would increase a position already worth
  \<open>max_position_usd\<close> or more at the Hyperliquid mid it has just read.\<close>

theorem limit_never_exceeded_by_placement:
  assumes "engine_inv e" and "on_market_data E now e w = (logs, e', w')"
    and "HlLimit req ack \<in> set (new_orders w w')"
    and "position_limit_reached e (mid (hl (fst (collect_snapshot E (en_config e) w))))"
    and "0 < mid (hl (fst (collect_snapshot E (en_config e) w)))"
  shows "\<not> would_increase e (hlr_is_buy req)"
  using assms(2)
proof (cases rule: on_market_data_cases)
  case (deferred s w1 a)
  let ?e = "e\<lparr>deferred_hl_action := None, next_retry_steady_ms := None\<rparr>"
  have ok: "action_ok a \<or> act_type a \<in> {NoAction, UnwindHlPosition}"
    using assms(1) deferred(2) by (simp add: engine_inv_def)
  obtain tr where tr: "trace w' = trace w1 @ tr"
    using limited_execute [OF ok deferred(4)] by (auto simp: limited_defs quiet_step_def timed_step_def)
  have "HlLimit req ack \<in> set tr"
    using assms(3) tr collect_snapshot_eq(1) [OF deferred(1)] by (auto simp: new_orders_def orders_of_def)
  from execute_not_blocked [OF ok deferred(4) tr this] limit_frame [of ?e e] assms(4,5) deferred(1)
  show ?thesis by simp
next
  case (deferred_quiet s w1 a e1 w2)
  have ok: "action_ok a" using assms(1) deferred_quiet(2) by (simp add: engine_inv_def)
  have inv1: "engine_inv e1"
    using engine_inv_execute [OF engine_inv_defer(2) [OF assms(1)] disjI1 [OF ok] deferred_quiet(3)] by simp
  from ok deferred_quiet(3) obtain tr1 where tr1: "trace w2 = trace w1 @ tr1" "orders_of tr1 = []"
    "en_config e1 = en_config e" "hl_position_base e1 = hl_position_base e"
    by (rule silent_execution) simp
  have h: "hl_inv (strategy e1)" using inv1 by (simp add: engine_inv_def)
  obtain tr2 where tr2: "trace w' = trace w2 @ tr2"
    using limited_decision [OF h deferred_quiet(4)] by (auto simp: limited_defs quiet_step_def timed_step_def)
  have "HlLimit req ack \<notin> set tr1" using no_orders_quiet [OF tr1(2)] by auto
  then have "HlLimit req ack \<in> set tr2"
    using assms(3) tr1 tr2 collect_snapshot_eq(1) [OF deferred_quiet(1)]
    by (auto simp: new_orders_def orders_of_def)
  from decision_not_blocked [OF h deferred_quiet(4) tr2 this] limit_frame [OF tr1(3,4)]
    assms(4,5) deferred_quiet(1)
  show ?thesis by simp
next
  case (direct s w1)
  have h: "hl_inv (strategy e)" using assms(1) by (simp add: engine_inv_def)
  obtain tr where tr: "trace w' = trace w1 @ tr"
    using limited_decision [OF h direct(2)] by (auto simp: limited_defs quiet_step_def timed_step_def)
  have "HlLimit req ack \<in> set tr"
    using assms(3) tr collect_snapshot_eq(1) [OF direct(1)] by (auto simp: new_orders_def orders_of_def)
  from decision_not_blocked [OF h direct(2) tr this] assms(4,5) direct(1) show ?thesis by simp
qed


text \<open>A placement of the concrete engine while it is short beyond its limit.\<close>

definition demo_live :: spread_snapshot where
  "demo_live = fst (collect_snapshot demo_env default_engine_config demo_world)"

lemma demo_live_eq: "fst (collect_snapshot demo_env default_engine_config w) = demo_live"
  "env_hl_bbo E = env_hl_bbo demo_env \<Longrightarrow> env_lighter_bbo E = env_lighter_bbo demo_env \<Longrightarrow>
     fst (collect_snapshot E default_engine_config w) = demo_live"
  "lighter demo_live = lighter demo_wide" "hl demo_live = hl demo_wide"
  "env_hl_bbo E = env_hl_bbo demo_env \<Longrightarrow> env_lighter_bbo E = env_lighter_bbo demo_env \<Longrightarrow>
     fst (collect_snapshot E (default_engine_config\<lparr>dry_run := dry\<rparr>) w) = demo_live"
  by (simp_all add: demo_live_def collect_snapshot_def world_simps Let_def demo_env_def)

lemma demo_live_spread: "D 30 \<le> cross_spread_bps demo_live"
  by (simp add: demo_live_def collect_snapshot_def world_simps demo_env_def default_engine_config_def
      demo_wide_def mid_def double_eval)

definition demo_short :: engine where
  "demo_short = demo_engine\<lparr>hl_position_base := D (- 1000)\<rparr>"

lemma demo_live_decision:
  "act_type (fst (hl_on_market_snapshot demo_live 1000 pos demo_hedger)) = PlaceHlMaker"
  "\<exists>order. act_maker_order (fst (hl_on_market_snapshot demo_live 1000 pos demo_hedger)) = Some order
     \<and> po_is_buy order"
proof -
  have v: "snapshot_valid demo_live 1500"
    using demo_valid(1) by (simp add: snapshot_valid_def demo_live_eq)
  have d: "hl_direction_for_spread (cross_spread_bps demo_live) = ShortLighterLongHl"
    "D 2 \<le> \<bar>cross_spread_bps demo_live\<bar>"
    using demo_live_spread
    by (cases "cross_spread_bps demo_live"; simp add: hl_direction_for_spread_def double_eval)+
  have eff: "effective_spread_bps demo_hedger x pos = D 2" for x
    by (simp add: effective_spread_bps_def demo_hedger_def initial_hedger_def
        default_strategy_config_def double_eval)
  have g: "gate (hl_update_gate demo_live 1000 pos demo_hedger) =
      \<lparr>sg_armed = True, sg_direction = ShortLighterLongHl, sg_entry_spread_bps = D 2\<rparr>"
    using d by (simp add: hl_update_gate_def eff hl_can_arm_def Let_def)
      (simp add: demo_hedger_def initial_hedger_def disarmed_gate_def default_strategy_config_def)
  obtain a h where r: "hl_on_market_snapshot demo_live 1000 pos demo_hedger = (a, h)" by fastforce
  have i: "state demo_hedger = Idle" "max_quote_age_ms (config demo_hedger) = 1500"
    by (simp_all add: demo_hedger_def initial_hedger_def default_strategy_config_def)
  from r show "act_type (fst (hl_on_market_snapshot demo_live 1000 pos demo_hedger)) = PlaceHlMaker"
    by (cases rule: hl_on_market_snapshot_cases) (simp_all add: r v i g)
  from r show "\<exists>order. act_maker_order (fst (hl_on_market_snapshot demo_live 1000 pos demo_hedger)) = Some order
     \<and> po_is_buy order"
    by (cases rule: hl_on_market_snapshot_cases)
      (simp_all add: r v i g hl_build_maker_order_def Let_def)
qed

lemma demo_place_run_with:
  assumes "env_hl_bbo E = env_hl_bbo demo_env" "env_lighter_bbo E = env_lighter_bbo demo_env"
    and "env_steady_ms E = env_steady_ms demo_env"
    and e: "strategy e = demo_hedger" "en_config e = default_engine_config\<lparr>dry_run := dry\<rparr>"
      "deferred_hl_action e = None" "last_hl_place_ms e = 0"
    and lim: "\<not> (position_limit_reached e (mid (hl demo_wide)) \<and> would_increase e True)"
  shows "\<exists>logs e' w' req ack. on_market_data E 1000 e demo_world = (logs, e', w')
    \<and> new_orders demo_world w' = [HlLimit req ack] \<and> hlr_is_buy req
    \<and> (\<exists>tr. ack = env_hl_limit E tr req)"
proof -
  obtain logs e' w' where r: "on_market_data E 1000 e demo_world = (logs, e', w')"
    by (rule prod_cases3)
  have "\<exists>req ack. new_orders demo_world w' = [HlLimit req ack] \<and> hlr_is_buy req
    \<and> (\<exists>tr. ack = env_hl_limit E tr req)"
    using r
  proof (cases rule: on_market_data_cases)
    case (direct s w1)
    have s: "s = demo_live" using direct(1) demo_live_eq(5) [OF assms(1,2)] e(2) by (metis fst_conv)
    have t1: "trace w1 = trace demo_world @ [HlBbo ''HYPE'' (hl s), LighterBbo 24 (lighter s)]"
      using collect_snapshot_eq(1) [OF direct(1)] e(2) by (simp add: default_engine_config_def)
    note dec = demo_live_decision [of "hl_position_base e"]
    from direct(2) show ?thesis
    proof (cases rule: on_market_decision_cases)
      case (blocked a h t1 t2 order)
      with lim e dec s show ?thesis by (auto simp: demo_live_eq)
    next
      case (decided a h p1 p2 e2 w2)
      have a: "act_type a = PlaceHlMaker" "\<exists>order. act_maker_order a = Some order \<and> po_is_buy order"
        using dec decided(1) e(1) s by simp_all
      have nb: "\<not> place_blocked a s e2"
        using a(2) lim s decided(2) limit_frame [of e2 e]
        by (auto simp: place_blocked_def demo_live_eq same_trading_def)
      have len: "length (trace w2) = 4" using decided(4) t1 by (simp add: demo_world_def)
      from decided(6) a(1) have "exec_place_hl_maker E a s e2 w2 = (logs, e', w')"
        by (simp add: execute_action_simps)
      then show ?thesis
      proof (cases rule: exec_place_cases)
        case blocked
        with nb show ?thesis by simp
      next
        case (deferred now retry)
        have "now = 4000" using deferred(6) len assms(3) by (simp add: demo_env_def)
        with deferred(2) e(2,4) decided(2,3) show ?thesis
          by (simp add: hl_place_retry_at_ms_def frame_defs default_engine_config_def Let_def)
      next
        case (sent now)
        from sent(3) show ?thesis
          by (cases rule: send_hl_maker_cases)
            (use a(2) decided(4) t1 in \<open>auto simp: new_orders_def demo_world_def intro: exI\<close>)
      qed
    qed
  qed (use e(3) in simp_all)
  with r show ?thesis by blast
qed

lemma demo_dry_config: "default_engine_config = default_engine_config\<lparr>dry_run := True\<rparr>"
  by (simp add: default_engine_config_def)

lemmas demo_place_run = demo_place_run_with [of _ _ True, folded demo_dry_config]

theorem limit_never_exceeded_by_placement_witness:
  "\<exists>logs e' w' req ack. on_market_data demo_env 1000 demo_short demo_world = (logs, e', w')
    \<and> new_orders demo_world w' = [HlLimit req ack] \<and> \<not> would_increase demo_short (hlr_is_buy req)"
proof -
  have f: "strategy demo_short = demo_hedger" "en_config demo_short = default_engine_config"
    "deferred_hl_action demo_short = None" "last_hl_place_ms demo_short = 0"
    by (simp_all add: demo_short_def demo_engine_fields)
  have neg: "\<not> would_increase demo_short True"
    by (simp add: would_increase_def demo_short_def double_eval)
  have inv: "engine_inv demo_short"
    using engine_inv_new [OF demo_engine_new] by (simp add: demo_short_def engine_inv_def)
  have s: "hl (fst (collect_snapshot demo_env (en_config demo_short) demo_world)) = hl demo_wide"
    by (simp add: f(2) demo_live_eq)
  have lim: "position_limit_reached demo_short
      (mid (hl (fst (collect_snapshot demo_env (en_config demo_short) demo_world))))"
    unfolding s unfolding position_limit_reached_def f(2)
    by (simp add: demo_short_def default_engine_config_def default_strategy_config_def demo_wide_def
        mid_def double_eval)
  have pos: "0 < mid (hl (fst (collect_snapshot demo_env (en_config demo_short) demo_world)))"
    unfolding s by (simp add: demo_wide_def mid_def double_eval)
  obtain logs e' w' req ack where r: "on_market_data demo_env 1000 demo_short demo_world = (logs, e', w')"
    "new_orders demo_world w' = [HlLimit req ack]" "hlr_is_buy req"
    using demo_place_run [OF refl refl refl f] neg by blast
  with limit_never_exceeded_by_placement [OF inv r(1) _ lim pos, of req ack] show ?thesis by auto
qed

section \<open>Fills\<close>



section \<open>Speculative hedges\<close>


text \<open>A resting order of which \<open>0.001\<close> units were hedged ahead of the fill.\<close>

definition demo_hedged :: engine where
  "demo_hedged = demo_resting\<lparr>speculative_hedge_sent := True, speculative_hedge_size := D (1 / 1000),
     speculative_hedge_oid := ''77''\<rparr>"


text \<open>At a difference of exactly \<open>0.001\<close> the reconciliation takes its overshoot branch and
  sends an order of negative size, \<open>-0.001\<close>, on the side that unwinds the hedge.\<close>

theorem reconcile_boundary_order:
  assumes "on_hl_fill E px sz s oid rx fee e w = (logs, e', w')"
    and "oid \<in> recently_placed_oids e" and "speculative_hedge_sent e" and "oid = speculative_hedge_oid e"
    and "sz - speculative_hedge_size e = D (1 / 1000)"
  shows "\<exists>ack. new_orders w w' = [LighterIoc (ioc_request e s
    (last_maker_direction e \<noteq> ShortLighterLongHl) (D 15) (- D (1 / 1000))) ack]"
proof -
  have nl: "\<not> D (1 / 1000) < D (1 / 1000)" "\<bar>D (1 / 1000)\<bar> = D (1 / 1000)"
    by (simp_all add: double_eval)
  from assms have "reconcile_speculative E s sz oid e w = (logs, e', w')"
    by (simp add: on_hl_fill_def)
  then show ?thesis
    by (cases rule: reconcile_cases) (simp_all only: assms(5) nl, simp_all add: new_orders_def)
qed

theorem reconcile_boundary_order_witness:
  "\<exists>ack. new_orders demo_world (snd (snd (on_hl_fill demo_env (D 10) (D (1 / 500)) demo_wide ''77'' 9 0
     demo_hedged demo_world))) = [LighterIoc (ioc_request demo_hedged demo_wide False (D 15)
       (- D (1 / 1000))) ack]"
proof -
  obtain logs e' w' where r: "on_hl_fill demo_env (D 10) (D (1 / 500)) demo_wide ''77'' 9 0 demo_hedged demo_world
    = (logs, e', w')" by (rule prod_cases3)
  have f: "''77'' \<in> recently_placed_oids demo_hedged" "speculative_hedge_sent demo_hedged"
    "''77'' = speculative_hedge_oid demo_hedged" "speculative_hedge_size demo_hedged = D (1 / 1000)"
    "last_maker_direction demo_hedged = ShortLighterLongHl"
    using demo_engine_fields by (simp_all add: demo_hedged_def demo_resting_def)
  have d: "D (1 / 500) - speculative_hedge_size demo_hedged = D (1 / 1000)"
    unfolding f(4) by (simp add: double_eval)
  from reconcile_boundary_order [OF r f(1-3) d] f(5) r show ?thesis by simp
qed

text \<open>C13: A speculative hedge is justified: a trade print makes the engine send at most one
  order, and only while its order rests unhedged, for a print that is not older than the
  order and crosses its price, and with both venues quoting valid markets, neither older than the
  configured age, in the very books that the engine reads on this print; the order hedges
  the whole resting size on the opposite side at the price of those books, and is remembered if and
  only if it is confirmed.\<close>

theorem speculative_hedge_justified:
  assumes "on_trade_event E tr e w = (logs, e', w')" and "new_orders w w' \<noteq> []"
  shows "\<exists>oid order s ack. active_hl_oid e = Some oid \<and> pending_maker (strategy e) = Some order
    \<and> s = fst (collect_snapshot E (en_config e) w) \<and> \<not> speculative_hedge_sent e
    \<and> (te_exchange_time_ms tr = 0 \<or> maker_order_placed_epoch_ms e = 0
       \<or> maker_order_placed_epoch_ms e \<le> te_exchange_time_ms tr)
    \<and> trade_crosses (en_config e) order tr
    \<and> snapshot_valid s (max_quote_age_ms (ec_strategy (en_config e)))
    \<and> new_orders w w' = [LighterIoc (ioc_request e s (po_direction order = ShortLighterLongHl)
        (D 15) (po_size_base order)) ack]
    \<and> (if lia_ok ack \<and> lia_fill_confirmed ack
       then speculative_hedge_sent e' \<and> speculative_hedge_oid e' = oid
         \<and> speculative_hedge_size e' = po_size_base order
       else \<not> speculative_hedge_sent e')"
  using assms(1)
proof (cases rule: on_trade_event_cases)
  case ignored
  with assms(2) show ?thesis by (simp add: new_orders_def)
next
  case (stale s)
  with assms(2) collect_snapshot_eq(1) [OF stale(1)] show ?thesis by (simp add: new_orders_def)
next
  case (hedged oid order s w1 t1 t2 ack)
  have "new_orders w w' = [LighterIoc (ioc_request e s (po_direction order = ShortLighterLongHl)
      (D 15) (po_size_base order)) ack]"
    using hedged(8) collect_snapshot_eq(1) [OF hedged(6)] by (simp add: new_orders_def)
  moreover have "te_exchange_time_ms tr = 0 \<or> maker_order_placed_epoch_ms e = 0
      \<or> maker_order_placed_epoch_ms e \<le> te_exchange_time_ms tr"
    using hedged(4) by (auto simp: word_neq_0_conv)
  moreover have "if lia_ok ack \<and> lia_fill_confirmed ack
     then speculative_hedge_sent e' \<and> speculative_hedge_oid e' = oid
       \<and> speculative_hedge_size e' = po_size_base order
     else \<not> speculative_hedge_sent e'"
    using hedged(9) by (simp add: frame_defs clear_speculative_def split: if_splits)
  moreover have "s = fst (collect_snapshot E (en_config e) w)" using hedged(6) by simp
  ultimately show ?thesis using hedged(1,2,3,5,7) by blast
qed

definition demo_print :: trade_event where
  "demo_print = \<lparr>te_coin = ''HYPE'', te_price = D 9, te_size = D 2, te_is_buy = False,
     te_timestamp_ns = 1, te_exchange_time_ms = 6000\<rparr>"

lemma demo_print_hedged:
  "LighterIoc (ioc_request demo_resting demo_live True (D 15) (po_size_base demo_order)) demo_hedge_ack
     \<in> set (trace (snd (snd (on_trade_event demo_env demo_print demo_resting demo_world))))"
proof -
  have "active_hl_oid demo_resting = Some ''77''" "pending_maker (strategy demo_resting) = Some demo_order"
    "\<not> speculative_hedge_sent demo_resting" "en_config demo_resting = default_engine_config"
    using demo_engine_fields by (simp_all add: demo_resting_def demo_pending_def)
  moreover have "trade_crosses default_engine_config demo_order demo_print"
    by (simp add: trade_crosses_def default_engine_config_def demo_print_def demo_order_def
        hl_build_maker_order_def hl_demo_eval Let_def demo_wide_def mid_def lighter_anchored_hl_price_def double_eval)
  moreover have "maker_order_placed_epoch_ms demo_resting = 5000" by (simp add: demo_resting_def)
  moreover obtain w1 where c: "collect_snapshot demo_env default_engine_config demo_world = (demo_live, w1)"
    using demo_live_eq(1) [of demo_world] by (metis prod.collapse)
  moreover have "snapshot_valid demo_live (max_quote_age_ms (ec_strategy default_engine_config))"
    using demo_valid(1) by (simp add: snapshot_valid_def demo_live_eq(3,4) default_engine_config_def
        default_strategy_config_def)
  ultimately have "on_trade_event demo_env demo_print demo_resting demo_world =
      send_speculative_hedge demo_env demo_live demo_order ''77'' demo_print demo_resting w1"
    by (simp add: on_trade_event_def demo_print_def)
  moreover have "po_direction demo_order = ShortLighterLongHl"
    by (simp add: demo_order_def hl_build_maker_order_def Let_def)
  moreover have "env_lighter_ioc demo_env = (\<lambda>_ _. demo_hedge_ack)" by (simp add: demo_env_def)
  ultimately show ?thesis by (simp add: send_speculative_hedge_def Let_def world_simps)
qed

theorem speculative_hedge_justified_witness:
  "\<exists>logs e' w' oid. on_trade_event demo_env demo_print demo_resting demo_world = (logs, e', w')
     \<and> active_hl_oid demo_resting = Some oid \<and> length (new_orders demo_world w') = 1"
proof -
  obtain logs e' w' where r: "on_trade_event demo_env demo_print demo_resting demo_world = (logs, e', w')"
    by (rule prod_cases3)
  have "new_orders demo_world w' \<noteq> []"
    using demo_print_hedged unfolding r
    by (auto simp: new_orders_def demo_world_def orders_of_def filter_empty_conv intro: bexI [rotated])
  from speculative_hedge_justified [OF r this] r show ?thesis by (elim exE conjE) auto
qed

fun is_confirmed_hedge :: "venue_event \<Rightarrow> bool" where
  "is_confirmed_hedge (LighterIoc _ ack) = (lia_ok ack \<and> lia_fill_confirmed ack)"
| "is_confirmed_hedge _ = False"

lemma trade_confirmed:
  assumes "on_trade_event E tr e w = (logs, e', w')"
  obtains x where "trace w' = trace w @ x"
    "length (filter is_confirmed_hedge x) + (if speculative_hedge_sent e then 1 else 0)
       = (if speculative_hedge_sent e' then 1 else 0)"
  using assms
proof (cases rule: on_trade_event_cases)
  case ignored
  then show ?thesis by (intro that [of "[]"]) (simp_all add: same_trading_def)
next
  case (stale s)
  with collect_snapshot_eq(1) [OF stale(1)] show ?thesis by (intro that) (assumption, simp)
next
  case (hedged oid order s w1 t1 t2 ack)
  have "trace w' = trace w @ [HlBbo (hl_coin (en_config e)) (hl s),
      LighterBbo (lighter_market_id (en_config e)) (lighter s), PerfNs t1,
      LighterIoc (ioc_request e s (po_direction order = ShortLighterLongHl) (D 15) (po_size_base order)) ack,
      PerfNs t2]"
    using hedged(8) collect_snapshot_eq(1) [OF hedged(6)] by simp
  then show ?thesis
    by (rule that) (use hedged(3,9) in \<open>simp add: frame_defs clear_speculative_def split: if_splits\<close>)
qed

text \<open>One order is speculatively hedged at most once: however many trade prints arrive
  in a row, they lead to at most one confirmed Lighter order, and to none when the order
  is already hedged.\<close>

theorem speculative_hedge_at_most_once:
  assumes "run_engine E (map TradePrint trs) e w = (e', w')"
  shows "length (filter is_confirmed_hedge (drop (length (trace w)) (trace w')))
    \<le> (if speculative_hedge_sent e then 0 else 1)"
proof -
  have "\<exists>x. trace w' = trace w @ x
      \<and> length (filter is_confirmed_hedge x) + (if speculative_hedge_sent e then 1 else 0)
         = (if speculative_hedge_sent e' then 1 else 0)"
    using assms
  proof (induction trs arbitrary: e w)
    case Nil
    then show ?case by simp
  next
    case (Cons tr trs)
    obtain logs e1 w1 where s: "on_trade_event E tr e w = (logs, e1, w1)" by (rule prod_cases3)
    obtain x where x: "trace w1 = trace w @ x"
      "length (filter is_confirmed_hedge x) + (if speculative_hedge_sent e then 1 else 0)
         = (if speculative_hedge_sent e1 then 1 else 0)" by (rule trade_confirmed [OF s])
    from s Cons.prems have "run_engine E (map TradePrint trs) e1 w1 = (e', w')" by simp
    from Cons.IH [OF this] obtain y where y: "trace w' = trace w1 @ y"
      "length (filter is_confirmed_hedge y) + (if speculative_hedge_sent e1 then 1 else 0)
         = (if speculative_hedge_sent e' then 1 else 0)" by blast
    have "trace w' = trace w @ (x @ y)" using x(1) y(1) by simp
    moreover have "length (filter is_confirmed_hedge (x @ y)) + (if speculative_hedge_sent e then 1 else 0)
         = (if speculative_hedge_sent e' then 1 else 0)" using x(2) y(2) by simp
    ultimately show ?case by blast
  qed
  then show ?thesis by (auto split: if_splits)
qed

theorem speculative_hedge_at_most_once_witness:
  "length (filter is_confirmed_hedge (trace (snd (run_engine demo_env
     (map TradePrint [demo_print, demo_print]) demo_resting demo_world)))) \<le> 1"
  using speculative_hedge_at_most_once [OF surjective_pairing, of demo_world demo_env "[demo_print, demo_print]" demo_resting]
    demo_engine_fields
  by (simp add: demo_world_def demo_resting_def del: run_engine.simps)

section \<open>Cancels\<close>

text \<open>A cancel that the limiter lets through asks Hyperliquid to cancel the live order.  If
  that succeeds a speculative hedge of the order is unwound on Lighter (opposite side, full
  size) and the engine is idle with no order; if it fails nothing is unwound and the
  order, the hedge and the strategy are kept for the fill that may still come.\<close>

theorem cancel_unwinds_only_on_success:
  assumes "act_type a = CancelHlMaker" and "execute_action E a s e w = (logs, e', w')"
    and "active_hl_oid e = Some oid"
    and "hl_cancel_retry_at_ms e (env_steady_ms E (trace w)) = None"
  shows "\<exists>ack hedge_ack.
    new_orders w w' = HlCancel (hl_coin (en_config e)) oid (dry_run (en_config e)) ack
      # (if hca_ok ack \<and> speculative_hedge_sent e
         then [LighterIoc (ioc_request e s (last_maker_direction e \<noteq> ShortLighterLongHl) (D 15)
                 (speculative_hedge_size e)) hedge_ack] else [])
    \<and> hl_position_base e' = hl_position_base e
    \<and> (if hca_ok ack
       then active_hl_oid e' = None \<and> \<not> speculative_hedge_sent e' \<and> state (strategy e') = Idle
       else active_hl_oid e' = Some oid \<and> speculative_hedge_sent e' = speculative_hedge_sent e
         \<and> strategy e' = strategy e)"
proof -
  from assms(1,2) have "exec_cancel_hl_maker E a s e w = (logs, e', w')"
    by (simp add: execute_action_simps)
  then show ?thesis
  proof (cases rule: exec_cancel_cases)
    case (sent now oid')
    let ?e = "e\<lparr>last_hl_cancel_ms := now, next_retry_steady_ms := None, deferred_hl_action := None\<rparr>"
    have oid: "oid' = oid" using sent(2) assms(3) by simp
    from sent(3) show ?thesis
    proof (cases rule: send_hl_cancel_cases)
      case (cancelled t1 t2 ack ack')
      then show ?thesis
        by (intro exI [of _ ack] exI [of _ ack'])
          (simp add: oid new_orders_def cancel_unwind_def frame_defs clear_speculative_def)
    next
      case (failed t1 t2 ack)
      then show ?thesis
        using assms(3) by (intro exI [of _ ack] exI [of _ undefined])
          (simp add: oid new_orders_def frame_defs)
    qed
  qed (use assms(3,4) in simp_all)
qed

definition demo_cancel_action :: action where
  "demo_cancel_action = no_action\<lparr>act_type := CancelHlMaker, act_maker_order := Some demo_order\<rparr>"

theorem cancel_unwinds_only_on_success_witness:
  "\<exists>logs e' w'. execute_action demo_env demo_cancel_action demo_wide demo_hedged
      (happened (SteadyMs 900) demo_world) = (logs, e', w')
    \<and> length (new_orders (happened (SteadyMs 900) demo_world) w') \<ge> 1"
proof -
  let ?w = "happened (SteadyMs 900) demo_world"
  obtain logs e' w' where r: "execute_action demo_env demo_cancel_action demo_wide demo_hedged ?w
    = (logs, e', w')" by (rule prod_cases3)
  have f: "act_type demo_cancel_action = CancelHlMaker" "active_hl_oid demo_hedged = Some ''77''"
    "hl_cancel_retry_at_ms demo_hedged (env_steady_ms demo_env (trace ?w)) = None"
    using demo_engine_fields
    by (simp_all add: demo_cancel_action_def demo_hedged_def demo_resting_def hl_cancel_retry_at_ms_def
        demo_env_def demo_world_def default_engine_config_def)
  from cancel_unwinds_only_on_success [OF f(1) r f(2,3)] r show ?thesis by fastforce
qed

section \<open>Two ways to lose the order\<close>
















text \<open>A deferred placement outlives the reset of the strategy that asked for it: when the
  strategy is back to idle (after a fill, say), the next market data past the retry
  instant still sends the stale order, and the engine then holds a live order while the
  strategy believes itself idle, free to place another one.\<close>

theorem deferred_placement_outlives_reset:
  assumes "deferred_hl_action e = Some a" and "act_type a = PlaceHlMaker"
    and "act_maker_order a = Some order" and "state (strategy e) = Idle"
    and "next_retry_steady_ms e = Some t" and "t \<le> now"
    and "collect_snapshot E (en_config e) w = (s, w1)"
    and "\<not> position_limit_reached e (mid (hl s))"
    and "hl_order_interval_ms (en_config e) \<le> env_steady_ms E (trace w1) - last_hl_place_ms e"
  shows "\<exists>logs e' w' ack. on_market_data E now e w = (logs, e', w')
    \<and> new_orders w w' = [HlLimit (hl_limit_request e order) ack]
    \<and> state (strategy e') = Idle \<and> deferred_hl_action e' = None
    \<and> (hla_ok ack \<longrightarrow> active_hl_oid e' = Some (hla_oid ack))"
proof -
  let ?e = "e\<lparr>deferred_hl_action := None, next_retry_steady_ms := None\<rparr>"
  obtain logs e' w' where x: "execute_action E a s ?e w1 = (logs, e', w')" by (rule prod_cases3)
  then have p: "exec_place_hl_maker E a s ?e w1 = (logs, e', w')"
    using assms(2) by (simp add: execute_action_simps)
  have free: "hl_place_retry_at_ms ?e (env_steady_ms E (trace w1)) = None" "\<not> place_blocked a s ?e"
    using assms(3,8,9) limit_frame [of ?e e] by (simp_all add: retry_none place_blocked_def)
  have c: "trace w1 = trace w @ [HlBbo (hl_coin (en_config e)) (hl s),
      LighterBbo (lighter_market_id (en_config e)) (lighter s)]"
    using collect_snapshot_eq(1) [OF assms(7)] .
  have "logs \<noteq> [] \<and> (\<exists>ack. new_orders w w' = [HlLimit (hl_limit_request e order) ack]
    \<and> state (strategy e') = Idle \<and> deferred_hl_action e' = None
    \<and> (hla_ok ack \<longrightarrow> active_hl_oid e' = Some (hla_oid ack)))"
    using p
  proof (cases rule: exec_place_cases)
    case (sent n)
    from sent(3) show ?thesis
      by (cases rule: send_hl_maker_cases)
        (use assms(3,4) c in \<open>auto simp: new_orders_def frame_defs clear_speculative_def\<close>)
  qed (use free in simp_all)
  moreover have "on_market_data E now e w = (logs, e', w')" if "logs \<noteq> []"
    using x that assms(1,5,6,7) by (simp add: on_market_data_def execute_deferred_hl_action_def)
  ultimately show ?thesis by blast
qed

text \<open>The concrete engine, idle, with its order deferred at instant \<open>200\<close>.\<close>

definition demo_deferred :: engine where
  "demo_deferred = demo_engine\<lparr>deferred_hl_action := Some (no_action\<lparr>act_type := PlaceHlMaker,
     act_maker_order := Some demo_order\<rparr>), next_retry_steady_ms := Some 200\<rparr>"

theorem deferred_placement_outlives_reset_witness:
  "\<exists>logs e' w' ack. on_market_data demo_env 1000 demo_deferred demo_world = (logs, e', w')
    \<and> new_orders demo_world w' = [HlLimit (hl_limit_request demo_deferred demo_order) ack]
    \<and> state (strategy e') = Idle"
proof -
  obtain s w1 where c: "collect_snapshot demo_env (en_config demo_deferred) demo_world = (s, w1)"
    by fastforce
  have e: "en_config demo_deferred = default_engine_config" "strategy demo_deferred = demo_hedger"
    "last_hl_place_ms demo_deferred = 0"
    by (simp_all add: demo_deferred_def demo_engine_fields)
  have s: "s = demo_live" using c e(1) demo_live_eq(1) by (metis fst_conv)
  have "length (trace w1) = 2" using collect_snapshot_eq(1) [OF c] by (simp add: demo_world_def)
  then have free: "hl_order_interval_ms (en_config demo_deferred)
      \<le> env_steady_ms demo_env (trace w1) - last_hl_place_ms demo_deferred"
    by (simp add: e demo_env_def default_engine_config_def)
  have lim: "\<not> position_limit_reached demo_deferred (mid (hl s))"
    unfolding s demo_live_eq
    by (simp add: position_limit_reached_def demo_deferred_def demo_engine_fields default_engine_config_def
        default_strategy_config_def demo_wide_def mid_def double_eval)
  have d: "state (strategy demo_deferred) = Idle"
    by (simp add: e demo_hedger_def initial_hedger_def)
  from deferred_placement_outlives_reset [OF _ _ _ d _ _ c lim free, of _ demo_order 200 1000]
  show ?thesis by (fastforce simp: demo_deferred_def)
qed

end
