(* ===== verification/Engine_Lighter_Safety.thy ===== *)
theory Engine_Lighter_Safety
  imports Engine_Lighter_Run Engine_Hl_Safety
begin

text \<open>
  The properties of the Lighter-maker engine: its invariant, its rate limiters, what a fill
  does on the two venues, and the states from which it never trades again.
\<close>

section \<open>A concrete engine\<close>

definition demo_lighter_engine :: lighter_engine where
  "demo_lighter_engine = (case lighter_engine_new default_engine_config of Inr e \<Rightarrow> e)"

lemma demo_lighter_new: "lighter_engine_new default_engine_config = Inr demo_lighter_engine"
  and demo_lighter_fields: "le_strategy demo_lighter_engine = demo_hedger"
    "le_config demo_lighter_engine = default_engine_config"
    "active_lighter_order_index demo_lighter_engine = None"
    "deferred_lighter_action demo_lighter_engine = None" "last_lighter_place_ms demo_lighter_engine = 0"
proof -
  have "lm_hedger_new (ec_strategy default_engine_config) = Inr demo_hedger"
    using demo_new by (simp add: default_engine_config_def lm_hedger_new_def hl_hedger_new_def)
  then show "lighter_engine_new default_engine_config = Inr demo_lighter_engine"
    "le_strategy demo_lighter_engine = demo_hedger"
    "le_config demo_lighter_engine = default_engine_config"
    "active_lighter_order_index demo_lighter_engine = None"
    "deferred_lighter_action demo_lighter_engine = None" "last_lighter_place_ms demo_lighter_engine = 0"
    by (simp_all add: demo_lighter_engine_def lighter_engine_new_def)
qed

text \<open>The engine with a resting sell order of two units.\<close>

definition demo_lighter_order :: pending_maker_order where
  "demo_lighter_order = \<lparr>po_direction = ShortLighterLongHl, po_is_buy = False, po_price = D 10.05,
     po_size_base = D 2, po_trigger_spread_bps = D 3.49, po_entry_spread_bps = D 2\<rparr>"

definition demo_lighter_resting :: lighter_engine where
  "demo_lighter_resting = demo_lighter_engine\<lparr>le_strategy := demo_hedger\<lparr>state := PendingLighterMaker,
     pending_maker := Some demo_lighter_order\<rparr>, active_lighter_order_index := Some 6,
     active_lighter_client_order_index := Some 5\<rparr>"

lemma demo_lighter_resting_inv: "lighter_engine_inv demo_lighter_resting"
  using lighter_engine_inv_new [OF demo_lighter_new]
  by (simp add: lighter_engine_inv_def demo_lighter_resting_def demo_lighter_fields lm_inv_def
      demo_hedger_def initial_hedger_def disarmed_gate_def lm_order_ok_def demo_lighter_order_def)
    (simp add: demo_lighter_engine_def lighter_engine_new_def lm_hedger_new_def default_engine_config_def
      default_strategy_config_def double_eval)

section \<open>Runs\<close>

text \<open>C4: Over any run of the Lighter-maker engine, whatever the venues answer, the strategy
  keeps its invariant and never holds a position between two calls; the engine's live order
  is always the strategy's pending order, in the direction the engine would unwind; and a
  deferred placement is of the pending order with no other order live.\<close>

theorem lighter_engine_run_safe:
  assumes "lighter_engine_new c = Inr e" and "run_lighter_engine E evs e w = (e', w')"
  shows "lm_inv (le_strategy e') \<and> le_config e' = c \<and> open_position (le_strategy e') = None
    \<and> (active_lighter_order_index e' \<noteq> None \<longrightarrow> (\<exists>order. pending_maker (le_strategy e') = Some order
         \<and> po_direction order = le_maker_direction e'))
    \<and> (\<forall>a. deferred_lighter_action e' = Some a \<and> act_type a = PlaceLighterMaker \<longrightarrow>
         act_maker_order a = pending_maker (le_strategy e') \<and> active_lighter_order_index e' = None)"
  using lighter_inv_run [OF conjunct1 [OF lighter_engine_inv_new [OF assms(1)]] assms(2)]
    lighter_engine_inv_new [OF assms(1)]
  by (auto simp: lighter_engine_inv_def lm_action_ok_def)

theorem lighter_engine_run_safe_witness:
  "lm_inv (le_strategy (fst (run_lighter_engine demo_env [LMarketData 1000, LHedgeReject, LMarketData 2000]
     demo_lighter_engine demo_world)))"
  using lighter_engine_run_safe [OF demo_lighter_new surjective_pairing] by blast

text \<open>C5: The Lighter rate limiter: over any run, the instants (steady clock) at which Lighter
  maker orders are placed are each at least \<open>lighter_order_interval_ms\<close> after the one before,
  and likewise the instants of the cancels.\<close>

theorem lighter_orders_rate_limited:
  assumes "lighter_engine_new c = Inr e" and "0 \<le> lighter_order_interval_ms c" and "trace w = []"
    and "run_lighter_engine E evs e w = (e', w')"
  shows "(\<exists>ts. stamps is_lighter_limit None (trace w') = map Some ts
      \<and> spaced (lighter_order_interval_ms c) ts)
    \<and> (\<exists>ts. stamps is_lighter_cancel None (trace w') = map Some ts
      \<and> spaced (lighter_order_interval_ms c) ts)"
proof -
  note inv = lighter_engine_inv_new [OF assms(1)]
  have "\<exists>ts. stamps is_lighter_limit None (trace w') = map Some ts
      \<and> spaced (lighter_order_interval_ms (le_config e)) ts"
    by (rule lighter_places.run_spaced [of e w E evs e' w'])
      (use inv assms in \<open>simp_all add: run_lighter_limited\<close>)
  moreover have "\<exists>ts. stamps is_lighter_cancel None (trace w') = map Some ts
      \<and> spaced (lighter_order_interval_ms (le_config e)) ts"
    by (rule lighter_cancels.run_spaced [of e w E evs e' w'])
      (use inv assms in \<open>simp_all add: run_lighter_limited\<close>)
  ultimately show ?thesis using inv by simp
qed

theorem lighter_orders_rate_limited_witness:
  "\<exists>ts. stamps is_lighter_limit None (trace (snd (run_lighter_engine demo_env
      [LMarketData 1000, LMarketData 2000] demo_lighter_engine demo_world))) = map Some ts
    \<and> spaced 500 ts"
proof -
  have "0 \<le> lighter_order_interval_ms default_engine_config" "trace demo_world = []"
    "lighter_order_interval_ms default_engine_config = 500"
    by (simp_all add: default_engine_config_def demo_world_def)
  with lighter_orders_rate_limited [OF demo_lighter_new _ _ surjective_pairing] show ?thesis by metis
qed

section \<open>Fills\<close>

lemma clock_reads_orders: "clock_reads tr \<Longrightarrow> orders_of tr = []"
  by (auto simp: clock_reads_def orders_of_def filter_empty_conv)

text \<open>C3: A fill of the live order is hedged at once: exactly one Hyperliquid order is sent, for
  the filled size, a buy when the Lighter order was a sell.  If it fills at all, a trade is
  journalled (with the size that did fill, also when that is only a part); if not, the fill
  is traded back on Lighter on the side opposite to the maker order and nothing is journalled.
  Either way the engine is idle and has forgotten the order, so every later fill of the same
  order is ignored.\<close>

theorem lighter_fill_is_hedged_or_unwound:
  assumes "lighter_engine_inv e" and "active_lighter_order_index e = Some i"
    and "on_lighter_fill E px sz s i ci rx e w = (logs, e', w')"
  shows "\<exists>order ack unwind. pending_maker (le_strategy e) = Some order
    \<and> new_orders w w' = HlIoc \<lparr>hir_coin = hl_coin (le_config e), hir_is_buy = (\<not> po_is_buy order),
          hir_price = aggressive_hl_price s (po_direction order), hir_size = sz,
          hir_dry_run = dry_run (le_config e)\<rparr> ack
        # (if hia_ok ack \<and> 0 < hia_filled_size ack then []
           else [LighterIoc (lighter_unwind_request e s (po_is_buy order) sz) unwind])
    \<and> (if hia_ok ack \<and> 0 < hia_filled_size ack
       then \<exists>entry. journal w' = map_option (journal_record entry) (journal w)
         \<and> je_type entry = CHR ''T'' \<and> je_hl_sz entry = hia_filled_size ack
       else journal w' = journal w)
    \<and> state (le_strategy e') = Idle \<and> open_position (le_strategy e') = None
    \<and> on_lighter_fill E px2 sz2 s2 i ci2 rx2 e' w2 = ([], e', w2)"
  using assms(3)
proof (cases rule: lighter_fill_cases)
  case ignored
  with assms(1,2) show ?thesis by (auto simp: lighter_engine_inv_def)
next
  case (hedge order a h w1 pt)
  have o: "lm_order_ok order" "le_maker_direction e = po_direction order"
    using assms(1,2) hedge(2) by (auto simp: lighter_engine_inv_def lm_inv_def)
  then have side: "po_direction order = ShortLighterLongHl \<longleftrightarrow> \<not> po_is_buy order"
    "le_maker_direction e = LongLighterShortHl \<longleftrightarrow> po_is_buy order"
    by (cases "po_direction order"; simp add: lm_order_ok_def)+
  have ignored: "on_lighter_fill E px2 sz2 s2 i ci2 rx2 (forget_order g) w2 = ([], forget_order g, w2)" for g
    by (simp add: on_lighter_fill_def forget_order_def)
  from hedge(8) show ?thesis
  proof (cases rule: exec_hl_taker_cases)
    case (hedged t1 t2 ack clocks entry)
    have "new_orders w w' = [HlIoc (hl_hedge_request e (the (act_hl_hedge_intent a))) ack]"
      using hedged(4) clock_reads_orders [OF hedged(5)] hedge(6) by (simp add: new_orders_def)
    moreover have "state (le_strategy e') = Idle" "open_position (le_strategy e') = None"
      using hedged(6) by (simp_all add: forget_order_def)
    ultimately show ?thesis
      using hedged(1,2,7-9) hedge(2,4,7) ignored
      by (intro exI [of _ order] exI [of _ ack]) (auto simp: side hedged(6))
  next
    case (unwound t1 t2 ack unwind)
    have "new_orders w w' = [HlIoc (hl_hedge_request e (the (act_hl_hedge_intent a))) ack,
        LighterIoc (lighter_unwind_request e s (po_is_buy order) (hh_size_base (the (act_hl_hedge_intent a)))) unwind]"
      using unwound(3) hedge(6) by (simp add: new_orders_def side)
    moreover have "state (le_strategy e') = Idle" "open_position (le_strategy e') = None"
      using unwound(4) by (simp_all add: forget_order_def)
    ultimately show ?thesis
      using unwound(1,5) hedge(2,4,7) ignored
      by (intro exI [of _ order] exI [of _ ack] exI [of _ unwind]) (simp add: side unwound(4) del: de_Morgan_conj)
  qed
qed

theorem lighter_fill_is_hedged_or_unwound_witness:
  "\<exists>logs e' w'. on_lighter_fill demo_env (D 10.05) (D 1) demo_wide 6 5 9 demo_lighter_resting demo_world
      = (logs, e', w') \<and> new_orders demo_world w' \<noteq> []
    \<and> on_lighter_fill demo_env (D 10.05) (D 1) demo_wide 6 5 9 e' w' = ([], e', w')"
proof -
  obtain logs e' w' where r: "on_lighter_fill demo_env (D 10.05) (D 1) demo_wide 6 5 9 demo_lighter_resting
    demo_world = (logs, e', w')" by (rule prod_cases3)
  have i: "active_lighter_order_index demo_lighter_resting = Some 6"
    by (simp add: demo_lighter_resting_def)
  from lighter_fill_is_hedged_or_unwound [OF demo_lighter_resting_inv i r,
      of "D 10.05" "D 1" demo_wide 5 9 w'] r show ?thesis by fastforce
qed

section \<open>States the engine never leaves\<close>

text \<open>
  The strategy waits for its order, but no order is live and none will be placed: fills are
  ignored for want of a live order, and a cancel has nothing to cancel.
\<close>

definition lighter_wedged :: "lighter_engine \<Rightarrow> bool" where
  "lighter_wedged e \<longleftrightarrow> lighter_engine_inv e \<and> state (le_strategy e) \<noteq> Idle
     \<and> active_lighter_order_index e = None
     \<and> (\<forall>a. deferred_lighter_action e = Some a \<longrightarrow> act_type a = CancelLighterMaker)"

lemma new_orders_none: "trace w' = trace w @ tr \<Longrightarrow> orders_of tr = [] \<Longrightarrow> new_orders w w' = []"
  by (simp add: new_orders_def)

lemma lighter_wedged_cancel:
  assumes "lighter_wedged e" and "act_type a = CancelLighterMaker"
    and "lighter_execute_action E a s e w = (logs, e', w')"
  obtains tr where "lighter_wedged e'" "trace w' = trace w @ tr" "orders_of tr = []"
proof -
  have x: "exec_cancel_lighter E a e w = (logs, e', w')"
    using assms(2,3) by (simp add: lighter_execute_simps)
  have inv: "lighter_engine_inv e'"
    using lighter_inv_execute [OF _ disjI2 assms(3)] assms(1,2)
    by (simp add: lighter_wedged_def lm_action_ok_def)
  from x show ?thesis
  proof (cases rule: exec_cancel_lighter_cases)
    case (deferred now retry)
    with inv assms(1,2) show ?thesis
      by (intro that [of "[SteadyMs now]"]) (simp_all add: lighter_wedged_def)
  next
    case (no_order now)
    with inv assms(1) show ?thesis
      by (intro that [of "[SteadyMs now]"]) (simp_all add: lighter_wedged_def)
  next
    case (sent now t1 t2 ack i)
    with assms(1) show ?thesis by (simp add: lighter_wedged_def)
  qed
qed

lemma lighter_wedged_decision:
  assumes "lighter_wedged e" and "lighter_on_market_decision E now s e w = (logs, e', w')"
  obtains tr where "lighter_wedged e'" "trace w' = trace w @ tr" "orders_of tr = []"
proof -
  obtain a h t1 t2 w1 pt where d: "lm_on_market_snapshot s now (le_strategy e) = (a, h)"
    "trace w1 = trace w @ [PerfNs t1, PerfNs t2]"
    "lighter_execute_action E a s (e\<lparr>le_strategy := h, le_perf_trace := pt\<rparr>) w1 = (logs, e', w')"
    by (rule lighter_decision_cases [OF assms(2)])
  let ?e = "e\<lparr>le_strategy := h, le_perf_trace := pt\<rparr>"
  have i: "lighter_engine_inv e" "lm_inv (le_strategy e)" "state (le_strategy e) \<noteq> Idle"
    using assms(1) by (auto simp: lighter_wedged_def lighter_engine_inv_def)
  have a: "act_type a \<noteq> PlaceLighterMaker" "state h \<noteq> Idle"
    using lm_snapshot_action(4) [OF d(1) i(2,3)] by simp_all
  then have w: "lighter_wedged ?e"
    using assms(1) lighter_inv_decided(1) [OF i(1) d(1), of pt] by (simp add: lighter_wedged_def)
  consider "a = no_action" | "act_type a = CancelLighterMaker"
    using lm_snapshot_action(1) [OF d(1) i(2)] a(1) by blast
  then show ?thesis
  proof cases
    case 1
    with d(2,3) w show ?thesis
      by (intro that [of "[PerfNs t1, PerfNs t2]"]) (simp_all add: lighter_execute_simps)
  next
    case 2
    from lighter_wedged_cancel [OF w 2 d(3)] obtain tr where
      "lighter_wedged e'" "trace w' = trace w1 @ tr" "orders_of tr = []" .
    with d(2) show ?thesis by (intro that [of "[PerfNs t1, PerfNs t2] @ tr"]) simp_all
  qed
qed

lemma lighter_wedged_step:
  assumes "lighter_wedged e" and "lighter_engine_step E ev e w = (logs, e', w')"
  obtains tr where "lighter_wedged e'" "trace w' = trace w @ tr" "orders_of tr = []"
proof (cases ev)
  case (LMarketData now)
  with assms(2) have "lighter_on_market_data E now e w = (logs, e', w')" by simp
  then show ?thesis
  proof (cases rule: lighter_market_data_cases)
    case (deferred s w1 a)
    let ?e = "e\<lparr>deferred_lighter_action := None, le_next_retry_steady_ms := None\<rparr>"
    have "lighter_wedged ?e" "act_type a = CancelLighterMaker"
      using assms(1) deferred(2) lighter_inv_forget_deferred(1) by (simp_all add: lighter_wedged_def)
    from lighter_wedged_cancel [OF this deferred(3)] obtain tr where
      "lighter_wedged e'" "trace w' = trace w1 @ tr" "orders_of tr = []" .
    with lighter_collect_snapshot_eq(1) [OF deferred(1)] show ?thesis
      by (intro that [of "[HlBbo (hl_coin (le_config e)) (hl s),
            LighterBbo (lighter_market_id (le_config e)) (lighter s)] @ tr"]) simp_all
  next
    case (deferred_quiet s w1 a e1 w2)
    let ?e = "e\<lparr>deferred_lighter_action := None, le_next_retry_steady_ms := None\<rparr>"
    have "lighter_wedged ?e" "act_type a = CancelLighterMaker"
      using assms(1) deferred_quiet(2) lighter_inv_forget_deferred(1) by (simp_all add: lighter_wedged_def)
    from lighter_wedged_cancel [OF this deferred_quiet(3)] obtain tr where tr:
      "lighter_wedged e1" "trace w2 = trace w1 @ tr" "orders_of tr = []" .
    from lighter_wedged_decision [OF tr(1) deferred_quiet(4)] obtain tr' where
      "lighter_wedged e'" "trace w' = trace w2 @ tr'" "orders_of tr' = []" .
    with tr lighter_collect_snapshot_eq(1) [OF deferred_quiet(1)] show ?thesis
      by (intro that [of "[HlBbo (hl_coin (le_config e)) (hl s),
            LighterBbo (lighter_market_id (le_config e)) (lighter s)] @ tr @ tr'"]) simp_all
  next
    case (direct s w1)
    from lighter_wedged_decision [OF assms(1) direct(2)] obtain tr where
      "lighter_wedged e'" "trace w' = trace w1 @ tr" "orders_of tr = []" .
    with lighter_collect_snapshot_eq(1) [OF direct(1)] show ?thesis
      by (intro that [of "[HlBbo (hl_coin (le_config e)) (hl s),
            LighterBbo (lighter_market_id (le_config e)) (lighter s)] @ tr"]) simp_all
  qed
next
  case (LFill px sz s i ci rx)
  with assms have "(logs, e', w') = ([], e, w)"
    by (simp add: lighter_wedged_def on_lighter_fill_def)
  with assms(1) show ?thesis by (intro that [of "[]"]) simp_all
next
  case LHedgeReject
  have "open_position (le_strategy e) = None"
    using assms(1) by (simp add: lighter_wedged_def lighter_engine_inv_def)
  with LHedgeReject assms(2) lighter_reject_quiet [of e E w logs e' w'] obtain s where
    "e' = e" "lighter_collect_snapshot E (le_config e) w = (s, w')" by auto
  with assms(1) lighter_collect_snapshot_eq(1) show ?thesis
    by (intro that [of "[HlBbo (hl_coin (le_config e)) (hl s),
          LighterBbo (lighter_market_id (le_config e)) (lighter s)]"]) auto
qed

lemma lighter_wedged_run:
  assumes "lighter_wedged e" and "run_lighter_engine E evs e w = (e', w')"
  shows "lighter_wedged e' \<and> new_orders w w' = []"
proof -
  have "lighter_wedged e' \<and> (\<exists>tr. trace w' = trace w @ tr \<and> orders_of tr = [])"
    using assms
  proof (induction evs arbitrary: e w)
    case (Cons ev evs)
    obtain logs e1 w1 where s: "lighter_engine_step E ev e w = (logs, e1, w1)" by (rule prod_cases3)
    from lighter_wedged_step [OF Cons.prems(1) s] obtain tr where tr:
      "lighter_wedged e1" "trace w1 = trace w @ tr" "orders_of tr = []" .
    from Cons.prems(2) s have "run_lighter_engine E evs e1 w1 = (e', w')" by simp
    from Cons.IH [OF tr(1) this] tr(2,3) show ?case by auto
  qed simp
  then show ?thesis by (auto simp: new_orders_none)
qed

lemma lighter_wedged_state:
  "lighter_wedged e \<Longrightarrow> state (le_strategy e) \<in> {PendingLighterMaker, CancelledPendingLighterConfirm}"
  by (cases "state (le_strategy e)") (auto simp: lighter_wedged_def lighter_engine_inv_def lm_inv_def)

text \<open>A placement that is not confirmed leaves the engine in such a state.\<close>

definition sends :: "venue_event \<Rightarrow> world \<Rightarrow> world \<Rightarrow> bool" where
  "sends ev w w' \<longleftrightarrow> (\<exists>tr. trace w' = trace w @ tr \<and> ev \<in> set tr)"

lemma limited_extends: "lighter_limited e w e' w' \<Longrightarrow> \<exists>tr. trace w' = trace w @ tr"
  by (auto simp: lighter_limited_def paced_def quiet_step_def timed_step_def)

lemma sends_new_orders:
  "lighter_limited e w e' w' \<Longrightarrow> ev \<in> set (new_orders w w') \<Longrightarrow> sends ev w w'"
  using limited_extends [of e w e' w'] by (auto simp: sends_def new_orders_def orders_of_def)

lemma sends_after:
  assumes "still e w e1 w1" and "lighter_limited e1 w1 e' w'" and "sends (LighterLimit req ack) w w'"
  shows "sends (LighterLimit req ack) w1 w'"
  using assms(1,3) limited_extends [OF assms(2)] by (fastforce simp: still_def quiet_step_def sends_def)

lemma unconfirmed_action:
  assumes "lighter_engine_inv e" and "a = no_action \<or> lm_action_ok e a"
    and "lighter_execute_action E a s e w = (logs, e', w')"
    and "sends (LighterLimit req ack) w w'" and "\<not> (lla_ok ack \<and> lla_resting_confirmed ack)"
  shows "lighter_wedged e'"
proof -
  have inv: "lighter_engine_inv e'" using lighter_inv_execute [OF assms(1-3)] by simp
  consider "a = no_action" | "act_type a = CancelLighterMaker"
    | "act_type a = PlaceLighterMaker" "pending_maker (le_strategy e) \<noteq> None"
        "active_lighter_order_index e = None"
    using assms(2) by (auto simp: lm_action_ok_def)
  then show ?thesis
  proof cases
    case 1
    with assms(3,4) show ?thesis by (simp add: lighter_execute_simps sends_def)
  next
    case 2
    with assms(3) have "exec_cancel_lighter E a e w = (logs, e', w')" by (simp add: lighter_execute_simps)
    then show ?thesis
      using assms(4) by (cases rule: exec_cancel_lighter_cases) (auto simp: sends_def)
  next
    case 3
    from 3(1) assms(3) have "exec_place_lighter E a e w = (logs, e', w')" by (simp add: lighter_execute_simps)
    then show ?thesis
    proof (cases rule: exec_place_lighter_cases)
      case (failed now t1 t2 ack' pt)
      have "state (le_strategy e) \<noteq> Idle"
        using assms(1) 3(2) by (auto simp: lighter_engine_inv_def lm_inv_def)
      with failed inv 3 show ?thesis by (simp add: lighter_wedged_def)
    qed (use assms(4,5) in \<open>auto simp: sends_def\<close>)
  qed
qed

lemma unconfirmed_decision:
  assumes "lighter_engine_inv e" and "lighter_on_market_decision E now s e w = (logs, e', w')"
    and "sends (LighterLimit req ack) w w'" and "\<not> (lla_ok ack \<and> lla_resting_confirmed ack)"
  shows "lighter_wedged e'"
proof -
  obtain a h t1 t2 w1 pt where d: "lm_on_market_snapshot s now (le_strategy e) = (a, h)"
    "trace w1 = trace w @ [PerfNs t1, PerfNs t2]"
    "lighter_execute_action E a s (e\<lparr>le_strategy := h, le_perf_trace := pt\<rparr>) w1 = (logs, e', w')"
    by (rule lighter_decision_cases [OF assms(2)])
  note ok = lighter_inv_decided [OF assms(1) d(1)]
  have "still e w (e\<lparr>le_strategy := h, le_perf_trace := pt\<rparr>) w1"
    by (rule stillI [OF d(2)]) simp_all
  from sends_after [OF this conjunct1 [OF limited_execute_lighter [OF ok(2) d(3)]] assms(3)]
  show ?thesis by (rule unconfirmed_action [OF ok d(3) _ assms(4)])
qed

lemma unconfirmed_market_data:
  assumes "lighter_engine_inv e" and "lighter_on_market_data E now e w = (logs, e', w')"
    and "sends (LighterLimit req ack) w w'" and "\<not> (lla_ok ack \<and> lla_resting_confirmed ack)"
  shows "lighter_wedged e'"
proof -
  let ?e = "e\<lparr>deferred_lighter_action := None, le_next_retry_steady_ms := None\<rparr>"
  have s1: "still e w ?e w1" "still e w e w1"
    if "lighter_collect_snapshot E (le_config e) w = (s, w1)" for s w1
    by (rule stillI [OF lighter_collect_snapshot_eq(1) [OF that]]; simp)+
  note ok = lighter_inv_forget_deferred(1) [OF assms(1)] disjI2 [OF lighter_inv_forget_deferred(2) [OF assms(1)]]
  from assms(2) show ?thesis
  proof (cases rule: lighter_market_data_cases)
    case (deferred s w1 a)
    note lim = conjunct1 [OF limited_execute_lighter [OF ok(2) [OF deferred(2)] deferred(3)]]
    from sends_after [OF s1(1) [OF deferred(1)] lim assms(3)]
    show ?thesis by (rule unconfirmed_action [OF ok(1) ok(2) [OF deferred(2)] deferred(3) _ assms(4)])
  next
    case (deferred_quiet s w1 a e1 w2)
    note x = limited_execute_lighter [OF ok(2) [OF deferred_quiet(2)] deferred_quiet(3)]
    have inv: "lighter_engine_inv e1"
      using lighter_inv_execute [OF ok(1) ok(2) [OF deferred_quiet(2)] deferred_quiet(3)] by simp
    note lim = limited_decision_lighter [OF inv deferred_quiet(4)]
    have s2: "still ?e w1 e1 w2" using x by simp
    from sends_after [OF s1(1) [OF deferred_quiet(1)] still_prefix [OF s2 lim] assms(3)]
    have "sends (LighterLimit req ack) w2 w'" by (rule sends_after [OF s2 lim])
    then show ?thesis by (rule unconfirmed_decision [OF inv deferred_quiet(4) _ assms(4)])
  next
    case (direct s w1)
    from sends_after [OF s1(2) [OF direct(1)] limited_decision_lighter [OF assms(1) direct(2)] assms(3)]
    show ?thesis by (rule unconfirmed_decision [OF assms(1) direct(2) _ assms(4)])
  qed
qed

text \<open>C6: A placement that Lighter does not confirm as resting (refused, or accepted with its
  state unknown) stops the engine for good: the strategy keeps waiting for the order, the
  engine has no order to match a fill or a cancel with, and no later call of any kind,
  whatever the market does, makes it send another order, not even the hedge of a fill of
  the order that may be resting.\<close>

theorem unconfirmed_placement_stops_lighter_engine:
  assumes "lighter_engine_inv e" and "lighter_on_market_data E now e w = (logs, e1, w1)"
    and "LighterLimit req ack \<in> set (new_orders w w1)" and "\<not> (lla_ok ack \<and> lla_resting_confirmed ack)"
    and "run_lighter_engine E evs e1 w1 = (e', w')"
  shows "state (le_strategy e') \<in> {PendingLighterMaker, CancelledPendingLighterConfirm}
    \<and> new_orders w1 w' = []"
proof -
  have "lighter_limited e w e1 w1"
    using limited_step_lighter [OF assms(1), of E "LMarketData now"] assms(2) by simp
  from sends_new_orders [OF this assms(3)] have "lighter_wedged e1"
    by (rule unconfirmed_market_data [OF assms(1,2) _ assms(4)])
  from lighter_wedged_run [OF this assms(5)] show ?thesis using lighter_wedged_state by blast
qed

lemma cancel_decision_wedges:
  assumes "lighter_engine_inv e" and "lighter_on_market_decision E now s e w = (logs, e', w')"
    and "state (le_strategy e) = PendingLighterMaker" and "active_lighter_order_index e = None"
    and "state (le_strategy e') = CancelledPendingLighterConfirm"
  shows "lighter_wedged e'"
proof -
  obtain a h t1 t2 w1 pt where d: "lm_on_market_snapshot s now (le_strategy e) = (a, h)"
    "trace w1 = trace w @ [PerfNs t1, PerfNs t2]"
    "lighter_execute_action E a s (e\<lparr>le_strategy := h, le_perf_trace := pt\<rparr>) w1 = (logs, e', w')"
    by (rule lighter_decision_cases [OF assms(2)])
  note ok = lighter_inv_decided [OF assms(1) d(1)]
  have inv: "lm_inv (le_strategy e)" using assms(1) by (simp add: lighter_engine_inv_def)
  have "a = no_action \<Longrightarrow> state h = state (le_strategy e)"
    using d(1) by (auto simp: lm_on_market_snapshot_def record_frame split: if_splits elim: lm_decide_cases)
  then have "a = no_action \<Longrightarrow> False" using d(3) assms(3,5) by (auto simp: lighter_execute_simps)
  with lm_snapshot_action(1,4) [OF d(1) inv] assms(3) have a: "act_type a = CancelLighterMaker" by auto
  with d(3) have "exec_cancel_lighter E a (e\<lparr>le_strategy := h, le_perf_trace := pt\<rparr>) w1 = (logs, e', w')"
    by (simp add: lighter_execute_simps)
  then show ?thesis
    using lighter_inv_execute [OF ok d(3)] a assms(4,5)
    by (cases rule: exec_cancel_lighter_cases) (simp_all add: lighter_wedged_def)
qed

text \<open>A placement that the limiter has deferred cannot be taken back: when the spread reverts
  before it is sent, the cancel that the hedger asks for finds no live order, drops the
  deferred placement, and leaves the hedger waiting for ever, as no later call of any kind
  makes the engine send an order.\<close>

theorem cancelled_deferral_stops_lighter_engine:
  assumes "lighter_engine_inv e" and "deferred_lighter_action e = Some a"
    and "act_type a = PlaceLighterMaker" and "state (le_strategy e) = PendingLighterMaker"
    and "lighter_on_market_data E now e w = (logs, e1, w1)"
    and "state (le_strategy e1) = CancelledPendingLighterConfirm"
    and "run_lighter_engine E evs e1 w1 = (e', w')"
  shows "state (le_strategy e') \<in> {PendingLighterMaker, CancelledPendingLighterConfirm}
    \<and> new_orders w1 w' = []"
proof -
  have act: "active_lighter_order_index e = None"
    using assms(1-3) by (auto simp: lighter_engine_inv_def lm_action_ok_def)
  let ?e = "e\<lparr>deferred_lighter_action := None, le_next_retry_steady_ms := None\<rparr>"
  note ok = lighter_inv_forget_deferred(1) [OF assms(1)] disjI2 [OF lighter_inv_forget_deferred(2) [OF assms(1)]]
  from assms(5) have "lighter_wedged e1"
  proof (cases rule: lighter_market_data_cases)
    case (deferred s w2 b)
    then have "exec_place_lighter E a ?e w2 = (logs, e1, w1)"
      using assms(2,3) by (simp add: lighter_execute_simps)
    then show ?thesis
      using assms(4,6) by (cases rule: exec_place_lighter_cases) simp_all
  next
    case (deferred_quiet s w2 b e2 w3)
    then have x: "exec_place_lighter E a ?e w2 = ([], e2, w3)"
      using assms(2,3) by (simp add: lighter_execute_simps)
    then have "state (le_strategy e2) = PendingLighterMaker" "active_lighter_order_index e2 = None"
      using assms(4) act by (cases rule: exec_place_lighter_cases; simp)+
    moreover have "lighter_engine_inv e2"
      using lighter_inv_execute [OF ok(1) ok(2) [OF deferred_quiet(2)] deferred_quiet(3)] by simp
    ultimately show ?thesis using cancel_decision_wedges [OF _ deferred_quiet(4)] assms(6) by simp
  next
    case (direct s w2)
    from cancel_decision_wedges [OF assms(1) direct(2) assms(4) act assms(6)] show ?thesis .
  qed
  from lighter_wedged_run [OF this assms(7)] show ?thesis using lighter_wedged_state by blast
qed

lemma lighter_collect_snapshot_same: "lighter_collect_snapshot = collect_snapshot"
  by (simp add: fun_eq_iff lighter_collect_snapshot_def collect_snapshot_def)

text \<open>The idle engine, on the wide market, places its order at once.\<close>

lemma demo_lighter_decision:
  "act_type (fst (lm_on_market_snapshot demo_live 1000 demo_hedger)) = PlaceLighterMaker"
proof -
  have v: "snapshot_valid demo_live (max_quote_age_ms (config demo_hedger))"
    using demo_valid(1) by (simp add: snapshot_valid_def demo_live_eq demo_hedger_def initial_hedger_def
        default_strategy_config_def)
  have "D 2 \<le> \<bar>cross_spread_bps demo_live\<bar>"
    using demo_live_spread by (cases "cross_spread_bps demo_live"; simp add: double_eval)
  then have "sg_armed (gate (lm_update_gate demo_live 1000 demo_hedger))"
    by (simp add: lm_update_gate_def lm_can_arm_def Let_def demo_hedger_def initial_hedger_def
        default_strategy_config_def disarmed_gate_def)
  with v show ?thesis
    by (simp add: lm_on_market_snapshot_def lm_decide_def record_frame Let_def)
      (simp add: demo_hedger_def initial_hedger_def)
qed

definition demo_unconfirmed_env :: env where
  "demo_unconfirmed_env = demo_env\<lparr>env_lighter_limit := (\<lambda>_ _. \<lparr>lla_ok = True,
     lla_resting_confirmed = False, lla_message = ''pending'', lla_tx_hash = [], lla_client_order_index = 5,
     lla_order_index = 0, lla_nonce_fetch_latency_ms = 0, lla_sign_order_latency_ms = 0,
     lla_send_tx_ack_latency_ms = 0, lla_place_to_http_ack_latency_ms = 0, lla_http_ack_latency_ms = 0\<rparr>)\<rparr>"

lemma demo_unconfirmed_run:
  obtains logs e1 w1 req ack where
    "lighter_on_market_data demo_unconfirmed_env 1000 demo_lighter_engine demo_world = (logs, e1, w1)"
    "LighterLimit req ack \<in> set (new_orders demo_world w1)" "\<not> (lla_ok ack \<and> lla_resting_confirmed ack)"
proof -
  obtain logs e1 w1 where r:
    "lighter_on_market_data demo_unconfirmed_env 1000 demo_lighter_engine demo_world = (logs, e1, w1)"
    by (rule prod_cases3)
  from r show ?thesis
  proof (cases rule: lighter_market_data_cases)
    case (direct s w2)
    have s: "s = demo_live"
      using direct(1) demo_live_eq(2) [of demo_unconfirmed_env demo_world]
      by (simp add: lighter_collect_snapshot_same demo_lighter_fields demo_unconfirmed_env_def)
    obtain a h t1 t2 w3 pt where d: "lm_on_market_snapshot s 1000 demo_hedger = (a, h)"
      "trace w3 = trace w2 @ [PerfNs t1, PerfNs t2]"
      "lighter_execute_action demo_unconfirmed_env a s
         (demo_lighter_engine\<lparr>le_strategy := h, le_perf_trace := pt\<rparr>) w3 = (logs, e1, w1)"
      by (rule lighter_decision_cases [OF direct(2), unfolded demo_lighter_fields])
    have "act_type a = PlaceLighterMaker" using d(1) demo_lighter_decision s by simp
    with d(3) have "exec_place_lighter demo_unconfirmed_env a
        (demo_lighter_engine\<lparr>le_strategy := h, le_perf_trace := pt\<rparr>) w3 = (logs, e1, w1)"
      by (simp add: lighter_execute_simps)
    moreover have w3: "trace w3 = [HlBbo (hl_coin (le_config demo_lighter_engine)) (hl s),
        LighterBbo (lighter_market_id (le_config demo_lighter_engine)) (lighter s), PerfNs t1, PerfNs t2]"
      using d(2) lighter_collect_snapshot_eq(1) [OF direct(1)] by (simp add: demo_world_def)
    ultimately show ?thesis
    proof (cases rule: exec_place_lighter_cases)
      case (deferred now retry)
      then show ?thesis
        by (simp add: lighter_place_retry_at_ms_def demo_lighter_fields default_engine_config_def
            demo_unconfirmed_env_def demo_env_def w3)
    next
      case (placed now t3 t4 ack pt')
      from placed(3) show ?thesis by (simp add: placed(7) demo_unconfirmed_env_def)
    next
      case (failed now t3 t4 ack pt')
      then have "LighterLimit (lighter_limit_request demo_lighter_engine (the (act_maker_order a))) ack
          \<in> set (new_orders demo_world w1)"
        using w3 by (simp add: new_orders_def demo_world_def)
      then show ?thesis by (rule that [OF r _ failed(2)])
    qed
  qed (simp_all add: demo_lighter_fields)
qed

theorem unconfirmed_placement_stops_lighter_engine_witness:
  "\<exists>logs e1 w1. lighter_on_market_data demo_unconfirmed_env 1000 demo_lighter_engine demo_world = (logs, e1, w1)
     \<and> new_orders w1 (snd (run_lighter_engine demo_unconfirmed_env
         [LMarketData 2000, LFill (D 10) (D 2) demo_wide 0 5 9, LMarketData 9000] e1 w1)) = []"
proof -
  obtain logs e1 w1 req ack where r:
    "lighter_on_market_data demo_unconfirmed_env 1000 demo_lighter_engine demo_world = (logs, e1, w1)"
    "LighterLimit req ack \<in> set (new_orders demo_world w1)" "\<not> (lla_ok ack \<and> lla_resting_confirmed ack)"
    by (rule demo_unconfirmed_run)
  have "lighter_engine_inv demo_lighter_engine" using lighter_engine_inv_new [OF demo_lighter_new] by simp
  from unconfirmed_placement_stops_lighter_engine [OF this r surjective_pairing] r(1) show ?thesis by blast
qed

text \<open>The engine with its placement deferred, on a market whose spread has reverted.\<close>

definition demo_flat_env :: env where
  "demo_flat_env = demo_env\<lparr>env_lighter_bbo := (\<lambda>_ _. hl demo_wide)\<rparr>"

definition demo_lighter_deferred :: lighter_engine where
  "demo_lighter_deferred = demo_lighter_engine\<lparr>le_strategy := demo_hedger\<lparr>state := PendingLighterMaker,
     pending_maker := Some demo_lighter_order\<rparr>, le_next_retry_steady_ms := Some 5000,
     deferred_lighter_action := Some (no_action\<lparr>act_type := PlaceLighterMaker,
       act_maker_order := Some demo_lighter_order\<rparr>)\<rparr>"

lemma demo_lighter_deferred_inv: "lighter_engine_inv demo_lighter_deferred"
  using lighter_engine_inv_new [OF demo_lighter_new]
  by (simp add: lighter_engine_inv_def demo_lighter_deferred_def demo_lighter_fields lm_inv_def lm_action_ok_def
      demo_hedger_def initial_hedger_def disarmed_gate_def lm_order_ok_def demo_lighter_order_def)

lemma demo_flat_cancel:
  assumes "lighter_on_market_data demo_flat_env 1000 demo_lighter_deferred demo_world = (logs, e1, w1)"
  shows "state (le_strategy e1) = CancelledPendingLighterConfirm"
proof -
  let ?h = "demo_hedger\<lparr>state := PendingLighterMaker, pending_maker := Some demo_lighter_order\<rparr>"
  have f: "le_strategy demo_lighter_deferred = ?h" "le_next_retry_steady_ms demo_lighter_deferred = Some 5000"
    "le_config demo_lighter_deferred = default_engine_config"
    by (simp_all add: demo_lighter_deferred_def demo_lighter_fields)
  obtain s w2 where c: "lighter_collect_snapshot demo_flat_env default_engine_config demo_world = (s, w2)"
    by fastforce
  then have s: "lighter s = hl demo_wide" "hl s = hl demo_wide" "cross_spread_bps s = 0"
    by (auto simp: lighter_collect_snapshot_def world_simps Let_def demo_flat_env_def demo_env_def
        demo_wide_def mid_def double_eval zero_double_def)
  have dec: "lighter_on_market_decision demo_flat_env 1000 s demo_lighter_deferred w2 = (logs, e1, w1)"
  proof -
    obtain b where b: "deferred_lighter_action demo_lighter_deferred = Some b"
      by (simp add: demo_lighter_deferred_def)
    have "execute_deferred_lighter_action demo_flat_env 1000 s demo_lighter_deferred w2
        = ([], demo_lighter_deferred, w2)"
      by (simp add: execute_deferred_lighter_action_def f b)
    with assms show ?thesis by (simp add: lighter_on_market_data_def f c b)
  qed
  obtain a h t1 t2 w3 pt where d: "lm_on_market_snapshot s 1000 ?h = (a, h)"
    "lighter_execute_action demo_flat_env a s
       (demo_lighter_deferred\<lparr>le_strategy := h, le_perf_trace := pt\<rparr>) w3 = (logs, e1, w1)"
    by (rule lighter_decision_cases [OF dec, unfolded f])
  have v: "snapshot_valid s (max_quote_age_ms (config ?h))"
    by (simp add: snapshot_valid_def s demo_hedger_def initial_hedger_def default_strategy_config_def
        demo_wide_def mid_def double_eval)
  have "(a, h) = lm_decide s 1000 (lm_update_gate s 1000 ?h)"
    using d(1) v by (simp add: lm_on_market_snapshot_def)
  moreover have "\<not> sg_armed (gate (lm_update_gate s 1000 ?h))"
    by (simp add: lm_update_gate_def s demo_hedger_def initial_hedger_def default_strategy_config_def
        disarmed_gate_def zero_double_def double_eval)
  ultimately have a: "act_type a = CancelLighterMaker" and h: "state h = CancelledPendingLighterConfirm"
    by (simp_all add: lm_decide_def record_frame Let_def lm_disarm_def)
  from a d(2) have "exec_cancel_lighter demo_flat_env a
      (demo_lighter_deferred\<lparr>le_strategy := h, le_perf_trace := pt\<rparr>) w3 = (logs, e1, w1)"
    by (simp add: lighter_execute_simps)
  then show ?thesis
    using h by (cases rule: exec_cancel_lighter_cases)
      (simp_all add: demo_lighter_deferred_def demo_lighter_fields)
qed

theorem cancelled_deferral_stops_lighter_engine_witness:
  "\<exists>logs e1 w1. lighter_on_market_data demo_flat_env 1000 demo_lighter_deferred demo_world = (logs, e1, w1)
     \<and> new_orders w1 (snd (run_lighter_engine demo_flat_env
         [LMarketData 2000, LMarketData 9000] e1 w1)) = []"
proof -
  obtain logs e1 w1 where r: "lighter_on_market_data demo_flat_env 1000 demo_lighter_deferred demo_world
    = (logs, e1, w1)" by (rule prod_cases3)
  have f: "deferred_lighter_action demo_lighter_deferred = Some (no_action\<lparr>act_type := PlaceLighterMaker,
       act_maker_order := Some demo_lighter_order\<rparr>)"
    "act_type (no_action\<lparr>act_type := PlaceLighterMaker, act_maker_order := Some demo_lighter_order\<rparr>) = PlaceLighterMaker"
    "state (le_strategy demo_lighter_deferred) = PendingLighterMaker"
    by (simp_all add: demo_lighter_deferred_def)
  from cancelled_deferral_stops_lighter_engine [OF demo_lighter_deferred_inv f r demo_flat_cancel [OF r]
      surjective_pairing] r show ?thesis by blast
qed

end
