(* ===== verification/Msgpack.thy ===== *)
theory Msgpack
  imports Prelude
begin

text \<open>
  \<open>src/msgpack.cpp\<close>: the MessagePack encoders that build the bytes of a Hyperliquid action,
  a reader for the same subset of the format, and the round trip between them.
\<close>

section \<open>The encoders\<close>

definition mp_pack_str :: "bytes \<Rightarrow> string \<Rightarrow> bytes" where
  "mp_pack_str out text_value =
     (let size_word = (word_of_nat (length text_value) :: u32) in
      (if size_word \<le> 31 then out @ [ucast (0xA0 OR size_word)]
       else out @ [0xD9] @ [ucast size_word]) @ map of_char text_value)"

definition mp_pack_bool :: "bytes \<Rightarrow> bool \<Rightarrow> bytes" where
  "mp_pack_bool out b = out @ [if b then 0xC3 else 0xC2]"

text \<open>The byte of a word at a shift, and the big-endian bytes at the given shifts.\<close>

definition byte_at :: "'a::len word \<Rightarrow> nat \<Rightarrow> u8" where
  "byte_at v shift = ucast (drop_bit shift v AND 0xFF)"

definition mp_pack_uint :: "bytes \<Rightarrow> u64 \<Rightarrow> bytes" where
  "mp_pack_uint out v =
     (if v \<le> 0x7F then out @ [ucast v]
      else if v \<le> 0xFF then out @ [0xCC] @ [ucast v]
      else if v \<le> 0xFFFF then out @ [0xCD] @ [byte_at v 8] @ [byte_at v 0]
      else if v \<le> 0xFFFFFFFF then out @ [0xCE] @ map (byte_at v) [24, 16, 8, 0]
      else out @ [0xCF] @ map (byte_at v) [56, 48, 40, 32, 24, 16, 8, 0])"

definition mp_pack_array_size :: "bytes \<Rightarrow> u32 \<Rightarrow> bytes" where
  "mp_pack_array_size out n =
     (if n \<le> 15 then out @ [ucast (0x90 OR n)]
      else out @ [0xDC] @ [byte_at n 8] @ [byte_at n 0])"

definition mp_pack_map_size :: "bytes \<Rightarrow> u32 \<Rightarrow> bytes" where
  "mp_pack_map_size out n =
     (if n \<le> 15 then out @ [ucast (0x80 OR n)]
      else out @ [0xDE] @ [byte_at n 8] @ [byte_at n 0])"

section \<open>Values and the reader\<close>

datatype mp_value =
    MpStr string
  | MpBool bool
  | MpUint u64
  | MpArray "mp_value list"
  | MpMap "(string \<times> mp_value) list"

fun mp_pack :: "bytes \<Rightarrow> mp_value \<Rightarrow> bytes" where
  "mp_pack out (MpStr s) = mp_pack_str out s"
| "mp_pack out (MpBool b) = mp_pack_bool out b"
| "mp_pack out (MpUint v) = mp_pack_uint out v"
| "mp_pack out (MpArray xs) = foldl mp_pack (mp_pack_array_size out (word_of_nat (length xs))) xs"
| "mp_pack out (MpMap ps) =
     foldl (\<lambda>out p. mp_pack (mp_pack_str out (fst p)) (snd p))
       (mp_pack_map_size out (word_of_nat (length ps))) ps"

text \<open>The format's limits on what these encoders may be given.\<close>

fun mp_fits :: "mp_value \<Rightarrow> bool" where
  "mp_fits (MpStr s) = (length s < 256)"
| "mp_fits (MpBool b) = True"
| "mp_fits (MpUint v) = True"
| "mp_fits (MpArray xs) = (length xs < 65536 \<and> (\<forall>x \<in> set xs. mp_fits x))"
| "mp_fits (MpMap ps) = (length ps < 65536 \<and> (\<forall>p \<in> set ps. length (fst p) < 256 \<and> mp_fits (snd p)))"

fun mp_depth :: "mp_value \<Rightarrow> nat" where
  "mp_depth (MpArray xs) = Suc (fold (\<lambda>x. max (mp_depth x)) xs 0)"
| "mp_depth (MpMap ps) = Suc (fold (\<lambda>p. max (mp_depth (snd p))) ps 0)"
| "mp_depth _ = 0"

definition be_nat :: "bytes \<Rightarrow> nat" where
  "be_nat bs = foldl (\<lambda>a b. a * 256 + unat b) 0 bs"

definition be_word :: "bytes \<Rightarrow> u64" where
  "be_word bs = foldl (\<lambda>a b. push_bit 8 a OR ucast b) 0 bs"

definition byte_char :: "u8 \<Rightarrow> char" where
  "byte_char b = char_of (unat b)"

definition mp_take :: "nat \<Rightarrow> bytes \<Rightarrow> (bytes \<times> bytes) option" where
  "mp_take n bs = (if n \<le> length bs then Some (take n bs, drop n bs) else None)"

definition mp_read_chars :: "nat \<Rightarrow> bytes \<Rightarrow> (string \<times> bytes) option" where
  "mp_read_chars n bs = map_option (\<lambda>(xs, rest). (map byte_char xs, rest)) (mp_take n bs)"

fun mp_read_str :: "bytes \<Rightarrow> (string \<times> bytes) option" where
  "mp_read_str [] = None"
| "mp_read_str (b # bs) =
     (if 0xA0 \<le> b \<and> b \<le> 0xBF then mp_read_chars (unat (b AND 0x1F)) bs
      else if b = 0xD9 then (case bs of [] \<Rightarrow> None | n # bs \<Rightarrow> mp_read_chars (unat n) bs)
      else None)"

fun read_many :: "(bytes \<Rightarrow> ('a \<times> bytes) option) \<Rightarrow> nat \<Rightarrow> bytes \<Rightarrow> ('a list \<times> bytes) option" where
  "read_many rd 0 bs = Some ([], bs)"
| "read_many rd (Suc n) bs = (case rd bs of
     None \<Rightarrow> None
   | Some (x, bs) \<Rightarrow> map_option (\<lambda>(xs, rest). (x # xs, rest)) (read_many rd n bs))"

definition read_pair ::
  "(bytes \<Rightarrow> ('a \<times> bytes) option) \<Rightarrow> bytes \<Rightarrow> ((string \<times> 'a) \<times> bytes) option" where
  "read_pair rd bs = (case mp_read_str bs of
     None \<Rightarrow> None
   | Some (k, bs) \<Rightarrow> map_option (\<lambda>(v, rest). ((k, v), rest)) (rd bs))"

definition read_uint :: "nat \<Rightarrow> bytes \<Rightarrow> (mp_value \<times> bytes) option" where
  "read_uint n bs = map_option (\<lambda>(xs, rest). (MpUint (be_word xs), rest)) (mp_take n bs)"

text \<open>The reader; its first argument bounds the nesting of arrays and maps.\<close>

fun mp_read :: "nat \<Rightarrow> bytes \<Rightarrow> (mp_value \<times> bytes) option" where
  "mp_read depth [] = None"
| "mp_read depth (b # bs) =
     (if b \<le> 0x7F then Some (MpUint (ucast b), bs)
      else if b \<le> 0x8F then
        (case depth of 0 \<Rightarrow> None
         | Suc d \<Rightarrow> map_option (\<lambda>(xs, rest). (MpMap xs, rest)) (read_many (read_pair (mp_read d)) (unat (b AND 0x0F)) bs))
      else if b \<le> 0x9F then
        (case depth of 0 \<Rightarrow> None
         | Suc d \<Rightarrow> map_option (\<lambda>(xs, rest). (MpArray xs, rest)) (read_many (mp_read d) (unat (b AND 0x0F)) bs))
      else if b \<le> 0xBF \<or> b = 0xD9 then map_option (\<lambda>(s, rest). (MpStr s, rest)) (mp_read_str (b # bs))
      else if b = 0xC2 then Some (MpBool False, bs)
      else if b = 0xC3 then Some (MpBool True, bs)
      else if b = 0xCC then read_uint 1 bs
      else if b = 0xCD then read_uint 2 bs
      else if b = 0xCE then read_uint 4 bs
      else if b = 0xCF then read_uint 8 bs
      else if b = 0xDC then
        (case (depth, mp_take 2 bs) of
           (Suc d, Some (n, bs)) \<Rightarrow> map_option (\<lambda>(xs, rest). (MpArray xs, rest)) (read_many (mp_read d) (be_nat n) bs)
         | _ \<Rightarrow> None)
      else if b = 0xDE then
        (case (depth, mp_take 2 bs) of
           (Suc d, Some (n, bs)) \<Rightarrow> map_option (\<lambda>(xs, rest). (MpMap xs, rest)) (read_many (read_pair (mp_read d)) (be_nat n) bs)
         | _ \<Rightarrow> None)
      else None)"

section \<open>Headers\<close>

text \<open>The short headers, checked for every length they can carry.\<close>

lemma short_str_header:
  assumes "n < 32"
  shows "let b = ucast (0xA0 OR (word_of_nat n :: u32)) :: u8 in
     0xA0 \<le> b \<and> b \<le> 0xBF \<and> unat (b AND 0x1F) = n \<and> \<not> b \<le> 0x9F \<and> \<not> b \<le> 0x8F \<and> \<not> b \<le> 0x7F"
proof -
  have "list_all (\<lambda>n. let b = ucast (0xA0 OR (word_of_nat n :: u32)) :: u8 in
     0xA0 \<le> b \<and> b \<le> 0xBF \<and> unat (b AND 0x1F) = n \<and> \<not> b \<le> 0x9F \<and> \<not> b \<le> 0x8F \<and> \<not> b \<le> 0x7F) [0..<32]"
    by code_simp
  with assms show ?thesis by (simp add: list_all_iff)
qed

lemma short_array_header:
  assumes "n < 16"
  shows "let b = ucast (0x90 OR (word_of_nat n :: u32)) :: u8 in
     b \<le> 0x9F \<and> \<not> b \<le> 0x8F \<and> \<not> b \<le> 0x7F \<and> unat (b AND 0x0F) = n"
proof -
  have "list_all (\<lambda>n. let b = ucast (0x90 OR (word_of_nat n :: u32)) :: u8 in
     b \<le> 0x9F \<and> \<not> b \<le> 0x8F \<and> \<not> b \<le> 0x7F \<and> unat (b AND 0x0F) = n) [0..<16]"
    by code_simp
  with assms show ?thesis by (simp add: list_all_iff)
qed

lemma short_map_header:
  assumes "n < 16"
  shows "let b = ucast (0x80 OR (word_of_nat n :: u32)) :: u8 in
     b \<le> 0x8F \<and> \<not> b \<le> 0x7F \<and> unat (b AND 0x0F) = n"
proof -
  have "list_all (\<lambda>n. let b = ucast (0x80 OR (word_of_nat n :: u32)) :: u8 in
     b \<le> 0x8F \<and> \<not> b \<le> 0x7F \<and> unat (b AND 0x0F) = n) [0..<16]"
    by code_simp
  with assms show ?thesis by (simp add: list_all_iff)
qed

lemma of_nat_le_word:
  "n < 2 ^ 32 \<Longrightarrow> k < 2 ^ 32 \<Longrightarrow> (word_of_nat n :: u32) \<le> word_of_nat k \<longleftrightarrow> n \<le> k"
  by (simp add: word_le_nat_alt unat_of_nat)

section \<open>Big-endian bytes\<close>

lemma byte_mask: "(0xFF :: 'a::len word) = mask 8"
  by (simp add: mask_eq_exp_minus_1)

lemma byte_at_up: "ucast (byte_at v s) = drop_bit s v AND mask 8" for v :: "u64"
  unfolding byte_at_def byte_mask by (rule bit_word_eqI) (auto simp: bit_simps)

lemma be_word_snoc: "be_word (bs @ [b]) = push_bit 8 (be_word bs) OR ucast b"
  by (simp add: be_word_def)

lemma be_word_step:
  assumes "be_word bs = drop_bit t v" and "t = s + 8"
  shows "be_word (bs @ [byte_at v s]) = drop_bit s v"
  unfolding be_word_snoc byte_at_up assms
  by (rule bit_word_eqI) (auto simp: bit_simps algebra_simps)

lemma be_word_start: "unat v < 2 ^ t \<Longrightarrow> be_word [] = drop_bit t v"
proof -
  assume "unat v < 2 ^ t"
  then have "unat (drop_bit t v) = 0"
    by (simp only: unat_drop_bit_eq drop_bit_eq_div [where 'a = nat]) simp
  then show "be_word [] = drop_bit t v" by (simp add: be_word_def unat_eq_zero)
qed

lemma be_word_bytes:
  "unat v < 2 ^ 16 \<Longrightarrow> be_word [byte_at v 8, byte_at v 0] = (v :: u64)"
  "unat v < 2 ^ 32 \<Longrightarrow> be_word (map (byte_at v) [24, 16, 8, 0]) = v"
  "be_word (map (byte_at v) [56, 48, 40, 32, 24, 16, 8, 0]) = v"
proof -
  have 2: "be_word (([] @ [byte_at v 8]) @ [byte_at v 0]) = drop_bit 0 v" if "be_word [] = drop_bit 16 v" for v :: u64
    by (rule be_word_step [where t = 8], rule be_word_step [where t = 16], rule that) simp_all
  have 4: "be_word ((((bs @ [byte_at v 24]) @ [byte_at v 16]) @ [byte_at v 8]) @ [byte_at v 0]) = drop_bit 0 v"
    if "be_word bs = drop_bit 32 v" for bs and v :: u64
    by (rule be_word_step [where t = 8], rule be_word_step [where t = 16], rule be_word_step [where t = 24],
        rule be_word_step [where t = 32], rule that) simp_all
  have 8: "be_word (((([] @ [byte_at v 56]) @ [byte_at v 48]) @ [byte_at v 40]) @ [byte_at v 32]) = drop_bit 32 v"
    if "be_word [] = drop_bit 64 v" for v :: u64
    by (rule be_word_step [where t = 40], rule be_word_step [where t = 48], rule be_word_step [where t = 56],
        rule be_word_step [where t = 64], rule that) simp_all
  have z: "be_word [] = drop_bit 64 v"
    by (rule bit_word_eqI) (auto simp: be_word_def bit_simps dest: bit_imp_le_length)
  show "unat v < 2 ^ 16 \<Longrightarrow> be_word [byte_at v 8, byte_at v 0] = v"
    using 2 [OF be_word_start [of v 16]] by simp
  show "unat v < 2 ^ 32 \<Longrightarrow> be_word (map (byte_at v) [24, 16, 8, 0]) = v"
    using 4 [OF be_word_start [of v 32]] by simp
  show "be_word (map (byte_at v) [56, 48, 40, 32, 24, 16, 8, 0]) = v"
    using 4 [OF 8 [OF z]] by simp
qed

section \<open>The encoders append\<close>

lemma pack_append:
  "mp_pack_str out s = out @ mp_pack_str [] s"
  "mp_pack_bool out b = out @ mp_pack_bool [] b"
  "mp_pack_uint out v = out @ mp_pack_uint [] v"
  "mp_pack_array_size out n = out @ mp_pack_array_size [] n"
  "mp_pack_map_size out n = out @ mp_pack_map_size [] n"
  by (simp_all add: mp_pack_str_def mp_pack_bool_def mp_pack_uint_def mp_pack_array_size_def
      mp_pack_map_size_def Let_def)

lemma foldl_append:
  "(\<And>out x. x \<in> set xs \<Longrightarrow> f out x = out @ g x) \<Longrightarrow> foldl f out xs = out @ concat (map g xs)"
  by (induction xs arbitrary: out) simp_all

lemma mp_pack_append: "mp_pack out v = out @ mp_pack [] v"
proof (induction v arbitrary: out)
  case (MpArray xs)
  then have f: "foldl mp_pack out' xs = out' @ concat (map (mp_pack []) xs)" for out'
    by (intro foldl_append) blast
  show ?case
    unfolding mp_pack.simps f pack_append(4) [of out] by (simp only: append_assoc)
next
  case (MpMap ps)
  have "mp_pack (mp_pack_str o' (fst p)) (snd p) = o' @ (mp_pack_str [] (fst p) @ mp_pack [] (snd p))"
    if "p \<in> set ps" for o' p
    using MpMap [OF that, of "snd p" "mp_pack_str o' (fst p)"] pack_append(1) [of o' "fst p"]
    by (cases p) simp
  then have f: "foldl (\<lambda>out p. mp_pack (mp_pack_str out (fst p)) (snd p)) out' ps
      = out' @ concat (map (\<lambda>p. mp_pack_str [] (fst p) @ mp_pack [] (snd p)) ps)" for out'
    by (rule foldl_append)
  show ?case
    unfolding mp_pack.simps f pack_append(5) [of out] by (simp only: append_assoc)
qed (simp_all only: mp_pack.simps pack_append [symmetric])

lemma mp_pack_array:
  "mp_pack [] (MpArray xs) = mp_pack_array_size [] (word_of_nat (length xs)) @ concat (map (mp_pack []) xs)"
  unfolding mp_pack.simps by (rule foldl_append) (rule mp_pack_append)

lemma mp_pack_map:
  "mp_pack [] (MpMap ps) = mp_pack_map_size [] (word_of_nat (length ps))
     @ concat (map (\<lambda>p. mp_pack_str [] (fst p) @ mp_pack [] (snd p)) ps)"
proof -
  have "mp_pack (mp_pack_str o' (fst p)) (snd p) = o' @ (mp_pack_str [] (fst p) @ mp_pack [] (snd p))" for o' p
    by (subst mp_pack_append, subst pack_append(1)) (rule append_assoc)
  then show ?thesis unfolding mp_pack.simps by (rule foldl_append)
qed

section \<open>The round trip\<close>

lemma byte_char_of_char [simp]: "byte_char (of_char c) = c"
proof -
  have "(of_char c :: u8) = word_of_nat (of_char c)" by (simp add: of_nat_of_char)
  then have "unat (of_char c :: u8) = of_char c" by (simp add: unat_of_nat)
  then show ?thesis by (simp add: byte_char_def)
qed

lemma read_chars: "mp_read_chars (length s) (map of_char s @ rest) = Some (s, rest)"
  by (simp add: mp_read_chars_def mp_take_def comp_def)

lemma long_header: "n < 256 \<Longrightarrow> unat (ucast (word_of_nat n :: u32) :: u8) = n"
  by (simp add: unsigned_ucast_eq unat_of_nat take_bit_eq_mod)

lemma read_str:
  assumes "length s < 256"
  shows "mp_read_str (mp_pack_str [] s @ rest) = Some (s, rest)"
    and "mp_read depth (mp_pack_str [] s @ rest) = Some (MpStr s, rest)"
proof -
  let ?n = "word_of_nat (length s) :: u32"
  have le: "?n \<le> 31 \<longleftrightarrow> length s < 32"
    using of_nat_le_word [of "length s" 31] assms by auto
  show r: "mp_read_str (mp_pack_str [] s @ rest) = Some (s, rest)"
  proof (cases "length s < 32")
    case True
    with short_str_header [OF True] show ?thesis
      by (simp add: mp_pack_str_def le Let_def read_chars)
  next
    case False
    then show ?thesis
      by (simp add: mp_pack_str_def le Let_def long_header [OF assms] read_chars)
  qed
  show "mp_read depth (mp_pack_str [] s @ rest) = Some (MpStr s, rest)"
  proof (cases "length s < 32")
    case True
    let ?b = "ucast (0xA0 OR ?n) :: u8"
    have "mp_pack_str [] s @ rest = ?b # map of_char s @ rest"
      using True by (simp add: mp_pack_str_def le)
    moreover have "\<not> ?b \<le> 0x9F" "\<not> ?b \<le> 0x8F" "\<not> ?b \<le> 0x7F" "?b \<le> 0xBF"
      using short_str_header [OF True] by (auto simp: Let_def)
    ultimately show ?thesis using r by simp
  next
    case False
    then have "mp_pack_str [] s @ rest = 0xD9 # ucast ?n # map of_char s @ rest"
      by (simp add: mp_pack_str_def le)
    with r show ?thesis by simp
  qed
qed

lemma read_uint_pack: "mp_read depth (mp_pack_uint [] v @ rest) = Some (MpUint v, rest)"
proof -
  note one = byte_at_def be_word_snoc
  consider "v \<le> 0x7F" | "\<not> v \<le> 0x7F" "v \<le> 0xFF" | "\<not> v \<le> 0xFF" "\<not> v \<le> 0x7F" "v \<le> 0xFFFF"
    | "\<not> v \<le> 0xFFFF" "\<not> v \<le> 0xFF" "\<not> v \<le> 0x7F" "v \<le> 0xFFFFFFFF"
    | "\<not> v \<le> 0xFFFFFFFF" "\<not> v \<le> 0xFFFF" "\<not> v \<le> 0xFF" "\<not> v \<le> 0x7F"
    by (auto simp: word_le_nat_alt)
  then show ?thesis
  proof cases
    case 1
    then have "unat v < 128" by (simp add: word_le_nat_alt)
    then have u: "unat (ucast v :: u8) = unat v" by (simp add: unsigned_ucast_eq take_bit_eq_mod [where 'a = nat])
    have "(ucast v :: u8) \<le> 0x7F" using 1 u by (simp add: word_le_nat_alt)
    moreover have "ucast (ucast v :: u8) = v"
      using \<open>unat v < 128\<close>
      by (subst word_unat_eq_iff) (simp only: unsigned_ucast_eq, simp add: unsigned_take_bit_eq take_bit_eq_mod [where 'a = nat])
    ultimately show ?thesis using 1 by (simp add: mp_pack_uint_def)
  next
    case 2
    then have "unat v < 256" by (simp add: word_le_nat_alt)
    then have "ucast (ucast v :: u8) = v"
      by (subst word_unat_eq_iff) (simp only: unsigned_ucast_eq, simp add: unsigned_take_bit_eq take_bit_eq_mod [where 'a = nat])
    with 2 show ?thesis
      by (simp add: mp_pack_uint_def read_uint_def mp_take_def be_word_def)
  next
    case 3
    then have "unat v < 2 ^ 16" by (simp add: word_le_nat_alt)
    from be_word_bytes(1) [OF this] 3 show ?thesis
      by (simp add: mp_pack_uint_def read_uint_def mp_take_def)
  next
    case 4
    then have "unat v < 2 ^ 32" by (simp add: word_le_nat_alt)
    from be_word_bytes(2) [OF this] 4 show ?thesis
      by (simp add: mp_pack_uint_def read_uint_def mp_take_def)
  next
    case 5
    with be_word_bytes(3) [of v] show ?thesis
      by (simp add: mp_pack_uint_def read_uint_def mp_take_def)
  qed
qed

lemma read_many_concat:
  "(\<And>x rest. x \<in> set xs \<Longrightarrow> rd (enc x @ rest) = Some (x, rest)) \<Longrightarrow>
     read_many rd (length xs) (concat (map enc xs) @ rest) = Some (xs, rest)"
  by (induction xs) simp_all

lemma be_nat_header:
  assumes "n < 65536"
  shows "be_nat [byte_at (word_of_nat n :: u32) 8, byte_at (word_of_nat n :: u32) 0] = n"
proof -
  have "unat (byte_at (word_of_nat n :: u32) s) = n div 2 ^ s mod 256" for s
    unfolding byte_at_def byte_mask take_bit_eq_mask [symmetric]
    using assms by (simp only: unsigned_ucast_eq unsigned_take_bit_eq unat_drop_bit_eq unat_of_nat
        drop_bit_eq_div [where 'a = nat] take_bit_eq_mod [where 'a = nat]) simp
  then show ?thesis using assms by (simp add: be_nat_def)
qed

lemma depth_bounds:
  "x \<in> set xs \<Longrightarrow> mp_depth (MpArray xs) \<le> Suc d \<Longrightarrow> mp_depth x \<le> d"
  "p \<in> set ps \<Longrightarrow> mp_depth (MpMap ps) \<le> Suc d \<Longrightarrow> mp_depth (snd p) \<le> d"
proof -
  have f: "a \<le> fold (\<lambda>x. max (g x)) ys a \<and> (y \<in> set ys \<longrightarrow> g y \<le> fold (\<lambda>x. max (g x)) ys a)"
    for g :: "'b \<Rightarrow> nat" and ys y a
  proof (induction ys arbitrary: a)
    case (Cons z ys)
    from Cons.IH [of "max (g z) a"] show ?case by auto
  qed simp
  show "x \<in> set xs \<Longrightarrow> mp_depth (MpArray xs) \<le> Suc d \<Longrightarrow> mp_depth x \<le> d"
    using f [of 0 mp_depth xs x] by simp
  show "p \<in> set ps \<Longrightarrow> mp_depth (MpMap ps) \<le> Suc d \<Longrightarrow> mp_depth (snd p) \<le> d"
    using f [of 0 "\<lambda>p. mp_depth (snd p)" ps p] by simp
qed

lemma read_container:
  assumes "n < 65536"
  shows "mp_read (Suc d) (mp_pack_array_size [] (word_of_nat n) @ rest)
      = map_option (\<lambda>(xs, rest). (MpArray xs, rest)) (read_many (mp_read d) n rest)"
    and "mp_read (Suc d) (mp_pack_map_size [] (word_of_nat n) @ rest)
      = map_option (\<lambda>(xs, rest). (MpMap xs, rest)) (read_many (read_pair (mp_read d)) n rest)"
proof -
  let ?n = "word_of_nat n :: u32"
  have le: "?n \<le> 15 \<longleftrightarrow> n < 16" using of_nat_le_word [of n 15] assms by auto
  show "mp_read (Suc d) (mp_pack_array_size [] ?n @ rest)
      = map_option (\<lambda>(xs, rest). (MpArray xs, rest)) (read_many (mp_read d) n rest)"
    using short_array_header [of n] be_nat_header [OF assms]
    by (cases "n < 16") (simp_all add: mp_pack_array_size_def le Let_def mp_take_def)
  show "mp_read (Suc d) (mp_pack_map_size [] ?n @ rest)
      = map_option (\<lambda>(xs, rest). (MpMap xs, rest)) (read_many (read_pair (mp_read d)) n rest)"
    using short_map_header [of n] be_nat_header [OF assms]
    by (cases "n < 16") (simp_all add: mp_pack_map_size_def le Let_def mp_take_def)
qed

text \<open>C17: What the encoders write is read back: any nesting of strings below 256 bytes, booleans,
  64-bit numbers, arrays and maps below 65536 entries, encoded by the \<open>mp_pack\<close> functions in
  order, is decoded by a MessagePack reader to exactly that value, and to the byte after it.\<close>

theorem msgpack_round_trip:
  assumes "mp_fits v" and "mp_depth v \<le> depth"
  shows "mp_read depth (mp_pack [] v @ rest) = Some (v, rest)"
  using assms
proof (induction v arbitrary: depth rest)
  case (MpStr s)
  then show ?case by (simp add: read_str)
next
  case (MpBool b)
  then show ?case by (cases b) (simp_all add: mp_pack_bool_def)
next
  case (MpUint v)
  then show ?case by (simp add: read_uint_pack)
next
  case (MpArray xs)
  from MpArray.prems(2) obtain d where d: "depth = Suc d" by (cases depth) simp_all
  have "read_many (mp_read d) (length xs) (concat (map (mp_pack []) xs) @ rest) = Some (xs, rest)"
  proof (rule read_many_concat)
    fix x r
    assume "x \<in> set xs"
    with MpArray d show "mp_read d (mp_pack [] x @ r) = Some (x, r)"
      using depth_bounds(1) [of x xs d] by simp
  qed
  with MpArray.prems(1) show ?case unfolding mp_pack_array d append_assoc by (simp add: read_container)
next
  case (MpMap ps)
  from MpMap.prems(2) obtain d where d: "depth = Suc d" by (cases depth) simp_all
  have "read_many (read_pair (mp_read d)) (length ps)
      (concat (map (\<lambda>p. mp_pack_str [] (fst p) @ mp_pack [] (snd p)) ps) @ rest) = Some (ps, rest)"
  proof (rule read_many_concat)
    fix p r
    assume p: "p \<in> set ps"
    have fits: "length (fst p) < 256" "mp_fits (snd p)" using MpMap.prems(1) p by simp_all
    have "snd p \<in> Basic_BNFs.snds p" by (cases p) simp
    moreover have "mp_depth (snd p) \<le> d"
      using depth_bounds(2) [OF p] MpMap.prems(2) unfolding d by blast
    ultimately have "mp_read d (mp_pack [] (snd p) @ r) = Some (snd p, r)"
      using MpMap.IH [OF p] fits(2) by blast
    with fits(1) show "read_pair (mp_read d) ((mp_pack_str [] (fst p) @ mp_pack [] (snd p)) @ r) = Some (p, r)"
      by (simp add: read_pair_def read_str)
  qed
  with MpMap.prems(1) show ?case unfolding mp_pack_map d append_assoc by (simp add: read_container)
qed

theorem msgpack_round_trip_witness:
  "mp_read 2 (mp_pack [] (MpMap [(''a'', MpUint 300), (''b'', MpArray [MpBool True])])) =
     Some (MpMap [(''a'', MpUint 300), (''b'', MpArray [MpBool True])], [])"
  using msgpack_round_trip [of "MpMap [(''a'', MpUint 300), (''b'', MpArray [MpBool True])]" 2 "[]"]
  by simp

text \<open>A string of 256 bytes or more is encoded with its length cut to eight bits, so what is
  read back is its first \<open>length mod 256\<close> characters, and the rest is left in the stream.\<close>

theorem long_string_is_cut:
  assumes "256 \<le> length s" and "length s < 2 ^ 32"
  shows "mp_read_str (mp_pack_str [] s)
    = Some (take (length s mod 256) s, map of_char (drop (length s mod 256) s))"
proof -
  let ?n = "word_of_nat (length s) :: u32"
  have "\<not> ?n \<le> 31" using of_nat_le_word [of "length s" 31] assms by auto
  moreover have "unat (ucast ?n :: u8) = length s mod 256"
    using assms(2) by (simp only: unsigned_ucast_eq unat_of_nat take_bit_eq_mod [where 'a = nat]) simp
  moreover have "length s mod 256 \<le> length s" by (rule mod_less_eq_dividend)
  ultimately show ?thesis
    by (simp add: mp_pack_str_def mp_read_chars_def mp_take_def take_map drop_map comp_def)
qed

theorem long_string_is_cut_witness:
  "\<exists>s. length s = 257 \<and> mp_read_str (mp_pack_str [] s) = Some (take 1 s, map of_char (drop 1 s))"
proof -
  define s where "s = replicate 257 CHR ''x''"
  have l: "length s = 257" unfolding s_def by (rule length_replicate)
  have "256 \<le> length s" "length s < 2 ^ 32" "length s mod 256 = 1" unfolding l by simp_all
  with long_string_is_cut [of s] have "mp_read_str (mp_pack_str [] s) = Some (take 1 s, map of_char (drop 1 s))"
    by (simp only:)
  with l show ?thesis by blast
qed

end
