(* ===== verification/Text.thy ===== *)
theory Text
  imports Doubles "HOL-Library.Sublist"
begin

text \<open>
  What the program uses of the C++ library on text: \<open>std::string::find\<close> and \<open>substr\<close>,
  the number parsers \<open>stoi\<close>, \<open>stoll\<close>, \<open>stoull\<close>, \<open>stod\<close> (an exception is \<open>Inl\<close> of
  its \<open>what()\<close>), and regular expressions of the shapes that occur: a literal, a greedy
  class, a literal.  Positions are \<open>nat\<close> and \<open>npos\<close> is \<open>None\<close>.
\<close>

section \<open>Searching\<close>

fun find0 :: "string \<Rightarrow> string \<Rightarrow> nat option" where
  "find0 pat [] = (if pat = [] then Some 0 else None)"
| "find0 pat (c # s) = (if prefix pat (c # s) then Some 0 else map_option Suc (find0 pat s))"

definition find_from :: "string \<Rightarrow> string \<Rightarrow> nat \<Rightarrow> nat option" where
  "find_from s pat pos =
     (if length s < pos then None else map_option ((+) pos) (find0 pat (drop pos s)))"

definition contains :: "string \<Rightarrow> string \<Rightarrow> bool" where
  "contains s pat \<longleftrightarrow> find_from s pat 0 \<noteq> None"

definition substr :: "string \<Rightarrow> nat \<Rightarrow> nat \<Rightarrow> string" where
  "substr s pos n = take n (drop pos s)"
  \<comment> \<open>the code calls it with \<open>pos \<le> size()\<close> only, where it does not throw\<close>

lemma find0_SomeD: "find0 pat s = Some i \<Longrightarrow> i + length pat \<le> length s \<and> prefix pat (drop i s)"
  by (induction pat s arbitrary: i rule: find0.induct)
    (auto split: if_splits dest: prefix_length_le)

text \<open>\<open>find\<close> gives the least position at which the pattern occurs.\<close>

lemma find0_least: "find0 pat s = Some i \<Longrightarrow> j < i \<Longrightarrow> \<not> prefix pat (drop j s)"
proof (induction pat s arbitrary: i j rule: find0.induct)
  case (2 pat c s)
  then show ?case by (cases j) (auto split: if_splits)
qed (simp split: if_splits)

lemma find0_NoneD: "find0 pat s = None \<Longrightarrow> \<not> prefix pat (drop j s)"
proof (induction pat s arbitrary: j rule: find0.induct)
  case (2 pat c s)
  then show ?case by (cases j) (auto split: if_splits)
qed (simp split: if_splits)

lemma find_from_SomeD:
  assumes "find_from s pat pos = Some i"
  shows "pos \<le> i" and "i + length pat \<le> length s" and "prefix pat (drop i s)"
  using assms find0_SomeD [of pat "drop pos s"]
  by (auto simp: find_from_def add.commute split: if_splits)

lemma find_from_range: "find_from s pat pos = Some i \<Longrightarrow> pos \<le> i \<and> i + length pat \<le> length s"
  using find_from_SomeD(1,2) by blast

lemma find_from_least:
  assumes "find_from s pat pos = Some i" and "pos \<le> j" and "j < i"
  shows "\<not> prefix pat (drop j s)"
proof -
  obtain k where k: "find0 pat (drop pos s) = Some k" "i = pos + k"
    using assms(1) by (auto simp: find_from_def split: if_splits)
  with assms have "\<not> prefix pat (drop (j - pos) (drop pos s))" by (intro find0_least) auto
  then show ?thesis using assms(2) by simp
qed

lemma find_from_append:
  "find_from (pre @ s) pat (length pre) = map_option ((+) (length pre)) (find0 pat s)"
  by (simp add: find_from_def)

lemma find_from_zero: "find_from s pat 0 = find0 pat s"
  by (cases "find0 pat s") (simp_all add: find_from_def)

lemma contains_iff: "contains s pat \<longleftrightarrow> sublist pat s"
proof
  assume "contains s pat"
  then obtain i where "find0 pat s = Some i" by (auto simp: contains_def find_from_zero)
  then have "prefix pat (drop i s)" using find0_SomeD by blast
  then show "sublist pat s" by (metis append_take_drop_id prefix_def sublist_def)
next
  assume "sublist pat s"
  then obtain p q where s: "s = p @ pat @ q" by (auto simp: sublist_def)
  then have "prefix pat (drop (length p) s)" by simp
  then show "contains s pat" using find0_NoneD by (fastforce simp: contains_def find_from_zero)
qed

text \<open>Text without the first character of the pattern is skipped.\<close>

lemma find0_skip [simp]:
  "c \<notin> set x \<Longrightarrow> find0 (c # p) (x @ s) = map_option ((+) (length x)) (find0 (c # p) s)"
proof (induction x)
  case Nil
  show ?case by (cases "find0 (c # p) s") simp_all
next
  case (Cons a x)
  then show ?case by (cases "find0 (c # p) s") auto
qed

lemma find0_none [simp]: "c \<notin> set x \<Longrightarrow> find0 (c # p) x = None"
  by (induction x) auto

text \<open>The text between the next two quotation marks, and the position of the second one.\<close>

definition quoted :: "string \<Rightarrow> nat \<Rightarrow> (string \<times> nat) option" where
  "quoted s pos = (case find_from s ''\"'' pos of
     None \<Rightarrow> None
   | Some a \<Rightarrow> (case find_from s ''\"'' (a + 1) of
       None \<Rightarrow> None
     | Some b \<Rightarrow> Some (substr s (a + 1) (b - (a + 1)), b)))"

lemma quoted_range:
  assumes "quoted s pos = Some (v, b)"
  shows "pos < b \<and> b < length s"
proof -
  obtain a where a: "find_from s ''\"'' pos = Some a" "find_from s ''\"'' (a + 1) = Some b"
    using assms by (auto simp: quoted_def split: option.splits)
  show ?thesis using find_from_range [OF a(1)] find_from_range [OF a(2)] by simp
qed

section \<open>Numbers\<close>

definition digit_value :: "char \<Rightarrow> nat option" where
  "digit_value c = (let n = of_char c :: nat in if 48 \<le> n \<and> n \<le> 57 then Some (n - 48) else None)"

definition is_digit :: "char \<Rightarrow> bool" where
  "is_digit c \<longleftrightarrow> digit_value c \<noteq> None"

definition is_space :: "char \<Rightarrow> bool" where
  "is_space c \<longleftrightarrow> c \<in> {CHR '' '', CHR 0x09, CHR 0x0A, CHR 0x0B, CHR 0x0C, CHR 0x0D}"

definition hex_value :: "char \<Rightarrow> nat option" where
  "hex_value c =
     (let n = of_char c :: nat in
      if 48 \<le> n \<and> n \<le> 57 then Some (n - 48)
      else if 97 \<le> n \<and> n \<le> 102 then Some (n - 87)
      else if 65 \<le> n \<and> n \<le> 70 then Some (n - 55)
      else None)"

definition dec_number :: "string \<Rightarrow> nat" where
  "dec_number s = foldl (\<lambda>a c. 10 * a + the (digit_value c)) 0 s"

text \<open>White space, a sign, and the rest.\<close>

definition strip_sign :: "string \<Rightarrow> bool \<times> string" where
  "strip_sign s = (let s = dropWhile is_space s in
     (s \<noteq> [] \<and> hd s = CHR ''-'', if s \<noteq> [] \<and> (hd s = CHR ''-'' \<or> hd s = CHR ''+'') then tl s else s))"

definition parse_dec :: "string \<Rightarrow> (bool \<times> nat) option" where
  "parse_dec s = (let (neg, s) = strip_sign s; ds = takeWhile is_digit s
     in if ds = [] then None else Some (neg, dec_number ds))"

text \<open>\<open>std::stoi\<close>, \<open>std::stoll\<close>, \<open>std::stoull\<close>: both exceptions carry the function's name.\<close>

definition signed_in :: "nat \<Rightarrow> string \<Rightarrow> (bool \<times> nat) option \<Rightarrow> string + int" where
  "signed_in bits what p = (case p of
     None \<Rightarrow> Inl what
   | Some (neg, n) \<Rightarrow> (let i = (if neg then - int n else int n) in
       if - (2 ^ (bits - 1)) \<le> i \<and> i < 2 ^ (bits - 1) then Inr i else Inl what))"

definition stoi :: "string \<Rightarrow> string + int" where
  "stoi s = signed_in 32 ''stoi'' (parse_dec s)"

definition stoll :: "string \<Rightarrow> string + int" where
  "stoll s = signed_in 64 ''stoll'' (parse_dec s)"

definition stoull :: "string \<Rightarrow> string + u64" where
  "stoull s = (case parse_dec s of
     None \<Rightarrow> Inl ''stoull''
   | Some (neg, n) \<Rightarrow> (if 2 ^ 64 \<le> n then Inl ''stoull''
       else Inr (if neg then - word_of_nat n else word_of_nat n)))"

text \<open>
  \<open>std::stod\<close> (\<open>strtod\<close>): infinities and NaN by name, hexadecimal and decimal numbers with
  a fraction and an exponent.  The value is the correctly rounded one; overflow, and a
  result that is subnormal and not exact, is \<open>out_of_range\<close>.
\<close>

definition lower :: "char \<Rightarrow> char" where
  "lower c = (let n = of_char c :: nat in if 65 \<le> n \<and> n \<le> 90 then char_of (n + 32) else c)"

definition exponent_of :: "char \<Rightarrow> string \<Rightarrow> int" where
  "exponent_of e s =
     (if s \<noteq> [] \<and> lower (hd s) = e then
        let t = tl s;
            neg = (t \<noteq> [] \<and> hd t = CHR ''-'');
            t = (if t \<noteq> [] \<and> (hd t = CHR ''-'' \<or> hd t = CHR ''+'') then tl t else t);
            n = int (dec_number (takeWhile is_digit t))
        in if neg then - n else n
      else 0)"

definition scan_float :: "(char \<Rightarrow> nat option) \<Rightarrow> nat \<Rightarrow> nat \<Rightarrow> char \<Rightarrow> string \<Rightarrow> rat option" where
  "scan_float digit base ebase e s =
     (let ds = takeWhile (\<lambda>c. digit c \<noteq> None) s;
          r = dropWhile (\<lambda>c. digit c \<noteq> None) s;
          fs = (if r \<noteq> [] \<and> hd r = CHR ''.'' then takeWhile (\<lambda>c. digit c \<noteq> None) (tl r) else []);
          r = (if r \<noteq> [] \<and> hd r = CHR ''.'' then dropWhile (\<lambda>c. digit c \<noteq> None) (tl r) else r);
          m = foldl (\<lambda>a c. base * a + the (digit c)) 0 (ds @ fs)
      in if ds @ fs = [] then None
         else Some (of_nat m / of_nat base ^ length fs * of_nat ebase powi exponent_of e r))"

definition float_result :: "bool \<Rightarrow> rat \<Rightarrow> string + double" where
  "float_result neg r = (let x = (if neg then - r else r) in
     if \<not> is_finite (rnd x) \<or> (\<bar>x\<bar> < 2 powi (- 1022) \<and> rnd x \<noteq> Fin x) then Inl ''stod'' else Inr (rnd x))"

definition stod :: "string \<Rightarrow> string + double" where
  "stod s =
     (let (neg, t) = strip_sign s; l = map lower t in
      if take 3 l = ''inf'' then Inr (Infinite neg)
      else if take 3 l = ''nan'' then Inr NaN
      else case (if take 2 l = ''0x'' then scan_float hex_value 16 2 (CHR ''p'') (drop 2 t) else None) of
        Some r \<Rightarrow> float_result neg r
      | None \<Rightarrow> (case scan_float digit_value 10 10 (CHR ''e'') t of
          Some r \<Rightarrow> float_result neg r
        | None \<Rightarrow> Inl ''stod''))"

text \<open>For evaluating \<open>stod\<close> on a literal.\<close>

lemmas stod_eval =
  stod_def strip_sign_def scan_float_def exponent_of_def lower_def float_result_def is_space_def
  digit_value_def double_eval

section \<open>Regular expressions\<close>

text \<open>
  \<open>std::regex_search\<close> takes the leftmost position at which the rest of the text starts with a
  match.  A matcher gives what its group captures.  \<open>lit_class\<close> is a literal, \<open>(class+)\<close> and
  a closing literal that starts outside the class; \<open>star_then\<close> is a greedy \<open>class*\<close> before
  another matcher, with its backtracking.
\<close>

fun regex_search :: "(string \<Rightarrow> 'a option) \<Rightarrow> string \<Rightarrow> 'a option" where
  "regex_search m [] = m []"
| "regex_search m (c # s) = (case m (c # s) of Some v \<Rightarrow> Some v | None \<Rightarrow> regex_search m s)"

definition lit_class :: "string \<Rightarrow> (char \<Rightarrow> bool) \<Rightarrow> string \<Rightarrow> string \<Rightarrow> string option" where
  "lit_class lit ok close s =
     (if prefix lit s then
        let t = drop (length lit) s; v = takeWhile ok t
        in if v \<noteq> [] \<and> prefix close (dropWhile ok t) then Some v else None
      else None)"

definition lit_signed :: "string \<Rightarrow> string \<Rightarrow> string option" where
  "lit_signed lit s =
     (if prefix lit s then
        let t = drop (length lit) s; m = (if t \<noteq> [] \<and> hd t = CHR ''-'' then ''-'' else []);
            v = takeWhile is_digit (drop (length m) t)
        in if v \<noteq> [] then Some (m @ v) else None
      else None)"

definition lit_bool :: "string \<Rightarrow> string \<Rightarrow> string option" where
  "lit_bool lit s =
     (if prefix (lit @ ''true'') s then Some ''true''
      else if prefix (lit @ ''false'') s then Some ''false'' else None)"

fun star_then :: "(char \<Rightarrow> bool) \<Rightarrow> (string \<Rightarrow> 'a option) \<Rightarrow> string \<Rightarrow> 'a option" where
  "star_then ok m [] = m []"
| "star_then ok m (c # s) =
     (if ok c then (case star_then ok m s of Some v \<Rightarrow> Some v | None \<Rightarrow> m (c # s)) else m (c # s))"

definition lit_then :: "string \<Rightarrow> (string \<Rightarrow> 'a option) \<Rightarrow> string \<Rightarrow> 'a option" where
  "lit_then lit m s = (if prefix lit s then m (drop (length lit) s) else None)"

text \<open>The three shapes over a JSON key: \<open>"key":"([^"]+)"\<close>, \<open>"key":([0-9]+)\<close>, \<open>"key":(true|false)\<close>.\<close>

definition key_lit :: "string \<Rightarrow> string" where
  "key_lit key = ''\"'' @ key @ ''\":''"

definition rx_quoted :: "string \<Rightarrow> string \<Rightarrow> string option" where
  "rx_quoted key = regex_search (lit_class (key_lit key @ ''\"'') (\<lambda>c. c \<noteq> CHR 0x22) ''\"'')"

definition rx_digits :: "string \<Rightarrow> string \<Rightarrow> string option" where
  "rx_digits key = regex_search (lit_class (key_lit key) is_digit [])"

definition rx_bool :: "string \<Rightarrow> string \<Rightarrow> string option" where
  "rx_bool key = regex_search (lit_bool (key_lit key))"

section \<open>Digits\<close>

lemma digit_value_dec [simp]: "d < 10 \<Longrightarrow> digit_value (dec_digit d) = Some d"
  by (simp add: digit_value_def dec_digit_def)

lemma is_digit_dec [simp]: "d < 10 \<Longrightarrow> is_digit (dec_digit d)"
  by (simp add: is_digit_def)

lemma dec_string_digits: "\<forall>c \<in> set (dec_string n). is_digit c"
proof (induction n rule: dec_string.induct)
  case (1 n)
  then show ?case by (subst dec_string.simps) auto
qed

lemma dec_string_not_Nil [simp]: "dec_string n \<noteq> []"
  by (subst dec_string.simps) simp

lemma dec_number_snoc: "dec_number (s @ [c]) = 10 * dec_number s + the (digit_value c)"
  by (simp add: dec_number_def)

lemma dec_number_dec_string [simp]: "dec_number (dec_string n) = n"
proof (induction n rule: dec_string.induct)
  case (1 n)
  show ?case
  proof (cases "n < 10")
    case True
    then show ?thesis by (subst dec_string.simps) (simp add: dec_number_def)
  next
    case False
    with 1 show ?thesis by (subst dec_string.simps) (simp add: dec_number_snoc)
  qed
qed

lemma digit_plain:
  assumes "is_digit c"
  shows "\<not> is_space c" and "c \<noteq> CHR ''-''" and "c \<noteq> CHR ''+''" and "c \<noteq> CHR 0x22"
  using assms by (auto simp: is_digit_def digit_value_def is_space_def)

lemma strip_sign_digits:
  assumes "ds \<noteq> []" and "\<forall>c \<in> set ds. is_digit c"
  shows "strip_sign (ds @ r) = (False, ds @ r)" and "strip_sign (CHR ''-'' # ds @ r) = (True, ds @ r)"
proof -
  from assms have h: "is_digit (hd ds)" by simp
  show "strip_sign (ds @ r) = (False, ds @ r)"
    using digit_plain [OF h] assms(1) by (cases ds) (simp_all add: strip_sign_def)
  show "strip_sign (CHR ''-'' # ds @ r) = (True, ds @ r)"
    by (simp add: strip_sign_def is_space_def)
qed

lemma takeWhile_digits:
  "\<forall>c \<in> set ds. is_digit c \<Longrightarrow> r = [] \<or> \<not> is_digit (hd r) \<Longrightarrow> takeWhile is_digit (ds @ r) = ds"
  by (cases r) auto

lemma parse_dec_string:
  assumes "r = [] \<or> \<not> is_digit (hd r)"
  shows "parse_dec (dec_string n @ r) = Some (False, n)"
    and "parse_dec (CHR ''-'' # dec_string n @ r) = Some (True, n)"
  using strip_sign_digits [OF dec_string_not_Nil dec_string_digits] takeWhile_digits [OF dec_string_digits assms]
  by (simp_all add: parse_dec_def)

text \<open>Printing a number and parsing it gives it back, whatever follows that is not a digit.\<close>

lemma stoull_dec_string:
  "r = [] \<or> \<not> is_digit (hd r) \<Longrightarrow> n < 2 ^ 64 \<Longrightarrow> stoull (dec_string n @ r) = Inr (word_of_nat n)"
  using parse_dec_string(1) [of r n] by (simp add: stoull_def)

lemma parse_dec_int_string:
  "parse_dec (int_string i) = Some (i < 0, nat \<bar>i\<bar>)"
  using parse_dec_string [of "[]" "nat i"] parse_dec_string [of "[]" "nat (- i)"]
  by (simp add: int_string_def)

lemma stoll_int_string:
  "- (2 ^ 63) \<le> i \<Longrightarrow> i < 2 ^ 63 \<Longrightarrow> stoll (int_string i) = Inr i"
  by (simp add: stoll_def signed_in_def parse_dec_int_string)

end
