(* ===== verification/Market_Parse.thy ===== *)
theory Market_Parse
  imports Text Types "HOL-Library.Monad_Syntax"
begin

text \<open>
  The message parsers of \<open>src/market_feed.cpp\<close>.  They search the text for keys and do not
  check its structure.  \<open>None\<close> is the result \<open>false\<close> (or \<open>nullopt\<close>) of a parser; \<open>Inl\<close> is
  an exception of a number parser that the parser does not catch.  The results of a parser
  that returns a \<open>bool\<close> and fills a vector are the vector, empty when it returns \<open>false\<close>.
\<close>

section \<open>Best bid and offer\<close>

definition stod_opt :: "string \<Rightarrow> double option" where
  "stod_opt s = (case stod s of Inl _ \<Rightarrow> None | Inr x \<Rightarrow> Some x)"
  \<comment> \<open>\<open>stod\<close> inside \<open>try\<close> with \<open>catch (...)\<close>\<close>

definition parse_hl_bbo :: "string \<Rightarrow> (double \<times> double) option" where
  "parse_hl_bbo msg = do {
     bbo_pos \<leftarrow> find_from msg ''\"bbo\"'' 0;
     bid_px_pos \<leftarrow> find_from msg ''\"px\"'' bbo_pos;
     (b, bid_end) \<leftarrow> quoted msg (bid_px_pos + 4);
     bid \<leftarrow> stod_opt b;
     ask_px_pos \<leftarrow> find_from msg ''\"px\"'' bid_end;
     (a, ask_end) \<leftarrow> quoted msg (ask_px_pos + 4);
     ask \<leftarrow> stod_opt a;
     if 0 < bid \<and> 0 < ask then Some (bid, ask) else None
   }"

definition parse_lighter_ticker :: "string \<Rightarrow> (double \<times> double) option" where
  "parse_lighter_ticker msg = do {
     ticker_pos \<leftarrow> find_from msg ''\"ticker\"'' 0;
     ask_pos \<leftarrow> find_from msg ''\"a\"'' ticker_pos;
     bid_pos \<leftarrow> find_from msg ''\"b\"'' ticker_pos;
     ask_price_pos \<leftarrow> find_from msg ''\"price\"'' ask_pos;
     bid_price_pos \<leftarrow> find_from msg ''\"price\"'' bid_pos;
     (a, ae) \<leftarrow> quoted msg (ask_price_pos + 7);
     (b, be) \<leftarrow> quoted msg (bid_price_pos + 7);
     ask \<leftarrow> stod_opt a;
     bid \<leftarrow> stod_opt b;
     if 0 < bid \<and> 0 < ask then Some (bid, ask) else None
   }"

section \<open>Fields of a section of text\<close>

text \<open>
  A field that is absent keeps its default; the number parsers may throw.  \<open>then_try\<close> goes on
  when nothing was thrown.
\<close>

definition then_try :: "'e + 'a \<Rightarrow> ('a \<Rightarrow> 'e + 'b) \<Rightarrow> 'e + 'b" where
  "then_try r f = (case r of Inl e \<Rightarrow> Inl e | Inr x \<Rightarrow> f x)"

definition field_or :: "'a \<Rightarrow> (string \<Rightarrow> string + 'a) \<Rightarrow> string option \<Rightarrow> string + 'a" where
  "field_or d parse m = (case m of None \<Rightarrow> Inr d | Some t \<Rightarrow> parse t)"

section \<open>Lighter positions\<close>

definition no_position :: lighter_position_snapshot where
  "no_position = \<lparr>lps_size = 0, lps_avg_entry_price = 0, lps_position_value = 0\<rparr>"

definition position_fields :: "string \<Rightarrow> string + lighter_position_snapshot" where
  "position_fields section =
     then_try (field_or 0 stoi (regex_search (lit_signed (key_lit ''sign'')) section)) (\<lambda>sign.
     then_try (field_or 0 stod (rx_quoted ''position'' section)) (\<lambda>position.
     then_try (field_or 0 stod (rx_quoted ''avg_entry_price'' section)) (\<lambda>avg.
     then_try (field_or 0 stod (rx_quoted ''position_value'' section)) (\<lambda>val.
       Inr \<lparr>lps_size = dbl_of_int sign * position, lps_avg_entry_price = avg,
            lps_position_value = val\<rparr>))))"

definition positions_channel :: string where
  "positions_channel = ''\"account_all_positions:\"''"

definition parse_lighter_position_update ::
  "string \<Rightarrow> int \<Rightarrow> string + lighter_position_snapshot option" where
  "parse_lighter_position_update msg market_index =
     (if \<not> contains msg positions_channel \<or> \<not> contains msg ''\"positions\"'' then Inr None
      else case find_from msg (''\"'' @ int_string market_index @ ''\":{'') 0 of
        None \<Rightarrow> Inr (Some no_position)
      | Some market_pos \<Rightarrow>
          then_try (position_fields (substr msg market_pos 512)) (\<lambda>snap. Inr (Some snap)))"

section \<open>Lighter orders and trades of the account\<close>

record lighter_order_update =
  lou_order_index :: i64
  lou_client_order_index :: i64
  lou_is_ask :: bool
  lou_price :: double
  lou_remaining_base_amount :: double
  lou_filled_base_amount :: double
  lou_status :: string

definition resting :: "lighter_order_update \<Rightarrow> bool" where
  "resting u \<longleftrightarrow> lou_status u = ''open'' \<or> lou_status u = ''in-progress''"

definition cancelled :: "lighter_order_update \<Rightarrow> bool" where
  "cancelled u \<longleftrightarrow> prefix ''canceled'' (lou_status u)"

definition order_fields :: "string \<Rightarrow> string \<Rightarrow> string + lighter_order_update" where
  "order_fields idx section =
     then_try (stoll idx) (\<lambda>order_index.
     then_try (field_or 0 stoll (rx_digits ''client_order_index'' section)) (\<lambda>client_order_index.
     then_try (field_or 0 stod (rx_quoted ''price'' section)) (\<lambda>price.
     then_try (field_or 0 stod (rx_quoted ''remaining_base_amount'' section)) (\<lambda>remaining.
     then_try (field_or 0 stod (rx_quoted ''filled_base_amount'' section)) (\<lambda>filled.
       Inr \<lparr>lou_order_index = order_index, lou_client_order_index = client_order_index,
            lou_is_ask = (rx_bool ''is_ask'' section = Some ''true''), lou_price = price,
            lou_remaining_base_amount = remaining, lou_filled_base_amount = filled,
            lou_status = (case rx_quoted ''status'' section of None \<Rightarrow> [] | Some s \<Rightarrow> s)\<rparr>)))))"

text \<open>One round of the loop: \<open>Inr None\<close> is \<open>break\<close>.\<close>

definition order_at ::
  "string \<Rightarrow> int \<Rightarrow> nat \<Rightarrow> string + (lighter_order_update \<times> nat) option" where
  "order_at msg market_index search_pos =
     (case find_from msg ''\"order_index\"'' search_pos of
        None \<Rightarrow> Inr None
      | Some idx_pos \<Rightarrow>
          (let next_market = find_from msg (''\"'' @ int_string market_index @ ''\":['') (idx_pos + 1);
               section = substr msg idx_pos 1024
           in if (case next_market of None \<Rightarrow> False | Some n \<Rightarrow> n < idx_pos) then Inr None
              else case rx_digits ''order_index'' section of
                None \<Rightarrow> Inr None
              | Some idx \<Rightarrow> then_try (order_fields idx section) (\<lambda>u. Inr (Some (u, idx_pos + 1)))))"

lemma then_try_Inr: "then_try r f = Inr y \<longleftrightarrow> (\<exists>x. r = Inr x \<and> f x = Inr y)"
  by (auto simp: then_try_def split: sum.splits)

lemma order_at_next:
  assumes "order_at msg m pos = Inr (Some (u, p))"
  shows "pos < p" and "p \<le> length msg"
  using assms by (auto simp: order_at_def Let_def then_try_Inr split: option.splits if_splits
      dest!: find_from_range)

function orders_from :: "string \<Rightarrow> int \<Rightarrow> nat \<Rightarrow> string + lighter_order_update list" where
  "orders_from msg market_index search_pos =
     (case order_at msg market_index search_pos of
        Inl e \<Rightarrow> Inl e
      | Inr None \<Rightarrow> Inr []
      | Inr (Some (u, next)) \<Rightarrow>
          then_try (orders_from msg market_index next) (\<lambda>us. Inr (u # us)))"
  by pat_completeness auto

termination
  by (relation "measure (\<lambda>(msg, m, pos). length msg - pos)")
    (auto dest: order_at_next intro: diff_less_mono2 less_le_trans [OF order_at_next(1)])

declare orders_from.simps [simp del]

definition parse_lighter_order_updates :: "string \<Rightarrow> int \<Rightarrow> string + lighter_order_update list" where
  "parse_lighter_order_updates msg market_index =
     (if \<not> contains msg ''account_orders:'' \<or> \<not> contains msg ''\"orders\"'' then Inr []
      else case find_from msg (''\"'' @ int_string market_index @ ''\":['') 0 of
        None \<Rightarrow> Inr []
      | Some market_pos \<Rightarrow> orders_from msg market_index market_pos)"

record lighter_trade_fill =
  ltf_order_index :: i64
  ltf_client_order_index :: i64
  ltf_is_ask :: bool
  ltf_price :: double
  ltf_size :: double
  ltf_tx_hash :: string
  ltf_exchange_time_ms :: u64

text \<open>The fill of one trade: none when the account is not its maker.\<close>

definition trade_fields ::
  "string \<Rightarrow> i64 \<Rightarrow> string \<Rightarrow> string + lighter_trade_fill option" where
  "trade_fields tx account_index section =
     then_try (field_or 0 stod (rx_quoted ''price'' section)) (\<lambda>price.
     then_try (field_or 0 stod (rx_quoted ''size'' section)) (\<lambda>sz.
     then_try (field_or 0 stoll (rx_digits ''ask_account_id'' section)) (\<lambda>ask_account.
     then_try (field_or 0 stoll (rx_digits ''bid_account_id'' section)) (\<lambda>bid_account.
     then_try (field_or 0 stoll (rx_digits ''ask_id'' section)) (\<lambda>ask_id.
     then_try (field_or 0 stoll (rx_digits ''bid_id'' section)) (\<lambda>bid_id.
     then_try (field_or 0 stoll (rx_digits ''ask_client_id'' section)) (\<lambda>ask_client.
     then_try (field_or 0 stoll (rx_digits ''bid_client_id'' section)) (\<lambda>bid_client.
     then_try (field_or 0 stoull (rx_digits ''timestamp'' section)) (\<lambda>time.
       let is_maker_ask = (rx_bool ''is_maker_ask'' section = Some ''true'');
           account_is_maker_ask = (is_maker_ask \<and> ask_account = account_index);
           account_is_maker_bid = (\<not> is_maker_ask \<and> bid_account = account_index);
           fill = \<lparr>ltf_order_index = 0, ltf_client_order_index = 0, ltf_is_ask = False, ltf_price = price,
                   ltf_size = sz, ltf_tx_hash = tx, ltf_exchange_time_ms = time\<rparr>
       in Inr (if account_is_maker_ask
               then Some (fill\<lparr>ltf_is_ask := True, ltf_order_index := ask_id, ltf_client_order_index := ask_client\<rparr>)
               else if account_is_maker_bid
               then Some (fill\<lparr>ltf_is_ask := False, ltf_order_index := bid_id, ltf_client_order_index := bid_client\<rparr>)
               else None))))))))))"

definition trade_at ::
  "string \<Rightarrow> i64 \<Rightarrow> nat \<Rightarrow> string + (lighter_trade_fill option \<times> nat) option" where
  "trade_at msg account_index search_pos =
     (case find_from msg ''\"tx_hash\"'' search_pos of
        None \<Rightarrow> Inr None
      | Some tx_pos \<Rightarrow>
          (let section = substr msg tx_pos 1024
           in case rx_quoted ''tx_hash'' section of
                None \<Rightarrow> Inr None
              | Some tx \<Rightarrow> then_try (trade_fields tx account_index section) (\<lambda>f. Inr (Some (f, tx_pos + 1)))))"

lemma trade_at_next:
  assumes "trade_at msg a pos = Inr (Some (f, p))"
  shows "pos < p" and "p \<le> length msg"
  using assms by (auto simp: trade_at_def Let_def then_try_Inr split: option.splits dest!: find_from_range)

function trades_from :: "string \<Rightarrow> i64 \<Rightarrow> nat \<Rightarrow> string + lighter_trade_fill list" where
  "trades_from msg account_index search_pos =
     (case trade_at msg account_index search_pos of
        Inl e \<Rightarrow> Inl e
      | Inr None \<Rightarrow> Inr []
      | Inr (Some (f, next)) \<Rightarrow>
          then_try (trades_from msg account_index next)
            (\<lambda>fs. Inr (case f of None \<Rightarrow> fs | Some fill \<Rightarrow> fill # fs)))"
  by pat_completeness auto

termination
  by (relation "measure (\<lambda>(msg, a, pos). length msg - pos)")
    (auto intro: diff_less_mono2 less_le_trans [OF trade_at_next(1)] dest: trade_at_next)

declare trades_from.simps [simp del]

definition parse_lighter_account_trades ::
  "string \<Rightarrow> i64 \<Rightarrow> int \<Rightarrow> string + lighter_trade_fill list" where
  "parse_lighter_account_trades msg account_index market_index =
     (if \<not> contains msg ''account_all_trades:'' \<or> \<not> contains msg ''\"trades\"'' then Inr []
      else case find_from msg (''\"'' @ int_string market_index @ ''\":['') 0 of
        None \<Rightarrow> Inr []
      | Some market_pos \<Rightarrow> trades_from msg account_index market_pos)"

section \<open>Hyperliquid fills\<close>

record parsed_fill =
  pf_coin :: string
  pf_price :: double
  pf_size :: double
  pf_is_buy :: bool
  pf_oid :: string
  pf_fee :: double
  pf_fee_token :: string

text \<open>The side is the character after the next quotation mark; without one it is a buy.\<close>

definition side_is_buy :: "string \<Rightarrow> nat option \<Rightarrow> bool" where
  "side_is_buy msg side_pos = (case side_pos of
     None \<Rightarrow> True
   | Some p \<Rightarrow> (case find_from msg ''\"'' (p + 6) of
       None \<Rightarrow> True
     | Some s \<Rightarrow> s + 1 < length msg \<and> msg ! (s + 1) = CHR ''B''))"

definition fill_oid :: "string \<Rightarrow> nat option \<Rightarrow> string" where
  "fill_oid msg oid_pos = (case oid_pos of
     None \<Rightarrow> []
   | Some p \<Rightarrow> (case find_from msg '':'' (p + 4) of
       None \<Rightarrow> []
     | Some colon \<Rightarrow>
         takeWhile (\<lambda>c. c \<notin> {CHR '','', CHR ''}'', CHR 0x22})
           (dropWhile (\<lambda>c. c = CHR '' '' \<or> c = CHR 0x22) (drop (colon + 1) msg))))"

text \<open>\<open>npos\<close> is larger than every position, and \<open>npos + 100\<close> wraps to \<open>99\<close>.\<close>

definition fill_fee :: "string \<Rightarrow> nat \<Rightarrow> nat option \<Rightarrow> double" where
  "fill_fee msg se fee_pos = (case fee_pos of
     None \<Rightarrow> 0
   | Some p \<Rightarrow>
       (if (case find_from msg ''}'' se of None \<Rightarrow> True | Some b \<Rightarrow> p < b)
        then case quoted msg (p + 5) of
            None \<Rightarrow> 0
          | Some (fee, _) \<Rightarrow> (case stod_opt fee of None \<Rightarrow> 0 | Some x \<Rightarrow> x)
        else 0))"

definition fill_fee_token :: "string \<Rightarrow> nat \<Rightarrow> nat option \<Rightarrow> string" where
  "fill_fee_token msg se ft_pos = (case ft_pos of
     None \<Rightarrow> []
   | Some p \<Rightarrow>
       (if p < (case find_from msg ''}'' se of None \<Rightarrow> 99 | Some b \<Rightarrow> b + 100)
        then case quoted msg (p + 10) of None \<Rightarrow> [] | Some (token, _) \<Rightarrow> token
        else []))"

definition pos_or :: "nat option \<Rightarrow> nat \<Rightarrow> nat" where
  "pos_or p d = (case p of None \<Rightarrow> d | Some n \<Rightarrow> n)"

text \<open>One round of the loop: \<open>None\<close> is \<open>break\<close>.\<close>

definition fill_at :: "string \<Rightarrow> nat \<Rightarrow> (parsed_fill \<times> nat) option" where
  "fill_at msg search_pos = do {
     coin_pos \<leftarrow> find_from msg ''\"coin\"'' search_pos;
     (coin, ce) \<leftarrow> quoted msg (coin_pos + 6);
     px_pos \<leftarrow> find_from msg ''\"px\"'' ce;
     (px, pe) \<leftarrow> quoted msg (px_pos + 4);
     price \<leftarrow> stod_opt px;
     sz_pos \<leftarrow> find_from msg ''\"sz\"'' pe;
     (sz, se) \<leftarrow> quoted msg (sz_pos + 4);
     size \<leftarrow> stod_opt sz;
     let side_pos = find_from msg ''\"side\"'' se;
     let oid_pos = find_from msg ''\"oid\"'' se;
     let fee_pos = find_from msg ''\"fee\"'' (pos_or oid_pos se);
     let ft_pos = find_from msg ''\"feeToken\"'' (pos_or fee_pos se);
     Some (\<lparr>pf_coin = coin, pf_price = price, pf_size = size, pf_is_buy = side_is_buy msg side_pos,
            pf_oid = fill_oid msg oid_pos, pf_fee = fill_fee msg se fee_pos,
            pf_fee_token = fill_fee_token msg se ft_pos\<rparr>, se + 1)
   }"

lemma fill_at_next:
  assumes "fill_at msg pos = Some (f, p)"
  shows "pos < p" and "p \<le> length msg"
  using assms by (auto simp: fill_at_def Let_def bind_eq_Some_conv dest!: find_from_range quoted_range)

function fills_from :: "string \<Rightarrow> nat \<Rightarrow> parsed_fill list" where
  "fills_from msg search_pos = (case fill_at msg search_pos of
     None \<Rightarrow> []
   | Some (f, next) \<Rightarrow> f # fills_from msg next)"
  by pat_completeness auto

termination
  by (relation "measure (\<lambda>(msg, pos). length msg - pos)")
    (auto intro: diff_less_mono2 less_le_trans [OF fill_at_next(1)] dest: fill_at_next)

declare fills_from.simps [simp del]

definition parse_hl_fill :: "string \<Rightarrow> parsed_fill list" where
  "parse_hl_fill msg =
     (if contains msg ''\"isSnapshot\":true'' then []
      else case find_from msg ''\"fills\"'' 0 of None \<Rightarrow> [] | Some pos \<Rightarrow> fills_from msg pos)"

section \<open>Hyperliquid trade prints\<close>

definition trade_time :: "string \<Rightarrow> nat option \<Rightarrow> u64" where
  "trade_time msg time_pos = (case time_pos of
     None \<Rightarrow> 0
   | Some p \<Rightarrow> (case find_from msg '':'' (p + 5) of
       None \<Rightarrow> 0
     | Some colon \<Rightarrow> (case stoull (dropWhile (\<lambda>c. c = CHR '' '') (drop (colon + 1) msg)) of
         Inl _ \<Rightarrow> 0
       | Inr t \<Rightarrow> t)))"

text \<open>\<open>now\<close> is what \<open>perf_now_ns\<close> returns in this round.\<close>

definition print_at :: "string \<Rightarrow> string \<Rightarrow> u64 \<Rightarrow> nat \<Rightarrow> (trade_event \<times> nat) option" where
  "print_at msg target_coin now search_pos = do {
     px_pos \<leftarrow> find_from msg ''\"px\"'' search_pos;
     (px, pe) \<leftarrow> quoted msg (px_pos + 4);
     price \<leftarrow> stod_opt px;
     sz_pos \<leftarrow> find_from msg ''\"sz\"'' pe;
     (sz, se) \<leftarrow> quoted msg (sz_pos + 4);
     size \<leftarrow> stod_opt sz;
     let side_pos = find_from msg ''\"side\"'' se;
     let time_pos = find_from msg ''\"time\"'' (pos_or side_pos se);
     Some (\<lparr>te_coin = target_coin, te_price = price, te_size = size, te_is_buy = side_is_buy msg side_pos,
            te_timestamp_ns = now, te_exchange_time_ms = trade_time msg time_pos\<rparr>, se + 1)
   }"

lemma print_at_next:
  assumes "print_at msg coin now pos = Some (t, p)"
  shows "pos < p" and "p \<le> length msg"
  using assms by (auto simp: print_at_def Let_def bind_eq_Some_conv dest!: find_from_range quoted_range)

function prints_from :: "string \<Rightarrow> string \<Rightarrow> (nat \<Rightarrow> u64) \<Rightarrow> nat \<Rightarrow> trade_event list" where
  "prints_from msg target_coin clock search_pos = (case print_at msg target_coin (clock 0) search_pos of
     None \<Rightarrow> []
   | Some (t, next) \<Rightarrow> t # prints_from msg target_coin (\<lambda>n. clock (Suc n)) next)"
  by pat_completeness auto

termination
  by (relation "measure (\<lambda>(msg, coin, clock, pos). length msg - pos)")
    (auto intro: diff_less_mono2 less_le_trans [OF print_at_next(1)] dest: print_at_next)

declare prints_from.simps [simp del]

definition parse_hl_trades :: "string \<Rightarrow> string \<Rightarrow> (nat \<Rightarrow> u64) \<Rightarrow> trade_event list" where
  "parse_hl_trades msg target_coin clock =
     (case find_from msg ''\"trades\"'' 0 of
        None \<Rightarrow> []
      | Some pos \<Rightarrow>
          (if \<not> contains msg (''\"coin\":\"'' @ target_coin @ ''\"'') then []
           else prints_from msg target_coin clock pos))"

end
