(* ===== verification/Market_Parse_Facts.thy ===== *)
theory Market_Parse_Facts
  imports Market_Parse
begin

text \<open>
  What the parsers of \<open>src/market_feed.cpp\<close> read in messages of the documented format: the
  position of a cursor in a message is followed step by step, and each \<open>find\<close> is evaluated on
  the text after the cursor.
\<close>

section \<open>A cursor in a message\<close>

definition at_text :: "string \<Rightarrow> nat \<Rightarrow> string \<Rightarrow> bool" where
  "at_text msg pos s \<longleftrightarrow> pos \<le> length msg \<and> drop pos msg = s"

lemma at_text_0 [simp]: "at_text msg 0 msg"
  by (simp add: at_text_def)

lemma at_text_find: "at_text msg pos s \<Longrightarrow> find_from msg pat pos = map_option ((+) pos) (find0 pat s)"
  by (simp add: at_text_def find_from_def)

lemma at_text_append: "at_text msg pos (x @ s) \<Longrightarrow> at_text msg (pos + length x) s"
  by (auto simp: at_text_def add.commute [of pos] simp flip: drop_drop dest: arg_cong [where f = length])

lemma at_text_move:
  "at_text msg pos s \<Longrightarrow> s = x @ t \<Longrightarrow> n = pos + length x \<Longrightarrow> at_text msg n t"
  using at_text_append by simp

lemma at_text_find_at:
  assumes "at_text msg pos s" and "find0 pat s = Some n"
  shows "find_from msg pat pos = Some (pos + n)" and "at_text msg (pos + n) (drop n s)"
proof -
  show "find_from msg pat pos = Some (pos + n)" using assms by (simp add: at_text_find)
  from find0_SomeD [OF assms(2)] have "n \<le> length s" by simp
  with assms(1) show "at_text msg (pos + n) (drop n s)"
    by (auto simp: at_text_def add.commute [of pos] simp flip: drop_drop)
qed

lemma at_text_quoted:
  assumes "at_text msg pos (x @ CHR 0x22 # v @ CHR 0x22 # s)" and "CHR 0x22 \<notin> set x" and "CHR 0x22 \<notin> set v"
  shows "quoted msg pos = Some (v, pos + length x + 1 + length v)"
    and "at_text msg (pos + length x + 1 + length v) (CHR 0x22 # s)"
proof -
  have 1: "at_text msg (pos + length x) (CHR 0x22 # v @ CHR 0x22 # s)"
    by (rule at_text_append [OF assms(1)])
  then have 2: "at_text msg (pos + length x + 1) (v @ CHR 0x22 # s)"
    using at_text_append [of msg _ "[CHR 0x22]"] by simp
  then show 3: "at_text msg (pos + length x + 1 + length v) (CHR 0x22 # s)" by (rule at_text_append)
  have "substr msg (pos + length x + 1) (length v) = v"
    using 2 by (simp add: substr_def at_text_def)
  then show "quoted msg pos = Some (v, pos + length x + 1 + length v)"
    using assms at_text_find [OF assms(1)] at_text_find [OF 2] by (simp add: quoted_def)
qed

text \<open>A text between quotation marks is a quoted key only if it is that key.\<close>

lemma prefix_quoted:
  assumes "CHR 0x22 \<notin> set x" and "CHR 0x22 \<notin> set w"
  shows "prefix (w @ CHR 0x22 # p) (x @ CHR 0x22 # s) \<longleftrightarrow> x = w \<and> prefix p s"
  using assms
proof (induction w arbitrary: x)
  case Nil
  then show ?case by (cases x) auto
next
  case (Cons a w)
  then show ?case by (cases x) auto
qed

lemmas prefix_keys =
  prefix_quoted [of _ "''feeToken''" "[]", simplified] prefix_quoted [of _ "''coin''" "[]", simplified]
  prefix_quoted [of _ "''fills''" "[]", simplified] prefix_quoted [of _ "''isSnapshot''" "'':true''", simplified]

section \<open>Fills\<close>

text \<open>The texts of a fill object, the object, and what the feed is to report of it.\<close>

record fill_text =
  fx_coin :: string
  fx_px :: string
  fx_sz :: string
  fx_is_buy :: bool
  fx_oid :: string
  fx_fee :: string
  fx_token :: string

definition fill_rest :: "fill_text \<Rightarrow> string" where
  "fill_rest f = '',\"side\":\"'' @ (if fx_is_buy f then ''B'' else ''A'') @ ''\",\"oid\":'' @ fx_oid f
     @ '',\"fee\":\"'' @ fx_fee f @ ''\",\"feeToken\":\"'' @ fx_token f @ ''\"}''"

definition fill_object :: "fill_text \<Rightarrow> string" where
  "fill_object f = ''{\"coin\":\"'' @ fx_coin f @ ''\",\"px\":\"'' @ fx_px f @ ''\",\"sz\":\"'' @ fx_sz f @ ''\"'' @ fill_rest f"

definition fill_text_ok :: "fill_text \<Rightarrow> bool" where
  "fill_text_ok f \<longleftrightarrow>
     (\<forall>x \<in> {fx_coin f, fx_px f, fx_sz f, fx_fee f, fx_token f}. CHR 0x22 \<notin> set x) \<and>
     stod_opt (fx_px f) \<noteq> None \<and> stod_opt (fx_sz f) \<noteq> None \<and>
     (\<forall>c \<in> set (fx_oid f). is_digit c) \<and> CHR ''}'' \<notin> set (fx_fee f) \<and>
     fx_fee f \<notin> {''feeToken'', ''coin''} \<and> fx_token f \<noteq> ''coin''"

definition fill_meant :: "fill_text \<Rightarrow> parsed_fill" where
  "fill_meant f = \<lparr>pf_coin = fx_coin f, pf_price = the (stod_opt (fx_px f)), pf_size = the (stod_opt (fx_sz f)),
     pf_is_buy = fx_is_buy f, pf_oid = fx_oid f,
     pf_fee = (case stod_opt (fx_fee f) of None \<Rightarrow> 0 | Some x \<Rightarrow> x), pf_fee_token = fx_token f\<rparr>"

lemma fill_object_fields:
  assumes "fill_text_ok f"
  shows "CHR 0x22 \<notin> set (fx_coin f)" "CHR 0x22 \<notin> set (fx_px f)" "CHR 0x22 \<notin> set (fx_sz f)"
    "CHR 0x22 \<notin> set (fx_fee f)" "CHR 0x22 \<notin> set (fx_token f)" "CHR 0x22 \<notin> set (fx_oid f)"
    "CHR ''}'' \<notin> set (fx_fee f)" "CHR ''}'' \<notin> set (fx_oid f)" "CHR '','' \<notin> set (fx_oid f)" "CHR '' '' \<notin> set (fx_oid f)"
    "fx_fee f \<noteq> ''feeToken''" "fx_fee f \<noteq> ''coin''" "fx_token f \<noteq> ''coin''"
  using assms by (auto simp: fill_text_ok_def is_digit_def digit_value_def)

lemma at_text_nth: "at_text msg pos (c # s) \<Longrightarrow> pos < length msg \<and> msg ! pos = c"
  by (metis at_text_def drop_all hd_drop_conv_nth leI list.discI list.sel(1))

lemma find0_char: "c \<in> set s \<Longrightarrow> find0 [c] s \<noteq> None"
  by (induction s) auto

text \<open>The fields after the size.\<close>

lemma fill_rest_fields:
  assumes ok: "fill_text_ok f" and cur: "at_text msg se (CHR 0x22 # fill_rest f @ rest)"
  defines "side_pos \<equiv> find_from msg ''\"side\"'' se"
    and "oid_pos \<equiv> find_from msg ''\"oid\"'' se"
  defines "fee_pos \<equiv> find_from msg ''\"fee\"'' (pos_or oid_pos se)"
  defines "ft_pos \<equiv> find_from msg ''\"feeToken\"'' (pos_or fee_pos se)"
  shows "side_is_buy msg side_pos = fx_is_buy f" and "fill_oid msg oid_pos = fx_oid f"
    and "fill_fee msg se fee_pos = (case stod_opt (fx_fee f) of None \<Rightarrow> 0 | Some x \<Rightarrow> x)"
    and "fill_fee_token msg se ft_pos = fx_token f"
proof -
  note q = fill_object_fields [OF ok]
  define B where "B = (if fx_is_buy f then CHR ''B'' else CHR ''A'')"
  have B: "B \<noteq> CHR 0x22" "B \<noteq> CHR ''}''" "(B = CHR ''B'') = fx_is_buy f" by (simp_all add: B_def)
  define Z where "Z = ''\"feeToken\":\"'' @ fx_token f @ ''\"}'' @ rest"
  define Y where "Y = ''\"fee\":\"'' @ fx_fee f @ ''\",'' @ Z"
  have Z: "CHR ''}'' \<in> set Z" by (simp add: Z_def)
  have b0: "at_text msg se (''\",\"side\":\"'' @ B # ''\",\"oid\":'' @ fx_oid f @ '','' @ Y)"
    using cur by (cases "fx_is_buy f") (simp_all add: fill_rest_def B_def Y_def Z_def)
  define sp op where "sp = se + 2" and "op = se + 13"
  have side: "side_pos = Some (sp)" using B by (simp add: side_pos_def at_text_find [OF b0] sp_def)
  have b1: "at_text msg (sp + 6) ('':\"'' @ B # ''\",\"oid\":'' @ fx_oid f @ '','' @ Y)"
    by (rule at_text_move [OF b0, of "''\",\"side\"''"]) (simp_all add: sp_def)
  have b2: "at_text msg (sp + 6 + 1 + 1) (B # ''\",\"oid\":'' @ fx_oid f @ '','' @ Y)"
    by (rule at_text_move [OF b1, of "'':\"''"]) simp_all
  show "side_is_buy msg side_pos = fx_is_buy f"
    using at_text_nth [OF b2] B(3) by (simp add: side side_is_buy_def at_text_find [OF b1])
  have oid: "oid_pos = Some (op)" using B by (simp add: oid_pos_def at_text_find [OF b0] op_def)
  have b3: "at_text msg (op) (''\"oid\":'' @ fx_oid f @ '','' @ Y)"
    by (rule at_text_move [OF b0, of "''\",\"side\":\"'' @ [B] @ ''\",''"]) (simp_all add: op_def)
  have b4: "at_text msg (op + 4) (''\":'' @ fx_oid f @ '','' @ Y)"
    by (rule at_text_move [OF b3, of "''\"oid''"]) simp_all
  have b5: "at_text msg (op + 4 + 1 + 1) (fx_oid f @ '','' @ Y)"
    by (rule at_text_move [OF b4, of "''\":''"]) simp_all
  have "dropWhile (\<lambda>c. c = CHR '' '' \<or> c = CHR 0x22) (fx_oid f @ '','' @ Y) = fx_oid f @ '','' @ Y"
    using q by (cases "fx_oid f") auto
  moreover have "takeWhile (\<lambda>c. c \<notin> {CHR '','', CHR ''}'', CHR 0x22}) (fx_oid f @ '','' @ Y) = fx_oid f"
    using q by (subst takeWhile_append2) (auto simp: takeWhile.simps)
  ultimately show "fill_oid msg oid_pos = fx_oid f"
    using b5 by (simp add: oid fill_oid_def at_text_find [OF b4] at_text_def)
  define fp where "fp = op + (7 + length (fx_oid f))"
  have fee: "fee_pos = Some fp"
    using q by (simp add: fee_pos_def oid pos_or_def at_text_find [OF b3] Y_def fp_def)
  have b6: "at_text msg fp Y"
    by (rule at_text_move [OF b3, of "''\"oid\":'' @ fx_oid f @ '',''"]) (simp_all add: fp_def)
  have b7: "at_text msg (fp + 5) ('':'' @ CHR 0x22 # fx_fee f @ CHR 0x22 # '','' @ Z)"
    by (rule at_text_move [OF b6, of "''\"fee\"''"]) (simp_all add: Y_def)
  have quot: "quoted msg (fp + 5) = Some (fx_fee f, fp + 5 + length '':'' + 1 + length (fx_fee f))"
    by (rule at_text_quoted(1) [OF b7]) (use q in simp_all)
  define tp where "tp = fp + (9 + length (fx_fee f))"
  obtain b where b: "find0 ''}'' Z = Some b" using find0_char [OF Z] by blast
  have brace: "find_from msg ''}'' se = Some (tp + b)"
    using q B b by (simp add: at_text_find [OF b0] Y_def fp_def op_def tp_def)
  show "fill_fee msg se fee_pos = (case stod_opt (fx_fee f) of None \<Rightarrow> 0 | Some x \<Rightarrow> x)"
    using quot brace by (simp add: fee fill_fee_def tp_def)
  have ft: "ft_pos = Some tp"
    using q by (simp add: ft_pos_def fee pos_or_def at_text_find [OF b6] Y_def Z_def tp_def prefix_keys)
  have b8: "at_text msg (tp + 10) ('':'' @ CHR 0x22 # fx_token f @ CHR 0x22 # ''}'' @ rest)"
    by (rule at_text_move [OF b6, of "''\"fee\":\"'' @ fx_fee f @ ''\",\"feeToken\"''"])
      (simp_all add: Y_def Z_def tp_def)
  have "quoted msg (tp + 10) = Some (fx_token f, tp + 10 + length '':'' + 1 + length (fx_token f))"
    by (rule at_text_quoted(1) [OF b8]) (use q in simp_all)
  then show "fill_fee_token msg se ft_pos = fx_token f"
    by (simp add: ft fill_fee_token_def brace)
qed

lemma fill_at_object:
  assumes ok: "fill_text_ok f" and cur: "at_text msg pos (x @ fill_object f @ rest)"
    and coin: "find0 ''\"coin\"'' (x @ fill_object f @ rest) = Some (length x + 1)"
  shows "\<exists>next. fill_at msg pos = Some (fill_meant f, next) \<and> at_text msg next (fill_rest f @ rest)"
proof -
  note q = fill_object_fields [OF ok]
  define R where "R = fill_rest f @ rest"
  define c0 where "c0 = pos + (length x + 1)"
  have 1: "find_from msg ''\"coin\"'' pos = Some c0"
    using at_text_find_at(1) [OF cur coin] by (simp add: c0_def)
  have a1: "at_text msg (c0 + 6) ('':'' @ CHR 0x22 # fx_coin f @ CHR 0x22 # '',\"px\":\"'' @ fx_px f @ ''\",\"sz\":\"'' @ fx_sz f @ ''\"'' @ R)"
    by (rule at_text_move [OF cur, of "x @ ''{\"coin\"''"]) (simp_all add: fill_object_def c0_def R_def)
  define ce where "ce = c0 + 6 + 1 + 1 + length (fx_coin f)"
  have 2: "quoted msg (c0 + 6) = Some (fx_coin f, ce)"
    using at_text_quoted(1) [OF a1] q by (simp add: ce_def)
  have a2: "at_text msg ce (''\",\"px\":\"'' @ fx_px f @ ''\",\"sz\":\"'' @ fx_sz f @ ''\"'' @ R)"
    using at_text_quoted(2) [OF a1] q by (simp add: ce_def)
  define px where "px = ce + 2"
  have 3: "find_from msg ''\"px\"'' ce = Some px" by (simp add: at_text_find [OF a2] px_def)
  have a3: "at_text msg (px + 4) ('':'' @ CHR 0x22 # fx_px f @ CHR 0x22 # '',\"sz\":\"'' @ fx_sz f @ ''\"'' @ R)"
    by (rule at_text_move [OF a2, of "''\",\"px\"''"]) (simp_all add: px_def)
  define pe where "pe = px + 4 + 1 + 1 + length (fx_px f)"
  have 4: "quoted msg (px + 4) = Some (fx_px f, pe)"
    using at_text_quoted(1) [OF a3] q by (simp add: pe_def)
  have a4: "at_text msg pe (''\",\"sz\":\"'' @ fx_sz f @ ''\"'' @ R)"
    using at_text_quoted(2) [OF a3] q by (simp add: pe_def)
  define sz where "sz = pe + 2"
  have 5: "find_from msg ''\"sz\"'' pe = Some sz" by (simp add: at_text_find [OF a4] sz_def)
  have a5: "at_text msg (sz + 4) ('':'' @ CHR 0x22 # fx_sz f @ CHR 0x22 # R)"
    by (rule at_text_move [OF a4, of "''\",\"sz\"''"]) (simp_all add: sz_def)
  define se where "se = sz + 4 + 1 + 1 + length (fx_sz f)"
  have 6: "quoted msg (sz + 4) = Some (fx_sz f, se)"
    using at_text_quoted(1) [OF a5] q by (simp add: se_def)
  have a6: "at_text msg se (CHR 0x22 # R)"
    using at_text_quoted(2) [OF a5] q by (simp add: se_def)
  have a7: "at_text msg (se + 1) R" by (rule at_text_move [OF a6, of "[CHR 0x22]"]) simp_all
  obtain price size where n: "stod_opt (fx_px f) = Some price" "stod_opt (fx_sz f) = Some size"
    using ok by (auto simp: fill_text_ok_def)
  note r = fill_rest_fields [OF ok a6 [unfolded R_def]]
  have "fill_at msg pos = Some (fill_meant f, se + 1)"
    by (simp add: fill_at_def Let_def 1 2 3 4 5 6 n r fill_meant_def)
  with a7 show ?thesis by (auto simp: R_def)
qed

text \<open>Between two objects there is no other coin.\<close>

lemma find_coin_rest:
  assumes "fill_text_ok f"
  shows "find0 ''\"coin\"'' (fill_rest f @ rest) = map_option ((+) (length (fill_rest f))) (find0 ''\"coin\"'' rest)"
  using fill_object_fields [OF assms]
  by (cases "find0 ''\"coin\"'' rest") (simp_all add: fill_rest_def prefix_keys)

fun fill_objects :: "fill_text list \<Rightarrow> string" where
  "fill_objects [] = []"
| "fill_objects [f] = fill_object f"
| "fill_objects (f # fs) = fill_object f @ '','' @ fill_objects fs"

lemma fills_from_objects:
  assumes "\<forall>f \<in> set (f # fs). fill_text_ok f" and "at_text msg pos (x @ fill_objects (f # fs) @ '']}}'')"
    and "\<And>s. find0 ''\"coin\"'' (x @ CHR ''{'' # ''\"coin\"'' @ s) = Some (length x + 1)"
  shows "fills_from msg pos = map fill_meant (f # fs)"
  using assms
proof (induction fs arbitrary: f x pos)
  case Nil
  have "find0 ''\"coin\"'' (x @ fill_object f @ '']}}'') = Some (length x + 1)"
    using Nil.prems(3) by (simp add: fill_object_def)
  then obtain next' where n: "fill_at msg pos = Some (fill_meant f, next')"
      "at_text msg next' (fill_rest f @ '']}}'')"
    using fill_at_object [of f msg pos x "'']}}''"] Nil.prems by auto
  have "find_from msg ''\"coin\"'' next' = None"
    using Nil.prems(1) by (simp add: at_text_find [OF n(2)] find_coin_rest)
  then have "fill_at msg next' = None" by (simp add: fill_at_def)
  then show ?case using n(1) by (simp add: fills_from.simps [of msg pos] fills_from.simps [of msg next'])
next
  case (Cons g fs)
  let ?rest = "'','' @ fill_objects (g # fs) @ '']}}''"
  have "find0 ''\"coin\"'' (x @ fill_object f @ ?rest) = Some (length x + 1)"
    using Cons.prems(3) by (simp add: fill_object_def)
  then obtain next' where n: "fill_at msg pos = Some (fill_meant f, next')"
      "at_text msg next' (fill_rest f @ ?rest)"
    using fill_at_object [of f msg pos x ?rest] Cons.prems by auto
  have "fills_from msg next' = map fill_meant (g # fs)"
  proof (rule Cons.IH)
    show "at_text msg next' ((fill_rest f @ '','') @ fill_objects (g # fs) @ '']}}'')" using n(2) by simp
    show "find0 ''\"coin\"'' ((fill_rest f @ '','') @ CHR ''{'' # ''\"coin\"'' @ s) = Some (length (fill_rest f @ '','') + 1)" for s
      using Cons.prems(1) by (simp add: find_coin_rest)
  qed (use Cons.prems(1) in simp)
  then show ?case using n(1) by (simp add: fills_from.simps [of msg pos])
qed

definition fills_message :: "string \<Rightarrow> fill_text list \<Rightarrow> string" where
  "fills_message user fs =
     ''{\"channel\":\"userFills\",\"data\":{\"isSnapshot\":false,\"user\":\"'' @ user @ ''\",\"fills\":[''
     @ fill_objects fs @ '']}}''"

lemma no_snapshot_objects:
  "\<forall>f \<in> set fs. fill_text_ok f \<Longrightarrow> find0 ''\"isSnapshot\":true'' (fill_objects fs @ '']}}'') = None"
proof (induction fs rule: fill_objects.induct)
  case (2 f)
  then show ?case using fill_object_fields [of f] by (simp add: fill_object_def fill_rest_def prefix_keys)
next
  case (3 f g fs)
  then show ?case using fill_object_fields [of f] by (simp add: fill_object_def fill_rest_def prefix_keys)
qed simp

text \<open>Every fill of a \<open>userFills\<close> message is read back, in order, whatever the texts are.\<close>

lemma parse_fills_message:
  assumes "\<forall>f \<in> set fs. fill_text_ok f" and "CHR 0x22 \<notin> set user" and "user \<noteq> ''fills''"
  shows "parse_hl_fill (fills_message user fs) = map fill_meant fs"
proof -
  let ?x = "''\"fills\":[''"
  define pre where "pre = ''{\"channel\":\"userFills\",\"data\":{\"isSnapshot\":false,\"user\":\"'' @ user @ ''\",''"
  have msg: "fills_message user fs = pre @ ?x @ fill_objects fs @ '']}}''" by (simp add: fills_message_def pre_def)
  have snap: "\<not> contains (fills_message user fs) ''\"isSnapshot\":true''"
    using no_snapshot_objects [OF assms(1)] assms(2)
    by (simp add: contains_def find_from_zero fills_message_def prefix_keys)
  have "find0 ''\"fills\"'' (fills_message user fs) = Some (length pre)"
    using assms(2,3) by (simp add: fills_message_def pre_def prefix_keys)
  then have fills: "find_from (fills_message user fs) ''\"fills\"'' 0 = Some (length pre)"
    by (simp add: find_from_zero)
  have cur: "at_text (fills_message user fs) (length pre) (?x @ fill_objects fs @ '']}}'')"
    by (simp add: msg at_text_def)
  show ?thesis
  proof (cases fs)
    case Nil
    have "find_from (fills_message user fs) ''\"coin\"'' (length pre) = None"
      using at_text_find [OF cur] by (simp add: Nil)
    then show ?thesis
      using snap fills by (simp add: parse_hl_fill_def Nil fills_from.simps [of _ "length pre"] fill_at_def)
  next
    case (Cons f gs)
    with fills_from_objects [of f gs "fills_message user fs" "length pre" ?x] cur assms(1)
    have "fills_from (fills_message user fs) (length pre) = map fill_meant fs" by simp
    then show ?thesis using snap fills by (simp add: parse_hl_fill_def)
  qed
qed

text \<open>A message with two fills, for which the hypotheses hold.\<close>

definition demo_fills :: "fill_text list" where
  "demo_fills =
     [\<lparr>fx_coin = ''HYPE'', fx_px = ''21.5'', fx_sz = ''2.5'', fx_is_buy = True, fx_oid = ''12345'',
       fx_fee = ''0.25'', fx_token = ''USDC''\<rparr>,
      \<lparr>fx_coin = ''BTC'', fx_px = ''100'', fx_sz = ''1'', fx_is_buy = False, fx_oid = ''6'',
       fx_fee = ''x'', fx_token = ''USDC''\<rparr>]"

lemma demo_fills_ok: "\<forall>f \<in> set demo_fills. fill_text_ok f"
proof -
  have "stod_opt ''21.5'' = Some (Fin (43 / 2))" "stod_opt ''2.5'' = Some (Fin (5 / 2))"
    "stod_opt ''100'' = Some (Fin 100)" "stod_opt ''1'' = Some (Fin 1)"
    by (simp_all add: stod_opt_def stod_eval)
  then show ?thesis by (simp add: demo_fills_def fill_text_ok_def is_digit_def digit_value_def)
qed

section \<open>Quotes\<close>

definition bbo_message :: "string \<Rightarrow> string \<Rightarrow> string \<Rightarrow> string \<Rightarrow> string \<Rightarrow> string \<Rightarrow> string \<Rightarrow> string" where
  "bbo_message coin time px sz n px2 rest =
     ''{\"channel\":\"bbo\",\"data\":{\"coin\":\"'' @ coin @ ''\",\"time\":'' @ time @ '',\"bbo\":[{\"px\":\"'' @ px
     @ ''\",\"sz\":\"'' @ sz @ ''\",\"n\":'' @ n @ ''},{\"px\":\"'' @ px2 @ ''\",'' @ rest"

text \<open>From a quote message of the documented format \<open>parse_hl_bbo\<close> takes the first price as
  the bid and the second as the ask, and accepts them exactly when both are numbers and
  positive.\<close>

theorem hl_bbo_read_back:
  assumes "\<forall>x \<in> {coin, time, px, sz, n, px2}. CHR 0x22 \<notin> set x" and "coin \<noteq> ''px''" and "sz \<noteq> ''px''"
    and "px \<noteq> ''px''"
  shows "parse_hl_bbo (bbo_message coin time px sz n px2 rest) =
    (case (stod_opt px, stod_opt px2) of
       (Some b, Some a) \<Rightarrow> (if 0 < b \<and> 0 < a then Some (b, a) else None)
     | _ \<Rightarrow> None)"
proof -
  let ?m = "bbo_message coin time px sz n px2 rest"
  define R where "R = ''\",'' @ rest"
  define Q where "Q = ''\",\"sz\":\"'' @ sz @ ''\",\"n\":'' @ n @ ''},{\"px\":\"'' @ px2 @ R"
  define H where "H = '',\"data\":{\"coin\":\"'' @ coin @ ''\",\"time\":'' @ time @ '',\"bbo\":[{''"
  have q: "CHR 0x22 \<notin> set coin" "CHR 0x22 \<notin> set time" "CHR 0x22 \<notin> set px" "CHR 0x22 \<notin> set sz"
    "CHR 0x22 \<notin> set n" "CHR 0x22 \<notin> set px2" using assms(1) by simp_all
  have a: "at_text ?m 0 (''{\"channel\":\"bbo\"'' @ H @ ''\"px\":\"'' @ px @ Q)"
    by (simp add: at_text_def bbo_message_def H_def Q_def R_def)
  have 1: "find_from ?m ''\"bbo\"'' 0 = Some 11" by (simp add: at_text_find [OF a])
  have a1: "at_text ?m 11 (''\"bbo\"'' @ H @ ''\"px\":\"'' @ px @ Q)"
    by (rule at_text_move [OF a, of "''{\"channel\":''"]) simp_all
  define p where "p = 11 + (5 + length H)"
  have "find0 ''\"px\"'' (''\"bbo\"'' @ H @ ''\"px\":\"'' @ px @ Q) = Some (5 + length H)"
    using q assms(2) by (simp add: H_def prefix_quoted [of _ "''px''" "[]", simplified])
  then have 2: "find_from ?m ''\"px\"'' 11 = Some p" by (simp add: at_text_find [OF a1] p_def)
  have a2: "at_text ?m (p + 4) ('':'' @ CHR 0x22 # px @ CHR 0x22 # tl Q)"
    by (rule at_text_move [OF a1, of "''\"bbo\"'' @ H @ ''\"px\"''"]) (simp_all add: p_def Q_def)
  define be where "be = p + 4 + 1 + 1 + length px"
  have 3: "quoted ?m (p + 4) = Some (px, be)" using at_text_quoted(1) [OF a2] q by (simp add: be_def)
  have a3: "at_text ?m be Q" using at_text_quoted(2) [OF a2] q by (simp add: be_def Q_def)
  define p2 where "p2 = be + (17 + length sz + length n)"
  have 4: "find_from ?m ''\"px\"'' be = Some p2"
    using q assms(3) by (simp add: at_text_find [OF a3] Q_def p2_def prefix_quoted [of _ "''px''" "[]", simplified])
  have a4: "at_text ?m (p2 + 4) ('':'' @ CHR 0x22 # px2 @ CHR 0x22 # tl R)"
    by (rule at_text_move [OF a3, of "''\",\"sz\":\"'' @ sz @ ''\",\"n\":'' @ n @ ''},{\"px\"''"])
      (simp_all add: p2_def Q_def R_def)
  have 5: "quoted ?m (p2 + 4) = Some (px2, p2 + 4 + 1 + 1 + length px2)"
    using at_text_quoted(1) [OF a4] q by simp
  show ?thesis by (simp add: parse_hl_bbo_def 1 2 3 4 5 split: option.split)
qed

theorem hl_bbo_read_back_witness:
  "parse_hl_bbo (bbo_message ''HYPE'' ''123'' ''21.5'' ''10'' ''3'' ''22'' ''\"sz\":\"5\",\"n\":2}]}}'')
     = Some (Fin (43 / 2), Fin 22)"
proof -
  have s: "stod_opt ''21.5'' = Some (Fin (43 / 2))" "stod_opt ''22'' = Some (Fin 22)"
    by (simp_all add: stod_opt_def stod_eval)
  show ?thesis
    by (subst hl_bbo_read_back) (simp_all add: s less_double.simps zero_double_def)
qed

section \<open>Updates that are not understood\<close>

definition positions_message :: "string \<Rightarrow> string \<Rightarrow> string" where
  "positions_message idx body =
     ''{\"channel\":\"account_all_positions:'' @ idx @ ''\",\"positions\":{'' @ body @ ''}}''"

lemma position_updates_ignored_aux:
  assumes "idx \<noteq> []" and "\<forall>c \<in> set idx. is_digit c" and "\<not> contains (body @ ''}}'') positions_channel"
  shows "parse_lighter_position_update (positions_message idx body) market_index = Inr None"
proof -
  obtain d ds where idx: "idx = d # ds" using assms(1) by (cases idx) auto
  then have q: "d \<noteq> CHR 0x22" "CHR 0x22 \<notin> set ds"
    using assms(2) digit_plain(4) by auto
  have "find0 positions_channel (body @ ''}}'') = None"
    using assms(3) by (simp add: contains_def find_from_zero)
  then have "find0 positions_channel (positions_message idx body) = None"
    using q by (simp add: positions_message_def positions_channel_def idx)
  then show ?thesis
    by (simp add: parse_lighter_position_update_def contains_def find_from_zero)
qed

text \<open>
  \<open>parse_lighter_account_trades\<close> starts at the market's key but reads to the end of the message:
  a trade of market 2 is reported as a fill of market 1, in which the account has no trade.
\<close>

definition two_markets :: string where
  "two_markets = ''{\"channel\":\"account_all_trades:7\",\"trades\":{\"1\":[],\"2\":[{\"tx_hash\":\"ab\",\"price\":\"1.5\",\"size\":\"3\",\"is_maker_ask\":true,\"ask_account_id\":7,\"ask_id\":9}]}}''"

theorem trades_of_other_markets_taken:
  "parse_lighter_account_trades two_markets 7 1 =
     Inr [\<lparr>ltf_order_index = 9, ltf_client_order_index = 0, ltf_is_ask = True, ltf_price = Fin (3 / 2),
           ltf_size = Fin 3, ltf_tx_hash = ''ab'', ltf_exchange_time_ms = 0\<rparr>]"
proof -
  let ?rest = "''\"tx_hash\":\"ab\",\"price\":\"1.5\",\"size\":\"3\",\"is_maker_ask\":true,\"ask_account_id\":7,\"ask_id\":9}]}}''"
  have key: "int_string 1 = ''1''" by code_simp
  have c: "contains two_markets ''account_all_trades:''" "contains two_markets ''\"trades\"''"
    "find_from two_markets ''\"1\":['' 0 = Some 44"
    by (simp_all add: contains_def find_from_zero two_markets_def)
  have tx: "find_from two_markets ''\"tx_hash\"'' 44 = Some 57" "substr two_markets 57 1024 = ?rest"
    "find_from two_markets ''\"tx_hash\"'' 58 = None"
    by (simp_all add: find_from_def substr_def two_markets_def)
  note rx = rx_quoted_def rx_digits_def rx_bool_def key_lit_def lit_class_def lit_bool_def is_digit_def digit_value_def
  have f: "rx_quoted ''tx_hash'' ?rest = Some ''ab''" "rx_quoted ''price'' ?rest = Some ''1.5''"
    "rx_quoted ''size'' ?rest = Some ''3''" "rx_digits ''ask_account_id'' ?rest = Some ''7''"
    "rx_digits ''ask_id'' ?rest = Some ''9''"
    by (simp_all add: rx)
  have g: "rx_digits ''bid_account_id'' ?rest = None"
    "rx_digits ''bid_id'' ?rest = None" "rx_digits ''ask_client_id'' ?rest = None"
    "rx_digits ''bid_client_id'' ?rest = None" "rx_digits ''timestamp'' ?rest = None"
    "rx_bool ''is_maker_ask'' ?rest = Some ''true''"
    by (simp_all add: rx)
  have n: "stod ''1.5'' = Inr (Fin (3 / 2))" "stod ''3'' = Inr (Fin 3)" "stoll ''7'' = Inr 7" "stoll ''9'' = Inr 9"
    by (simp_all add: stod_eval stoll_def signed_in_def parse_dec_def is_digit_def dec_number_def)
  have "trade_at two_markets 7 44 = Inr (Some (Some \<lparr>ltf_order_index = 9, ltf_client_order_index = 0,
      ltf_is_ask = True, ltf_price = Fin (3 / 2), ltf_size = Fin 3, ltf_tx_hash = ''ab'',
      ltf_exchange_time_ms = 0\<rparr>, 58))"
    by (simp add: trade_at_def tx(1,2) f(1) trade_fields_def f g n field_or_def then_try_def)
  moreover have "trade_at two_markets 7 58 = Inr None" by (simp add: trade_at_def tx)
  ultimately show ?thesis
    by (simp add: parse_lighter_account_trades_def c key trades_from.simps [of _ _ 44]
        trades_from.simps [of _ _ 58] then_try_def)
qed

end
