(* ===== verification/Feeds.thy ===== *)
theory Feeds
  imports Market_Parse_Facts Perf
begin

text \<open>
  The feeds of \<open>src/market_feed.cpp\<close>: the shared best bid and offer, the market feed, the fill
  feed, the position feed and the account feed.  A handler runs on the thread of its
  connection and is a function of the message and the feed; what it sends, and the callbacks
  it makes, are its list of effects.  \<open>clock n\<close> is the n-th reading of the steady clock within
  the handler, in nanoseconds.  The debug output on \<open>std::cerr\<close> is left out.
\<close>

section \<open>The shared quote\<close>

record atomic_bbo =
  ab_bid :: double
  ab_ask :: double
  ab_last_update :: i64

definition empty_bbo :: atomic_bbo where
  "empty_bbo = \<lparr>ab_bid = 0, ab_ask = 0, ab_last_update = 0\<rparr>"

definition bbo_store :: "double \<Rightarrow> double \<Rightarrow> i64 \<Rightarrow> atomic_bbo \<Rightarrow> atomic_bbo" where
  "bbo_store b a now s = s\<lparr>ab_bid := b, ab_ask := a, ab_last_update := now\<rparr>"

text \<open>\<open>duration_cast\<close> rounds towards zero.\<close>

definition ns_to_ms :: "int \<Rightarrow> int" where
  "ns_to_ms d = (if d < 0 then - (- d div 1000000) else d div 1000000)"

definition bbo_load :: "i64 \<Rightarrow> atomic_bbo \<Rightarrow> bbo" where
  "bbo_load now s = \<lparr>bid = ab_bid s, ask = ab_ask s,
     quote_age_ms = (if 0 < ab_last_update s then ns_to_ms (now - ab_last_update s) else 999999)\<rparr>"

section \<open>The market feed\<close>

record market_feed =
  mf_hl_coin :: string
  mf_lighter_market_id :: int
  mf_hl_bbo :: atomic_bbo
  mf_lighter_bbo :: atomic_bbo
  mf_on_update :: bool       \<comment> \<open>whether the callback is set\<close>
  mf_on_trade :: bool
  mf_hl_subscribed :: bool
  mf_lighter_subscribed :: bool
  mf_hl_trades_subscribed :: bool

definition market_feed_new :: "string \<Rightarrow> int \<Rightarrow> bool \<Rightarrow> bool \<Rightarrow> market_feed" where
  "market_feed_new coin market_id on_update on_trade =
     \<lparr>mf_hl_coin = coin, mf_lighter_market_id = market_id, mf_hl_bbo = empty_bbo, mf_lighter_bbo = empty_bbo,
      mf_on_update = on_update, mf_on_trade = on_trade, mf_hl_subscribed = False,
      mf_lighter_subscribed = False, mf_hl_trades_subscribed = False\<rparr>"

datatype market_effect =
    SendHl string
  | SendLighter string
  | Updated
  | Traded trade_event

definition subscribe_hl :: "market_feed \<Rightarrow> market_effect list" where
  "subscribe_hl f =
     SendHl (''{\"method\":\"subscribe\",\"subscription\":{\"type\":\"bbo\",\"coin\":\"'' @ mf_hl_coin f @ ''\"}}'')
     # (if mf_on_trade f
        then [SendHl (''{\"method\":\"subscribe\",\"subscription\":{\"type\":\"trades\",\"coin\":\"'' @ mf_hl_coin f @ ''\"}}'')]
        else [])"

definition subscribe_lighter :: "market_feed \<Rightarrow> market_effect list" where
  "subscribe_lighter f =
     [SendLighter (''{\"type\":\"subscribe\",\"channel\":\"ticker/'' @ int_string (mf_lighter_market_id f) @ ''\"}'')]"

definition pong :: string where
  "pong = ''{\"type\":\"pong\"}''"

definition updated :: "market_feed \<Rightarrow> market_effect list" where
  "updated f = (if mf_on_update f then [Updated] else [])"

text \<open>The subscription flags that an acknowledgement sets.\<close>

definition hl_acknowledged :: "string \<Rightarrow> market_feed \<Rightarrow> market_feed" where
  "hl_acknowledged msg f =
     (if contains msg ''subscriptionResponse'' then
        let f = (if contains msg ''\"bbo\"'' \<and> \<not> mf_hl_subscribed f then f\<lparr>mf_hl_subscribed := True\<rparr> else f)
        in if contains msg ''\"trades\"'' \<and> mf_on_trade f \<and> \<not> mf_hl_trades_subscribed f
           then f\<lparr>mf_hl_trades_subscribed := True\<rparr> else f
      else f)"

definition on_hl_message ::
  "(nat \<Rightarrow> u64) \<Rightarrow> string \<Rightarrow> market_feed \<Rightarrow> perf_collector \<Rightarrow> market_effect list \<times> market_feed \<times> perf_collector" where
  "on_hl_message clock msg f p =
     (let local_rx_ns = clock 0;
          f = hl_acknowledged msg f;
          quote = (if contains msg ''\"bbo\"'' then parse_hl_bbo msg else None);
          (es, f, p, n) = (case quote of
              None \<Rightarrow> ([], f, p, 1)
            | Some (b, a) \<Rightarrow>
                (updated f, f\<lparr>mf_hl_bbo := bbo_store b a (uint (clock 1)) (mf_hl_bbo f)\<rparr>,
                 record_hot_path HlMarketLocalRxToBboUpdateNs (clock 2 - local_rx_ns) p, 3))
      in if mf_on_trade f \<and> mf_hl_trades_subscribed f
         then (es @ map Traded (parse_hl_trades msg (mf_hl_coin f) (\<lambda>k. clock (n + k))), f, p)
         else (es, f, p))"

definition on_lighter_message ::
  "(nat \<Rightarrow> u64) \<Rightarrow> string \<Rightarrow> market_feed \<Rightarrow> perf_collector \<Rightarrow> market_effect list \<times> market_feed \<times> perf_collector" where
  "on_lighter_message clock msg f p =
     (let local_rx_ns = clock 0 in
      if contains msg ''\"connected\"'' \<and> \<not> mf_lighter_subscribed f then (subscribe_lighter f, f, p)
      else if contains msg ''\"ping\"'' then ([SendLighter pong], f, p)
      else if contains msg ''\"ticker\"'' then
        (let f = f\<lparr>mf_lighter_subscribed := True\<rparr> in
         case parse_lighter_ticker msg of
           None \<Rightarrow> ([], f, p)
         | Some (b, a) \<Rightarrow>
             (updated f, f\<lparr>mf_lighter_bbo := bbo_store b a (uint (clock 1)) (mf_lighter_bbo f)\<rparr>,
              record_hot_path LighterMarketLocalRxToBboUpdateNs (clock 2 - local_rx_ns) p))
      else ([], f, p))"

definition on_hl_disconnect :: "market_feed \<Rightarrow> market_effect list \<times> market_feed" where
  "on_hl_disconnect f =
     (let f = f\<lparr>mf_hl_subscribed := False, mf_hl_trades_subscribed := False\<rparr> in (subscribe_hl f, f))"

definition on_lighter_disconnect :: "market_feed \<Rightarrow> market_effect list \<times> market_feed" where
  "on_lighter_disconnect f = ([], f\<lparr>mf_lighter_subscribed := False\<rparr>)"

definition feed_snapshot :: "i64 \<Rightarrow> i64 \<Rightarrow> market_feed \<Rightarrow> spread_snapshot" where
  "feed_snapshot now_hl now_lighter f =
     (let hl_bbo = bbo_load now_hl (mf_hl_bbo f);
          lighter_bbo = bbo_load now_lighter (mf_lighter_bbo f);
          hl_mid = mid hl_bbo;
          lighter_mid = mid lighter_bbo;
          avg_mid = (hl_mid + lighter_mid) / D 2;
          spread = (if 0 < avg_mid then ((lighter_mid - hl_mid) / avg_mid) * D 10000 else 0)
      in \<lparr>lighter = lighter_bbo, hl = hl_bbo, cross_spread_bps = spread\<rparr>)"

section \<open>The fill feed\<close>

record hl_fill_feed =
  hf_user_address :: string
  hf_subscribed :: bool

datatype fill_effect =
    SendFills string
  | Filled string double double bool string double   \<comment> \<open>coin, price, size, buy, oid, fee\<close>
  | FeedDown string

definition fills_subscribe :: "hl_fill_feed \<Rightarrow> fill_effect list" where
  "fills_subscribe f =
     [SendFills (''{\"method\":\"subscribe\",\"subscription\":{\"type\":\"userFills\",\"user\":\"'' @ hf_user_address f @ ''\"}}'')]"

definition report :: "parsed_fill \<Rightarrow> fill_effect" where
  "report x = Filled (pf_coin x) (pf_price x) (pf_size x) (pf_is_buy x) (pf_oid x) (pf_fee x)"

text \<open>Both callbacks are set, as \<open>main\<close> does before it starts the feed; the code also tests for them.\<close>

definition fills_on_message :: "string \<Rightarrow> hl_fill_feed \<Rightarrow> fill_effect list \<times> hl_fill_feed" where
  "fills_on_message msg f =
     (if \<not> hf_subscribed f then
        (if contains msg ''subscriptionResponse'' then ([], f\<lparr>hf_subscribed := True\<rparr>) else ([], f))
      else (map report (parse_hl_fill msg), f))"

definition fills_on_disconnect :: "string \<Rightarrow> hl_fill_feed \<Rightarrow> fill_effect list \<times> hl_fill_feed" where
  "fills_on_disconnect reason f =
     (let f = f\<lparr>hf_subscribed := False\<rparr> in (fills_subscribe f @ [FeedDown reason], f))"

section \<open>The position feed\<close>

text \<open>
  The handlers of the two Lighter account feeds may end with an exception of a number parser
  (the first component); what was done before it stays done.
\<close>

record position_feed =
  pz_account_index :: i64
  pz_market_index :: int
  pz_auth_token :: string
  pz_latest :: "lighter_position_snapshot option"
  pz_version :: u64
  pz_subscribed :: bool

definition positions_subscribe :: "position_feed \<Rightarrow> string list" where
  "positions_subscribe f =
     [''{\"type\":\"subscribe\",\"channel\":\"account_all_positions/'' @ int_string (pz_account_index f)
      @ ''\",\"auth\":\"'' @ pz_auth_token f @ ''\"}'']"

definition positions_on_message ::
  "string \<Rightarrow> position_feed \<Rightarrow> string option \<times> string list \<times> position_feed" where
  "positions_on_message msg f =
     (if contains msg ''\"connected\"'' \<and> \<not> pz_subscribed f then (None, positions_subscribe f, f)
      else if contains msg ''\"ping\"'' then (None, [pong], f)
      else
        let f = (if \<not> pz_subscribed f \<and> contains msg ''\"subscribed/account_all_positions\"''
                 then f\<lparr>pz_subscribed := True\<rparr> else f)
        in case parse_lighter_position_update msg (pz_market_index f) of
             Inl e \<Rightarrow> (Some e, [], f)
           | Inr None \<Rightarrow> (None, [], f)
           | Inr (Some snap) \<Rightarrow> (None, [], f\<lparr>pz_latest := Some snap, pz_version := pz_version f + 1\<rparr>))"

definition positions_on_disconnect :: "position_feed \<Rightarrow> string list \<times> position_feed" where
  "positions_on_disconnect f = (let f = f\<lparr>pz_subscribed := False\<rparr> in (positions_subscribe f, f))"

text \<open>
  Waiting on a condition variable: the waiter sees the feed each time it is woken, with the
  messages handled since then; \<open>batches\<close> are those messages, one list per wake-up, until the
  timeout.  The condition is also tested before the first wait.
\<close>

fun handled_batch :: "('m \<Rightarrow> 'f \<Rightarrow> 'f) \<Rightarrow> 'm list \<Rightarrow> 'f \<Rightarrow> 'f" where
  "handled_batch h [] f = f"
| "handled_batch h (m # ms) f = handled_batch h ms (h m f)"

fun wait_for :: "('f \<Rightarrow> bool) \<Rightarrow> ('m \<Rightarrow> 'f \<Rightarrow> 'f) \<Rightarrow> 'm list list \<Rightarrow> 'f \<Rightarrow> bool \<times> 'f" where
  "wait_for ready h [] f = (ready f, f)"
| "wait_for ready h (ms # mss) f = (if ready f then (True, f) else wait_for ready h mss (handled_batch h ms f))"

definition position_changed :: "double \<Rightarrow> position_feed \<Rightarrow> bool" where
  "position_changed baseline_size f = (case pz_latest f of
     None \<Rightarrow> False
   | Some s \<Rightarrow> D (1 / 1000) < \<bar>lps_size s - baseline_size\<bar>)"

definition positions_handle :: "string \<Rightarrow> position_feed \<Rightarrow> position_feed" where
  "positions_handle msg f = snd (snd (positions_on_message msg f))"

definition wait_for_position_change ::
  "double \<Rightarrow> string list list \<Rightarrow> position_feed \<Rightarrow> lighter_position_snapshot option \<times> position_feed" where
  "wait_for_position_change baseline_size batches f =
     (let (ok, f) = wait_for (position_changed baseline_size) positions_handle batches f
      in (if ok then pz_latest f else None, f))"

section \<open>The account feed\<close>

record account_feed =
  af_account_index :: i64
  af_market_index :: int
  af_auth_token :: string
  af_orders_by_client :: "i64 \<rightharpoonup> lighter_order_update"
  af_orders_by_index :: "i64 \<rightharpoonup> lighter_order_update"
  af_on_fill :: bool
  af_orders_subscribed :: bool
  af_trades_subscribed :: bool

datatype account_effect = SendAccount string | AccountFilled lighter_trade_fill

definition account_subscribe :: "account_feed \<Rightarrow> account_effect list" where
  "account_subscribe f =
     [SendAccount (''{\"type\":\"subscribe\",\"channel\":\"account_orders/'' @ int_string (af_market_index f) @ ''/''
        @ int_string (af_account_index f) @ ''\",\"auth\":\"'' @ af_auth_token f @ ''\"}''),
      SendAccount (''{\"type\":\"subscribe\",\"channel\":\"account_all_trades/'' @ int_string (af_account_index f)
        @ ''\",\"auth\":\"'' @ af_auth_token f @ ''\"}'')]"

definition order_seen :: "account_feed \<Rightarrow> lighter_order_update \<Rightarrow> account_feed" where
  "order_seen f u = f\<lparr>af_orders_by_client := (af_orders_by_client f)(lou_client_order_index u \<mapsto> u),
                      af_orders_by_index := (af_orders_by_index f)(lou_order_index u \<mapsto> u)\<rparr>"

definition account_flags :: "string \<Rightarrow> account_feed \<Rightarrow> account_feed" where
  "account_flags msg f =
     (let f = (if \<not> af_orders_subscribed f \<and> contains msg ''\"subscribed/account_orders\"''
               then f\<lparr>af_orders_subscribed := True\<rparr> else f)
      in if \<not> af_trades_subscribed f \<and> contains msg ''\"subscribed/account_all_trades\"''
         then f\<lparr>af_trades_subscribed := True\<rparr> else f)"

definition account_on_message ::
  "string \<Rightarrow> account_feed \<Rightarrow> string option \<times> account_effect list \<times> account_feed" where
  "account_on_message msg f =
     (if contains msg ''\"connected\"'' then (None, account_subscribe f, f)
      else if contains msg ''\"ping\"'' then (None, [SendAccount pong], f)
      else
        let f = account_flags msg f
        in case parse_lighter_order_updates msg (af_market_index f) of
             Inl e \<Rightarrow> (Some e, [], f)
           | Inr orders \<Rightarrow>
               (let f = foldl order_seen f orders
                in case parse_lighter_account_trades msg (af_account_index f) (af_market_index f) of
                     Inl e \<Rightarrow> (Some e, [], f)
                   | Inr fills \<Rightarrow> (None, if af_on_fill f then map AccountFilled fills else [], f)))"

definition account_on_disconnect :: "account_feed \<Rightarrow> account_effect list \<times> account_feed" where
  "account_on_disconnect f =
     (let f = f\<lparr>af_orders_subscribed := False, af_trades_subscribed := False\<rparr> in (account_subscribe f, f))"

definition account_handle :: "string \<Rightarrow> account_feed \<Rightarrow> account_feed" where
  "account_handle msg f = snd (snd (account_on_message msg f))"

record lighter_resting_order =
  lro_client_order_index :: i64
  lro_order_index :: i64
  lro_resting :: bool

definition is_resting :: "i64 \<Rightarrow> account_feed \<Rightarrow> bool" where
  "is_resting client f = (case af_orders_by_client f client of
     None \<Rightarrow> False
   | Some u \<Rightarrow> resting u \<and> 0 < lou_order_index u)"

definition wait_for_order_resting ::
  "i64 \<Rightarrow> string list list \<Rightarrow> account_feed \<Rightarrow> lighter_resting_order option \<times> account_feed" where
  "wait_for_order_resting client batches f =
     (let (ok, f) = wait_for (is_resting client) account_handle batches f
      in (if ok then case af_orders_by_client f client of
              None \<Rightarrow> None
            | Some u \<Rightarrow> Some \<lparr>lro_client_order_index = lou_client_order_index u,
                lro_order_index = lou_order_index u, lro_resting = True\<rparr>
          else None, f))"

definition is_cancelled :: "i64 \<Rightarrow> account_feed \<Rightarrow> bool" where
  "is_cancelled idx f = (case af_orders_by_index f idx of None \<Rightarrow> False | Some u \<Rightarrow> cancelled u)"

definition wait_for_cancel :: "i64 \<Rightarrow> string list list \<Rightarrow> account_feed \<Rightarrow> bool \<times> account_feed" where
  "wait_for_cancel idx batches f = wait_for (is_cancelled idx) account_handle batches f"

end
