(* ===== verification/Feeds_Safety.thy ===== *)
theory Feeds_Safety
  imports Feeds
begin

text \<open>
  What the feeds guarantee over any sequence of messages: where quotes, fills and
  confirmations come from, and when a wait cannot succeed.
\<close>

section \<open>Waiting\<close>

lemma handled_batch_invariant:
  assumes "P f" and "\<And>m f. m \<in> set ms \<Longrightarrow> P f \<Longrightarrow> P (h m f)"
  shows "P (handled_batch h ms f)"
  using assms by (induction ms arbitrary: f) auto

text \<open>What every handler keeps holds when the wait ends; and if it ends well, its condition holds.\<close>

lemma wait_for_invariant:
  assumes start: "P f" and step: "\<And>m f. m \<in> set (concat mss) \<Longrightarrow> P f \<Longrightarrow> P (h m f)"
  shows "P (snd (wait_for ready h mss f))"
proof -
  have "P (snd (wait_for ready h xs g))" if "P g" and "set xs \<subseteq> set mss" for xs g
    using that
  proof (induction xs arbitrary: g)
    case (Cons ms xs)
    have "P (handled_batch h ms g)"
      by (rule handled_batch_invariant [where P = P, OF Cons.prems(1)], rule step) (use Cons.prems(2) in auto)
    with Cons show ?case by simp
  qed simp
  from this [OF start] show ?thesis by simp
qed

lemma wait_for_ready: "wait_for ready h mss f = (True, f') \<Longrightarrow> ready f'"
  by (induction mss arbitrary: f) (auto split: if_splits)

lemma wait_for_not_ready:
  assumes "P f" and "\<And>m f. m \<in> set (concat mss) \<Longrightarrow> P f \<Longrightarrow> P (h m f)" and "\<And>f. P f \<Longrightarrow> \<not> ready f"
  shows "\<not> fst (wait_for ready h mss f)"
proof
  assume "fst (wait_for ready h mss f)"
  then have "ready (snd (wait_for ready h mss f))"
    using wait_for_ready [of ready h mss f] by (metis prod.collapse)
  moreover have "P (snd (wait_for ready h mss f))" by (rule wait_for_invariant) (use assms in auto)
  ultimately show False using assms(3) by blast
qed

section \<open>The position feed never confirms\<close>

definition account_update :: "string \<Rightarrow> bool" where
  "account_update msg \<longleftrightarrow> (\<exists>idx body. msg = positions_message idx body \<and> idx \<noteq> [] \<and>
     (\<forall>c \<in> set idx. is_digit c) \<and> \<not> contains (body @ ''}}'') positions_channel)"

lemma account_update_keeps_latest:
  assumes "contains msg ''\"ping\"'' \<or> account_update msg"
  shows "pz_latest (positions_handle msg f) = pz_latest f"
proof (cases "contains msg ''\"ping\"''")
  case True
  then show ?thesis by (simp add: positions_handle_def positions_on_message_def)
next
  case False
  with assms obtain idx body where "msg = positions_message idx body" and "idx \<noteq> []"
    and "\<forall>c \<in> set idx. is_digit c" and "\<not> contains (body @ ''}}'') positions_channel"
    by (auto simp: account_update_def)
  then have "parse_lighter_position_update msg m = Inr None" for m
    using position_updates_ignored_aux by simp
  then show ?thesis by (simp add: positions_handle_def positions_on_message_def Let_def)
qed

text \<open>C19: Whatever position updates of the documented form (and pings) arrive while it waits,
  \<open>wait_for_position_change\<close> of a feed that has no position yet times out: the confirmation of a
  Lighter hedge never comes from the feed, only from the account query after the timeout.\<close>

theorem position_wait_times_out:
  assumes "pz_latest f = None" and "\<forall>msg \<in> set (concat batches). contains msg ''\"ping\"'' \<or> account_update msg"
  shows "fst (wait_for_position_change baseline_size batches f) = None"
proof -
  have "\<not> fst (wait_for (position_changed baseline_size) positions_handle batches f)"
    by (rule wait_for_not_ready [where P = "\<lambda>f. pz_latest f = None"])
      (use assms account_update_keeps_latest in \<open>auto simp: position_changed_def\<close>)
  then show ?thesis by (simp add: wait_for_position_change_def split_beta)
qed

definition demo_positions :: position_feed where
  "demo_positions = \<lparr>pz_account_index = 7, pz_market_index = 24, pz_auth_token = ''t'', pz_latest = None,
     pz_version = 0, pz_subscribed = True\<rparr>"

theorem position_wait_times_out_witness:
  "fst (wait_for_position_change 0
     [[positions_message ''7'' ''\"24\":{\"sign\":-1,\"position\":\"2.5\"}'', ''{\"type\":\"ping\"}''], []]
     demo_positions) = None"
proof (rule position_wait_times_out)
  have "account_update (positions_message ''7'' ''\"24\":{\"sign\":-1,\"position\":\"2.5\"}'')"
    unfolding account_update_def
    by (rule exI [of _ "''7''"], rule exI [of _ "''\"24\":{\"sign\":-1,\"position\":\"2.5\"}''"])
      (simp add: is_digit_def digit_value_def contains_def find_from_zero positions_channel_def)
  then show "\<forall>msg \<in> set (concat [[positions_message ''7'' ''\"24\":{\"sign\":-1,\"position\":\"2.5\"}'',
      ''{\"type\":\"ping\"}''], []]). contains msg ''\"ping\"'' \<or> account_update msg"
    by (simp add: contains_def find_from_zero)
qed (simp add: demo_positions_def)

section \<open>Confirmations of the account feed\<close>

text \<open>The order updates that a message reports to a feed.\<close>

definition reported :: "int \<Rightarrow> string \<Rightarrow> lighter_order_update set" where
  "reported market msg =
     (if contains msg ''\"connected\"'' \<or> contains msg ''\"ping\"'' then {}
      else case parse_lighter_order_updates msg market of Inl _ \<Rightarrow> {} | Inr us \<Rightarrow> set us)"

definition known_from :: "lighter_order_update set \<Rightarrow> account_feed \<Rightarrow> bool" where
  "known_from U f \<longleftrightarrow>
     (\<forall>c u. af_orders_by_client f c = Some u \<longrightarrow> u \<in> U \<and> lou_client_order_index u = c) \<and>
     (\<forall>i u. af_orders_by_index f i = Some u \<longrightarrow> u \<in> U \<and> lou_order_index u = i)"

lemma known_from_mono: "known_from U f \<Longrightarrow> U \<subseteq> V \<Longrightarrow> known_from V f"
  by (auto simp: known_from_def)

lemma orders_seen_known: "known_from U f \<Longrightarrow> set us \<subseteq> U \<Longrightarrow> known_from U (foldl order_seen f us)"
proof (induction us arbitrary: f)
  case (Cons u us)
  from Cons.prems have "known_from U (order_seen f u)"
    unfolding known_from_def order_seen_def by (simp split: if_split)
  with Cons show ?case by simp
qed simp

lemma account_flags_same [simp]:
  "af_orders_by_client (account_flags msg f) = af_orders_by_client f"
  "af_orders_by_index (account_flags msg f) = af_orders_by_index f"
  "af_market_index (account_flags msg f) = af_market_index f"
  "af_account_index (account_flags msg f) = af_account_index f"
  by (simp_all add: account_flags_def Let_def)

lemma orders_seen_market [simp]: "af_market_index (foldl order_seen f us) = af_market_index f"
  by (induction us arbitrary: f) (auto simp: order_seen_def)

lemma account_handle_market [simp]: "af_market_index (account_handle msg f) = af_market_index f"
  by (auto simp: account_handle_def account_on_message_def Let_def split: sum.splits)

lemma account_handle_known:
  assumes "known_from U f" and "reported (af_market_index f) msg \<subseteq> U"
  shows "known_from U (account_handle msg f)"
proof -
  have flags: "known_from U (account_flags msg f)" using assms(1) by (simp add: known_from_def)
  show ?thesis
  proof (cases "contains msg ''\"connected\"'' \<or> contains msg ''\"ping\"''")
    case True
    with assms(1) show ?thesis by (auto simp: account_handle_def account_on_message_def)
  next
    case False
    then show ?thesis
      using flags assms(2) orders_seen_known [OF flags]
      by (simp add: account_handle_def account_on_message_def Let_def reported_def split: sum.splits) blast
  qed
qed

lemma account_wait_known:
  assumes "known_from U f" and "\<forall>msg \<in> set (concat batches). reported (af_market_index f) msg \<subseteq> U"
  shows "known_from U (snd (wait_for ready account_handle batches f))"
proof -
  have "known_from U g \<and> af_market_index g = af_market_index f"
    if "g = snd (wait_for ready account_handle batches f)" for g
    unfolding that
    by (rule wait_for_invariant [where P = "\<lambda>g. known_from U g \<and> af_market_index g = af_market_index f"])
      (use assms account_handle_known in auto)
  then show ?thesis by blast
qed

text \<open>A resting order is confirmed only from the venue's words: when \<open>wait_for_order_resting\<close>
  succeeds, some message handled so far reported an order with this client index, open or in
  progress, with the positive order index that is returned.\<close>

theorem resting_confirmation_reported:
  assumes "known_from (\<Union>msg \<in> set before. reported (af_market_index f) msg) f"
    and "wait_for_order_resting client batches f = (Some r, f')"
  shows "\<exists>msg \<in> set before \<union> set (concat batches). \<exists>u \<in> reported (af_market_index f) msg.
    lou_client_order_index u = client \<and> resting u \<and> lou_order_index u = lro_order_index r
    \<and> 0 < lro_order_index r \<and> lro_client_order_index r = client \<and> lro_resting r"
proof -
  let ?M = "set before \<union> set (concat batches)"
  let ?U = "\<Union>msg \<in> ?M. reported (af_market_index f) msg"
  obtain ok g where w: "wait_for (is_resting client) account_handle batches f = (ok, g)" by fastforce
  have "known_from ?U f" using assms(1) by (rule known_from_mono) auto
  then have k: "known_from ?U g" using account_wait_known [of ?U f batches "is_resting client"] w by auto
  from assms(2) w have ok: ok by (auto simp: wait_for_order_resting_def split: if_splits)
  with w have "is_resting client g" using wait_for_ready by metis
  then obtain u where u: "af_orders_by_client g client = Some u" "resting u" "0 < lou_order_index u"
    by (auto simp: is_resting_def split: option.splits)
  with k have "u \<in> ?U" "lou_client_order_index u = client" by (auto simp: known_from_def)
  moreover have "lro_order_index r = lou_order_index u" "lro_client_order_index r = client" "lro_resting r"
    using assms(2) w ok u(1) calculation(2) by (auto simp: wait_for_order_resting_def)
  ultimately show ?thesis using u by auto
qed

text \<open>A cancel is confirmed only when some message handled so far reported the order as
  cancelled.\<close>

theorem cancel_confirmation_reported:
  assumes "known_from (\<Union>msg \<in> set before. reported (af_market_index f) msg) f"
    and "wait_for_cancel idx batches f = (True, f')"
  shows "\<exists>msg \<in> set before \<union> set (concat batches). \<exists>u \<in> reported (af_market_index f) msg.
    lou_order_index u = idx \<and> cancelled u"
proof -
  let ?U = "\<Union>msg \<in> set before \<union> set (concat batches). reported (af_market_index f) msg"
  have "known_from ?U f" using assms(1) by (rule known_from_mono) auto
  then have k: "known_from ?U f'"
    using account_wait_known [of ?U f batches "is_cancelled idx"] assms(2) by (auto simp: wait_for_cancel_def)
  have "is_cancelled idx f'" using assms(2) wait_for_ready by (metis wait_for_cancel_def)
  then obtain u where "af_orders_by_index f' idx = Some u" "cancelled u"
    by (auto simp: is_cancelled_def split: option.splits)
  moreover from this k have "u \<in> ?U" "lou_order_index u = idx" by (auto simp: known_from_def)
  ultimately show ?thesis by blast
qed

text \<open>A feed and two messages for which the confirmations come.\<close>

definition demo_account :: account_feed where
  "demo_account = \<lparr>af_account_index = 7, af_market_index = 24, af_auth_token = ''t'',
     af_orders_by_client = Map.empty, af_orders_by_index = Map.empty, af_on_fill = True,
     af_orders_subscribed = True, af_trades_subscribed = True\<rparr>"

definition demo_order_fields :: "string \<Rightarrow> string" where
  "demo_order_fields status =
     ''\"order_index\":9,\"client_order_index\":5,\"is_ask\":true,\"price\":\"21.5\",\"status\":\"'' @ status @ ''\"}]}}''"

definition demo_order :: "string \<Rightarrow> string" where
  "demo_order status = ''{\"channel\":\"account_orders:7\",\"orders\":{\"24\":[{'' @ demo_order_fields status"

definition demo_update :: "string \<Rightarrow> lighter_order_update" where
  "demo_update status = \<lparr>lou_order_index = 9, lou_client_order_index = 5, lou_is_ask = True,
     lou_price = Fin (43 / 2), lou_remaining_base_amount = 0, lou_filled_base_amount = 0, lou_status = status\<rparr>"

lemma demo_order_parsed:
  assumes "status = ''open'' \<or> status = ''canceled''"
  shows "parse_lighter_order_updates (demo_order status) 24 = Inr [demo_update status]"
proof -
  let ?m = "demo_order status" and ?s = "demo_order_fields status"
  have key: "int_string 24 = ''24''" by code_simp
  have c: "contains ?m ''account_orders:''" "contains ?m ''\"orders\"''" "find_from ?m ''\"24\":['' 0 = Some 40"
    by (simp_all add: contains_def find_from_zero demo_order_def)
  have i: "find_from ?m ''\"order_index\"'' 40 = Some 47" "find_from ?m ''\"order_index\"'' 48 = None"
    "find_from ?m ''\"24\":['' 48 = None" "substr ?m 47 1024 = ?s"
    using assms by (auto simp: find_from_def substr_def demo_order_def demo_order_fields_def)
  note rx = rx_quoted_def rx_digits_def rx_bool_def key_lit_def lit_class_def lit_bool_def is_digit_def
    digit_value_def demo_order_fields_def
  have f: "rx_digits ''order_index'' ?s = Some ''9''" "rx_digits ''client_order_index'' ?s = Some ''5''"
    "rx_bool ''is_ask'' ?s = Some ''true''" "rx_quoted ''price'' ?s = Some ''21.5''"
    by (simp_all add: rx)
  have g: "rx_quoted ''remaining_base_amount'' ?s = None" "rx_quoted ''filled_base_amount'' ?s = None"
    "rx_quoted ''status'' ?s = Some status"
    using assms by (auto simp: rx)
  have n: "stod ''21.5'' = Inr (Fin (43 / 2))" "stoll ''9'' = Inr 9" "stoll ''5'' = Inr 5"
    by (simp_all add: stod_eval stoll_def signed_in_def parse_dec_def is_digit_def dec_number_def)
  have "order_at ?m 24 40 = Inr (Some (demo_update status, 48))"
    using i f g n by (simp add: order_at_def key order_fields_def field_or_def then_try_def demo_update_def)
  moreover have "order_at ?m 24 48 = Inr None" using i by (simp add: order_at_def)
  ultimately show ?thesis
    by (simp add: parse_lighter_order_updates_def key c orders_from.simps [of _ _ 40]
        orders_from.simps [of _ _ 48] then_try_def)
qed

lemma demo_order_handled:
  assumes "status = ''open'' \<or> status = ''canceled''"
  shows "account_handle (demo_order status) demo_account = order_seen demo_account (demo_update status)"
    and "reported 24 (demo_order status) = {demo_update status}"
proof -
  have c: "\<not> contains (demo_order status) ''\"connected\"''" "\<not> contains (demo_order status) ''\"ping\"''"
    "\<not> contains (demo_order status) ''account_all_trades:''"
    using assms by (auto simp: contains_def find_from_zero demo_order_def demo_order_fields_def)
  have "af_market_index demo_account = 24" "account_flags (demo_order status) demo_account = demo_account"
    by (simp_all add: demo_account_def account_flags_def)
  with c demo_order_parsed [OF assms]
  show "account_handle (demo_order status) demo_account = order_seen demo_account (demo_update status)"
    and "reported 24 (demo_order status) = {demo_update status}"
    by (simp_all add: account_handle_def account_on_message_def parse_lighter_account_trades_def reported_def Let_def)
qed

lemma demo_feed:
  "\<not> is_resting 5 demo_account" "is_resting 5 (order_seen demo_account (demo_update ''open''))"
  "\<not> is_cancelled 9 demo_account" "is_cancelled 9 (order_seen demo_account (demo_update ''canceled''))"
  "af_orders_by_client (order_seen demo_account (demo_update status)) 5 = Some (demo_update status)"
  by (simp_all add: is_resting_def is_cancelled_def demo_account_def order_seen_def demo_update_def
      resting_def cancelled_def)

theorem resting_confirmation_reported_witness:
  "\<exists>r f'. wait_for_order_resting 5 [[demo_order ''open'']] demo_account = (Some r, f') \<and> lro_order_index r = 9 \<and>
     (\<exists>msg \<in> set [demo_order ''open'']. \<exists>u \<in> reported 24 msg. resting u)"
proof -
  let ?r = "\<lparr>lro_client_order_index = 5, lro_order_index = 9, lro_resting = True\<rparr>"
  have k: "known_from (\<Union>msg \<in> set []. reported (af_market_index demo_account) msg) demo_account"
    by (simp add: known_from_def demo_account_def)
  have w: "wait_for_order_resting 5 [[demo_order ''open'']] demo_account
      = (Some ?r, order_seen demo_account (demo_update ''open''))"
    by (simp add: wait_for_order_resting_def demo_order_handled demo_feed) (simp add: demo_update_def)
  from resting_confirmation_reported [OF k w] w show ?thesis
    by (auto simp: demo_account_def)
qed

theorem cancel_confirmation_reported_witness:
  "\<exists>msg \<in> set [demo_order ''canceled'']. \<exists>u \<in> reported 24 msg. lou_order_index u = 9 \<and> cancelled u"
proof -
  have k: "known_from (\<Union>msg \<in> set []. reported (af_market_index demo_account) msg) demo_account"
    by (simp add: known_from_def demo_account_def)
  have w: "wait_for_cancel 9 [[demo_order ''canceled'']] demo_account
      = (True, order_seen demo_account (demo_update ''canceled''))"
    by (simp add: wait_for_cancel_def demo_order_handled demo_feed)
  from cancel_confirmation_reported [OF k w] show ?thesis by (simp add: demo_account_def)
qed

section \<open>Fills of a session\<close>

datatype fill_input = FillMessage string | FillsDown string

fun fills_run :: "fill_input list \<Rightarrow> hl_fill_feed \<Rightarrow> fill_effect list \<times> hl_fill_feed" where
  "fills_run [] f = ([], f)"
| "fills_run (i # is) f =
     (let (es, f) = (case i of FillMessage msg \<Rightarrow> fills_on_message msg f
                             | FillsDown reason \<Rightarrow> fills_on_disconnect reason f);
          (es', f) = fills_run is f
      in (es @ es', f))"

lemma fills_run_append:
  "fills_run (xs @ ys) f = (fst (fills_run xs f) @ fst (fills_run ys (snd (fills_run xs f))),
     snd (fills_run ys (snd (fills_run xs f))))"
  by (induction xs arbitrary: f) (auto simp: Let_def split_beta)

lemma before_acknowledgement:
  "\<forall>m \<in> set ms. \<not> contains m ''subscriptionResponse'' \<Longrightarrow> \<not> hf_subscribed f \<Longrightarrow>
   fills_run (map FillMessage ms) f = ([], f)"
  by (induction ms) (auto simp: fills_on_message_def Let_def)

lemma subscribed_fills:
  assumes "\<forall>fs \<in> set fss. \<forall>x \<in> set fs. fill_text_ok x" and "CHR 0x22 \<notin> set user" and "user \<noteq> ''fills''"
    and "hf_subscribed f"
  shows "fills_run (map (\<lambda>fs. FillMessage (fills_message user fs)) fss) f
    = (map (report \<circ> fill_meant) (concat fss), f)"
  using assms(1)
proof (induction fss)
  case (Cons fs fss)
  then have "parse_hl_fill (fills_message user fs) = map fill_meant fs"
    using assms(2,3) by (intro parse_fills_message) auto
  then show ?case using Cons assms(4) by (simp add: fills_on_message_def Let_def)
qed simp

text \<open>C20: From the acknowledgement of its subscription until the connection is lost the fill feed
  reports every fill of every documented \<open>userFills\<close> message exactly once and in order, with
  its coin, price, size, side, order id and fee; what came before the acknowledgement is not
  reported; a loss reports itself, asks for a new subscription, and starts over.\<close>

theorem session_fills_delivered:
  assumes "\<forall>m \<in> set early. \<not> contains m ''subscriptionResponse''" and "contains ack ''subscriptionResponse''"
    and "\<forall>fs \<in> set fss. \<forall>x \<in> set fs. fill_text_ok x" and "CHR 0x22 \<notin> set user" and "user \<noteq> ''fills''"
    and "\<not> hf_subscribed f"
  shows "fills_run (map FillMessage early @ FillMessage ack
      # map (\<lambda>fs. FillMessage (fills_message user fs)) fss @ [FillsDown reason]) f
    = (map (report \<circ> fill_meant) (concat fss) @ fills_subscribe f @ [FeedDown reason], f)"
proof -
  let ?f = "f\<lparr>hf_subscribed := True\<rparr>"
  have "fills_on_message ack f = ([], ?f)" using assms(2,6) by (simp add: fills_on_message_def)
  moreover have "fills_run (map (\<lambda>fs. FillMessage (fills_message user fs)) fss) ?f
      = (map (report \<circ> fill_meant) (concat fss), ?f)"
    by (rule subscribed_fills [OF assms(3-5)]) simp
  moreover have "fills_on_disconnect reason ?f = (fills_subscribe f @ [FeedDown reason], f)"
    using assms(6) by (cases f) (simp add: fills_on_disconnect_def fills_subscribe_def)
  ultimately show ?thesis
    using before_acknowledgement [OF assms(1,6)] by (simp add: fills_run_append)
qed

theorem session_fills_delivered_witness:
  "fst (fills_run [FillMessage ''{\"channel\":\"subscriptionResponse\"}'',
       FillMessage (fills_message ''0xab'' demo_fills), FillsDown ''eof'']
     \<lparr>hf_user_address = ''0xab'', hf_subscribed = False\<rparr>)
   = map (report \<circ> fill_meant) demo_fills
     @ fills_subscribe \<lparr>hf_user_address = ''0xab'', hf_subscribed = False\<rparr> @ [FeedDown ''eof'']"
proof -
  have "contains ''{\"channel\":\"subscriptionResponse\"}'' ''subscriptionResponse''"
    by (simp add: contains_def find_from_zero)
  with session_fills_delivered [of "[]" "''{\"channel\":\"subscriptionResponse\"}''" "[demo_fills]" "''0xab''"
      "\<lparr>hf_user_address = ''0xab'', hf_subscribed = False\<rparr>" "''eof''"] demo_fills_ok
  show ?thesis by simp
qed

section \<open>Where quotes come from\<close>

text \<open>What happens to a market feed: messages of the two venues, each with its clock, and losses of connection.\<close>

datatype market_input =
    HlMessage "nat \<Rightarrow> u64" string
  | LighterMessage "nat \<Rightarrow> u64" string
  | HlDown
  | LighterDown

fun market_step :: "market_input \<Rightarrow> market_feed \<times> perf_collector \<Rightarrow> market_feed \<times> perf_collector" where
  "market_step (HlMessage clock msg) (f, p) = snd (on_hl_message clock msg f p)"
| "market_step (LighterMessage clock msg) (f, p) = snd (on_lighter_message clock msg f p)"
| "market_step HlDown (f, p) = (snd (on_hl_disconnect f), p)"
| "market_step LighterDown (f, p) = (snd (on_lighter_disconnect f), p)"

definition market_run :: "market_input list \<Rightarrow> market_feed \<times> perf_collector \<Rightarrow> market_feed \<times> perf_collector" where
  "market_run ins s = foldl (\<lambda>s i. market_step i s) s ins"

definition hl_quoted :: "market_input \<Rightarrow> atomic_bbo \<Rightarrow> bool" where
  "hl_quoted i q \<longleftrightarrow> (\<exists>clock msg. i = HlMessage clock msg \<and> parse_hl_bbo msg = Some (ab_bid q, ab_ask q)
     \<and> ab_last_update q = uint (clock 1))"

definition lighter_quoted :: "market_input \<Rightarrow> atomic_bbo \<Rightarrow> bool" where
  "lighter_quoted i q \<longleftrightarrow> (\<exists>clock msg. i = LighterMessage clock msg
     \<and> parse_lighter_ticker msg = Some (ab_bid q, ab_ask q) \<and> ab_last_update q = uint (clock 1))"

definition quotes_from :: "market_input list \<Rightarrow> market_feed \<Rightarrow> bool" where
  "quotes_from ins f \<longleftrightarrow>
     (mf_hl_bbo f = empty_bbo \<or> (\<exists>i \<in> set ins. hl_quoted i (mf_hl_bbo f))) \<and>
     (mf_lighter_bbo f = empty_bbo \<or> (\<exists>i \<in> set ins. lighter_quoted i (mf_lighter_bbo f)))"

lemma hl_acknowledged_quotes [simp]:
  "mf_hl_bbo (hl_acknowledged msg f) = mf_hl_bbo f" "mf_lighter_bbo (hl_acknowledged msg f) = mf_lighter_bbo f"
  by (simp_all add: hl_acknowledged_def Let_def)

lemma market_step_quotes:
  assumes "quotes_from ins f"
  shows "quotes_from (ins @ [i]) (fst (market_step i (f, p)))"
proof -
  have hl: "mf_hl_bbo (fst (market_step i (f, p))) = mf_hl_bbo f \<or> hl_quoted i (mf_hl_bbo (fst (market_step i (f, p))))"
    by (cases i) (auto simp: on_hl_message_def on_lighter_message_def on_hl_disconnect_def
        on_lighter_disconnect_def Let_def hl_quoted_def bbo_store_def split: option.splits)
  have lt: "mf_lighter_bbo (fst (market_step i (f, p))) = mf_lighter_bbo f
      \<or> lighter_quoted i (mf_lighter_bbo (fst (market_step i (f, p))))"
    by (cases i) (auto simp: on_hl_message_def on_lighter_message_def on_hl_disconnect_def
        on_lighter_disconnect_def Let_def lighter_quoted_def bbo_store_def split: option.splits)
  show ?thesis using assms hl lt unfolding quotes_from_def by auto
qed

lemma market_run_quotes:
  assumes "mf_hl_bbo f = empty_bbo" and "mf_lighter_bbo f = empty_bbo"
  shows "quotes_from ins (fst (market_run ins (f, p)))"
proof (induction ins rule: rev_induct)
  case Nil
  then show ?case using assms by (simp add: market_run_def quotes_from_def)
next
  case (snoc i ins)
  then show ?case
    using market_step_quotes [of ins "fst (market_run ins (f, p))" i "snd (market_run ins (f, p))"]
    by (simp add: market_run_def)
qed

lemma ns_to_ms_le: "0 \<le> m \<Longrightarrow> ns_to_ms d \<le> m \<Longrightarrow> d < (m + 1) * 1000000"
  by (simp add: ns_to_ms_def split: if_splits)

text \<open>C21: A snapshot that passes as valid consists of quotes of both venues' messages, each
  received at most the allowed age (in whole milliseconds) before it was read; without a quote
  of one venue there is no valid snapshot.\<close>

theorem valid_snapshot_is_fresh:
  assumes "(f, p') = market_run ins (market_feed_new coin market up tr, p)"
    and "snapshot_valid (feed_snapshot now_hl now_lighter f) max_age" and "0 \<le> max_age" and "max_age < 999999"
  shows "\<exists>i \<in> set ins. \<exists>j \<in> set ins. hl_quoted i (mf_hl_bbo f) \<and> lighter_quoted j (mf_lighter_bbo f)
    \<and> now_hl - ab_last_update (mf_hl_bbo f) < (max_age + 1) * 1000000
    \<and> now_lighter - ab_last_update (mf_lighter_bbo f) < (max_age + 1) * 1000000"
proof -
  have q: "quotes_from ins f"
    using market_run_quotes [of "market_feed_new coin market up tr" ins p] assms(1)
    by (metis fst_conv market_feed.simps(3,4) market_feed_new_def)
  have ages: "quote_age_ms (bbo_load now_hl (mf_hl_bbo f)) \<le> max_age"
    "quote_age_ms (bbo_load now_lighter (mf_lighter_bbo f)) \<le> max_age"
    using assms(2) by (simp_all add: snapshot_valid_def feed_snapshot_def Let_def)
  then have ne: "mf_hl_bbo f \<noteq> empty_bbo" "mf_lighter_bbo f \<noteq> empty_bbo"
    using assms(4) by (auto simp: bbo_load_def empty_bbo_def)
  have "ns_to_ms (now_hl - ab_last_update (mf_hl_bbo f)) \<le> max_age"
    "ns_to_ms (now_lighter - ab_last_update (mf_lighter_bbo f)) \<le> max_age"
    using ages assms(4) by (simp_all add: bbo_load_def split: if_splits)
  from ns_to_ms_le [OF assms(3) this(1)] ns_to_ms_le [OF assms(3) this(2)] q ne show ?thesis unfolding quotes_from_def by blast
qed

theorem valid_snapshot_is_fresh_witness:
  "\<exists>ins f. f = fst (market_run ins (market_feed_new ''HYPE'' 24 True True, empty_collector))
     \<and> snapshot_valid (feed_snapshot 6000000 6000000 f) 3000 \<and> (\<exists>i \<in> set ins. hl_quoted i (mf_hl_bbo f))"
proof -
  let ?h = "bbo_message ''HYPE'' ''123'' ''21.5'' ''10'' ''3'' ''22'' ''\"sz\":\"5\",\"n\":2}]}}''"
  let ?l = "''{\"channel\":\"ticker:24\",\"ticker\":{\"a\":{\"price\":\"22\",\"size\":\"1\"},\"b\":{\"price\":\"21.5\",\"size\":\"1\"}}}''"
  let ?ins = "[HlMessage (\<lambda>n. of_nat n + 1000000) ?h, LighterMessage (\<lambda>n. of_nat n + 2000000) ?l]"
  let ?s = "market_run ?ins (market_feed_new ''HYPE'' 24 True True, empty_collector)"
  let ?f = "fst ?s"
  have n: "stod_opt ''21.5'' = Some (Fin (43 / 2))" "stod_opt ''22'' = Some (Fin 22)"
    "(0 :: double) < Fin (43 / 2)" "(0 :: double) < Fin 22"
    by (simp_all add: stod_opt_def stod_eval)
  have h: "parse_hl_bbo ?h = Some (Fin (43 / 2), Fin 22)"
    by (simp add: parse_hl_bbo_def quoted_def find_from_def substr_def bbo_message_def n)
  have l: "parse_lighter_ticker ?l = Some (Fin (43 / 2), Fin 22)"
    by (simp add: parse_lighter_ticker_def quoted_def find_from_def substr_def n)
  have c: "contains ?h ''\"bbo\"''" "\<not> contains ?h ''subscriptionResponse''"
    by (simp_all add: contains_def find_from_zero bbo_message_def)
  have d: "\<not> contains ?l ''\"connected\"''" "\<not> contains ?l ''\"ping\"''" "contains ?l ''\"ticker\"''"
    by (simp_all add: contains_def find_from_zero)
  have f: "mf_hl_bbo ?f = \<lparr>ab_bid = Fin (43 / 2), ab_ask = Fin 22, ab_last_update = 1000001\<rparr>"
    "mf_lighter_bbo ?f = \<lparr>ab_bid = Fin (43 / 2), ab_ask = Fin 22, ab_last_update = 2000001\<rparr>"
    using c d h l by (simp_all add: market_run_def on_hl_message_def on_lighter_message_def hl_acknowledged_def
        market_feed_new_def bbo_store_def empty_bbo_def Let_def)
  have "snapshot_valid (feed_snapshot 6000000 6000000 ?f) 3000"
    by (simp add: snapshot_valid_def feed_snapshot_def f bbo_load_def ns_to_ms_def mid_def double_eval Let_def)
  moreover from this valid_snapshot_is_fresh [of ?f "snd ?s" ?ins "''HYPE''" 24 True True empty_collector 6000000 6000000 3000]
  have "\<exists>i \<in> set ?ins. hl_quoted i (mf_hl_bbo ?f)" by auto
  ultimately show ?thesis by blast
qed

end
