(* ===== verification/Methods.thy ===== *)
theory Methods
  imports Main
begin

text \<open>
  Methods that change a world and may throw: a method is a function of the world that gives an
  exception (its \<open>what()\<close>) or a result, and the world after it.  An exception skips the rest.
\<close>

type_synonym ('w, 'a) fallible = "'w \<Rightarrow> (string + 'a) \<times> 'w"

definition returns :: "'a \<Rightarrow> ('w, 'a) fallible" where
  "returns x w = (Inr x, w)"

definition throws :: "string \<Rightarrow> ('w, 'a) fallible" where
  "throws e w = (Inl e, w)"

definition after :: "('w, 'a) fallible \<Rightarrow> ('a \<Rightarrow> ('w, 'b) fallible) \<Rightarrow> ('w, 'b) fallible" where
  "after m k w = (case m w of (Inl e, w) \<Rightarrow> (Inl e, w) | (Inr x, w) \<Rightarrow> k x w)"

definition or_throw :: "(string + 'a) \<Rightarrow> ('w, 'a) fallible" where
  "or_throw r = (case r of Inl e \<Rightarrow> throws e | Inr x \<Rightarrow> returns x)"

text \<open>\<open>gives P m\<close>: whatever the world, a result of \<open>m\<close> (not an exception) satisfies \<open>P\<close>.\<close>

definition gives :: "('a \<Rightarrow> bool) \<Rightarrow> ('w, 'a) fallible \<Rightarrow> bool" where
  "gives P m \<longleftrightarrow> (\<forall>w x w'. m w = (Inr x, w') \<longrightarrow> P x)"

named_theorems gives_intro

lemma givesD: "gives P m \<Longrightarrow> m w = (Inr x, w') \<Longrightarrow> P x"
  by (auto simp: gives_def)

lemma gives_returns [gives_intro]: "P x \<Longrightarrow> gives P (returns x)"
  by (simp add: gives_def returns_def)

lemma gives_after: "(\<And>x w w'. m w = (Inr x, w') \<Longrightarrow> gives P (k x)) \<Longrightarrow> gives P (after m k)"
  by (auto simp: gives_def after_def split: prod.splits sum.splits)

lemma gives_after_any [gives_intro]: "(\<And>x. gives P (k x)) \<Longrightarrow> gives P (after m k)"
  by (rule gives_after)

lemma gives_if [gives_intro]: "(b \<Longrightarrow> gives P m) \<Longrightarrow> (\<not> b \<Longrightarrow> gives P m') \<Longrightarrow> gives P (if b then m else m')"
  by simp

lemma gives_option: "(r = None \<Longrightarrow> gives P m) \<Longrightarrow> (\<And>x. r = Some x \<Longrightarrow> gives P (k x)) \<Longrightarrow>
    gives P (case r of None \<Rightarrow> m | Some x \<Rightarrow> k x)"
  by (cases r) simp_all

text \<open>To follow a run from world to world: \<open>yields Q m w\<close>, a result of \<open>m\<close> in the world \<open>w\<close> satisfies \<open>Q\<close>
  with the world after it.\<close>

definition yields :: "('a \<Rightarrow> 'w \<Rightarrow> bool) \<Rightarrow> ('w, 'a) fallible \<Rightarrow> 'w \<Rightarrow> bool" where
  "yields Q m w \<longleftrightarrow> (\<forall>x w'. m w = (Inr x, w') \<longrightarrow> Q x w')"

lemma yieldsD: "yields Q m w \<Longrightarrow> m w = (Inr x, w') \<Longrightarrow> Q x w'"
  by (simp add: yields_def)

lemma yields_after: "(\<And>x w'. m w = (Inr x, w') \<Longrightarrow> yields Q (k x) w') \<Longrightarrow> yields Q (after m k) w"
  by (auto simp: yields_def after_def split: prod.splits sum.splits)

lemma yields_returns: "Q x w \<Longrightarrow> yields Q (returns x) w"
  by (simp add: yields_def returns_def)

lemma yields_if: "(b \<Longrightarrow> yields Q m w) \<Longrightarrow> (\<not> b \<Longrightarrow> yields Q m' w) \<Longrightarrow> yields Q (if b then m else m') w"
  by simp

end
