(* ===== verification/Native_Common.thy ===== *)
theory Native_Common
  imports Text Methods
begin

text \<open>What both classes of \<open>src/native_trading.cpp\<close> use: reading one field of an answer, and \<open>std::pow\<close>
  of ten by an integer (the result rounded correctly, as glibc's is for every power that is exact).\<close>

definition first_match_as_double :: "string option \<Rightarrow> string + double" where
  "first_match_as_double m = (case m of None \<Rightarrow> Inl ''failed to parse numeric field'' | Some t \<Rightarrow> stod t)"

definition first_match_as_string :: "string option \<Rightarrow> string + string" where
  "first_match_as_string m = (case m of None \<Rightarrow> Inl ''failed to parse string field'' | Some t \<Rightarrow> Inr t)"

definition pow10 :: "int \<Rightarrow> double" where
  "pow10 n = rnd (10 powi n)"

end
