(* ===== verification/Native_Lighter.thy ===== *)
theory Native_Lighter
  imports Engine_Hl Feeds Native_Common
begin

text \<open>
  \<open>NativeLighterTrading\<close> of \<open>src/native_trading.cpp\<close>: the orders of the Lighter exchange, signed by a
  signer library that is loaded at run time, sent over the websocket transport or HTTP, and
  confirmed by the feeds.  What is outside the class (the signer, HTTP, the transport, the
  waiters, the clocks) answers as it likes, given all calls so far; every call is logged.  A
  method is a function of the world that returns its result, or the message of the exception
  it throws, and the world.
\<close>

section \<open>The class and its surroundings\<close>

record lighter_config =
  lc_api_url :: string
  lc_api_private_key :: string
  lc_account_index :: i64
  lc_api_key_index :: int
  lc_market_index :: i64

record native_lighter =
  nl_config :: lighter_config
  nl_tx_transport :: bool          \<comment> \<open>whether each function is set\<close>
  nl_position_waiter :: bool
  nl_order_waiter :: bool
  nl_cancel_waiter :: bool
  nl_signer_loaded :: bool
  nl_client_ready :: bool
  nl_price_decimals :: int
  nl_size_decimals :: int
  nl_min_base_amount :: double
  nl_nonce_cache :: u64

record signed_tx =
  st_tx_type :: u8
  st_tx_info :: string
  st_tx_hash :: string
  st_err :: string

text \<open>The signer's functions take their arguments by position.\<close>

datatype lighter_call =
    ClockRead
  | LoadSigner
  | CreateClient string string int int i64
  | CreateAuthToken i64 int i64
  | SignCreate "int list"
  | SignCancel "int list"
  | HttpGet string
  | HttpPost string string
  | SendTx u8 string
  | WaitPosition double int
  | WaitOrder i64 int
  | WaitCancel i64 int

record lighter_env =
  le_load_signer :: "lighter_call list \<Rightarrow> string option"
  le_create_client :: "lighter_call list \<Rightarrow> string"
  le_auth_token :: "lighter_call list \<Rightarrow> string \<times> string"
  le_sign :: "lighter_call list \<Rightarrow> signed_tx"
  le_http :: "lighter_call list \<Rightarrow> string + string"
  le_send_tx :: "lighter_call list \<Rightarrow> string"
  le_wait_position :: "lighter_call list \<Rightarrow> lighter_position_snapshot option"
  le_wait_order :: "lighter_call list \<Rightarrow> lighter_resting_order option"
  le_wait_cancel :: "lighter_call list \<Rightarrow> bool"
  le_epoch_ms :: "lighter_call list \<Rightarrow> u64"
  le_perf_ns :: "lighter_call list \<Rightarrow> u64"

record lighter_world =
  lw_native :: native_lighter
  lw_calls :: "lighter_call list"     \<comment> \<open>oldest first\<close>
  lw_perf :: perf_collector

type_synonym 'a lighter_method = "(lighter_world, 'a) fallible"

definition calls :: "lighter_call \<Rightarrow> (lighter_call list \<Rightarrow> 'a) \<Rightarrow> 'a lighter_method" where
  "calls c answer w = (let cs = lw_calls w @ [c] in (Inr (answer cs), w\<lparr>lw_calls := cs\<rparr>))"

definition reads :: "(lighter_call list \<Rightarrow> u64) \<Rightarrow> u64 lighter_method" where
  "reads clock = calls ClockRead clock"

definition native :: "native_lighter lighter_method" where
  "native w = (Inr (lw_native w), w)"

definition set_native :: "(native_lighter \<Rightarrow> native_lighter) \<Rightarrow> unit lighter_method" where
  "set_native f w = (Inr (), w\<lparr>lw_native := f (lw_native w)\<rparr>)"

definition records :: "perf_metric \<Rightarrow> u64 \<Rightarrow> unit lighter_method" where
  "records metric value w = (Inr (), w\<lparr>lw_perf := record_trade_path metric value (lw_perf w)\<rparr>)"

definition http_get :: "lighter_env \<Rightarrow> string \<Rightarrow> string lighter_method" where
  "http_get E url = after (calls (HttpGet url) (le_http E)) or_throw"

definition http_post :: "lighter_env \<Rightarrow> string \<Rightarrow> string \<Rightarrow> string lighter_method" where
  "http_post E url body = after (calls (HttpPost url body) (le_http E)) or_throw"

section \<open>Text\<close>

definition trim_0x :: "string \<Rightarrow> string" where
  "trim_0x hex = (if prefix ''0x'' hex \<or> prefix ''0X'' hex then substr hex 2 (length hex) else hex)"

definition unreserved :: "char \<Rightarrow> bool" where
  "unreserved c \<longleftrightarrow> (let n = of_char c :: nat in 97 \<le> n \<and> n \<le> 122 \<or> 65 \<le> n \<and> n \<le> 90 \<or> 48 \<le> n \<and> n \<le> 57)
     \<or> c \<in> {CHR ''-'', CHR ''_'', CHR ''.'', CHR ''~''}"

definition upper_hex_digits :: string where
  "upper_hex_digits = ''0123456789ABCDEF''"

definition percent :: "char \<Rightarrow> string" where
  "percent c = (let n = of_char c :: nat in
     [CHR ''%'', upper_hex_digits ! (n div 16), upper_hex_digits ! (n mod 16)])"

definition url_encode :: "string \<Rightarrow> string" where
  "url_encode s = concat (map (\<lambda>c. if unreserved c then [c] else percent c) s)"

definition tx_response_ok :: "string \<Rightarrow> bool" where
  "tx_response_ok response_body \<longleftrightarrow>
     contains response_body ''\"code\":200'' \<or> contains response_body ''\"tx_hash\"''"

section \<open>Numbers\<close>

text \<open>Conversion of a double to an integer type drops the fraction; out of range it is undefined in C++.\<close>

fun trunc_dbl :: "double \<Rightarrow> int" where
  "trunc_dbl (Fin r) = (if r < 0 then - \<lfloor>- r\<rfloor> else \<lfloor>r\<rfloor>)"
| "trunc_dbl _ = 0"

definition scaled_size :: "native_lighter \<Rightarrow> double \<Rightarrow> i64" where
  "scaled_size n sz = llround (std_max sz (nl_min_base_amount n) * pow10 (nl_size_decimals n))"

definition scaled_price :: "native_lighter \<Rightarrow> double \<Rightarrow> u32" where
  "scaled_price n price = word_of_int (llround (price * pow10 (nl_price_decimals n)))"

section \<open>The client and its nonces\<close>

definition fetch_remote_next_nonce :: "lighter_env \<Rightarrow> u64 lighter_method" where
  "fetch_remote_next_nonce E =
     after native (\<lambda>n.
     after (http_get E (lc_api_url (nl_config n) @ ''/api/v1/nextNonce?account_index=''
       @ int_string (lc_account_index (nl_config n)) @ ''&api_key_index=''
       @ int_string (lc_api_key_index (nl_config n)))) (\<lambda>body.
     after (or_throw (first_match_as_double (rx_digits ''nonce'' body))) (\<lambda>x.
       returns (word_of_int (trunc_dbl x)))))"

definition refresh_nonce_cache :: "lighter_env \<Rightarrow> unit lighter_method" where
  "refresh_nonce_cache E =
     after (fetch_remote_next_nonce E) (\<lambda>remote. set_native (\<lambda>n. n\<lparr>nl_nonce_cache := remote\<rparr>))"

definition fetch_add :: "u64 lighter_method" where
  "fetch_add = after native (\<lambda>n. after (set_native (\<lambda>n. n\<lparr>nl_nonce_cache := nl_nonce_cache n + 1\<rparr>)) (\<lambda>_.
     returns (nl_nonce_cache n)))"

definition next_nonce :: "lighter_env \<Rightarrow> u64 lighter_method" where
  "next_nonce E =
     after native (\<lambda>n.
     if nl_nonce_cache n \<noteq> 0 then fetch_add
     else after (fetch_remote_next_nonce E) (\<lambda>remote.
       after native (\<lambda>n.
       if nl_nonce_cache n = 0
       then after (set_native (\<lambda>n. n\<lparr>nl_nonce_cache := remote + 1\<rparr>)) (\<lambda>_. returns remote)
       else fetch_add)))"

definition ensure_client :: "lighter_env \<Rightarrow> unit lighter_method" where
  "ensure_client E =
     after native (\<lambda>n.
     if nl_client_ready n then returns ()
     else
       after (if nl_signer_loaded n then returns ()
              else after (calls LoadSigner (le_load_signer E)) (\<lambda>err. case err of
                  Some e \<Rightarrow> throws e
                | None \<Rightarrow> set_native (\<lambda>n. n\<lparr>nl_signer_loaded := True\<rparr>))) (\<lambda>_.
       let c = nl_config n in
       after (calls (CreateClient (lc_api_url c) (trim_0x (lc_api_private_key c)) 304 (lc_api_key_index c)
                (lc_account_index c)) (le_create_client E)) (\<lambda>err.
       if err \<noteq> [] then throws err
       else
         after (http_get E (lc_api_url c @ ''/api/v1/orderBookDetails?market_id=''
                  @ int_string (lc_market_index c))) (\<lambda>body.
         after (or_throw (first_match_as_double (rx_digits ''price_decimals'' body))) (\<lambda>p.
         after (set_native (\<lambda>n. n\<lparr>nl_price_decimals := trunc_dbl p\<rparr>)) (\<lambda>_.
         after (or_throw (first_match_as_double (rx_digits ''size_decimals'' body))) (\<lambda>s.
         after (set_native (\<lambda>n. n\<lparr>nl_size_decimals := trunc_dbl s\<rparr>)) (\<lambda>_.
         after (or_throw (first_match_as_double (rx_quoted ''min_base_amount'' body))) (\<lambda>m.
         after (set_native (\<lambda>n. n\<lparr>nl_min_base_amount := m\<rparr>)) (\<lambda>_.
         after (refresh_nonce_cache E) (\<lambda>_.
           set_native (\<lambda>n. n\<lparr>nl_client_ready := True\<rparr>))))))))))))"

definition create_auth_token :: "lighter_env \<Rightarrow> i64 \<Rightarrow> string lighter_method" where
  "create_auth_token E deadline_ms =
     after (ensure_client E) (\<lambda>_.
     after native (\<lambda>n.
     if \<not> nl_signer_loaded n then throws ''lighter signer not initialized''
     else after (calls (CreateAuthToken deadline_ms (lc_api_key_index (nl_config n))
                  (lc_account_index (nl_config n))) (le_auth_token E)) (\<lambda>(token, err).
       if err \<noteq> [] then throws err else returns token)))"

definition send_signed_tx :: "lighter_env \<Rightarrow> u8 \<Rightarrow> string \<Rightarrow> string lighter_method" where
  "send_signed_tx E tx_type tx_info =
     after native (\<lambda>n.
     if nl_tx_transport n then calls (SendTx tx_type tx_info) (le_send_tx E)
     else http_post E (lc_api_url (nl_config n) @ ''/api/v1/sendTx'')
       (''tx_type='' @ dec_string (unat tx_type) @ ''&tx_info='' @ url_encode tx_info))"

section \<open>Quotes and positions\<close>

definition lighter_native_get_bbo :: "lighter_env \<Rightarrow> i64 \<Rightarrow> bbo lighter_method" where
  "lighter_native_get_bbo E market_id =
     after native (\<lambda>n.
     after (http_get E (lc_api_url (nl_config n) @ ''/api/v1/orderBookOrders?market_id=''
       @ int_string market_id @ ''&limit=5'')) (\<lambda>body.
     let price = lit_class (key_lit ''price'' @ ''\"'') (\<lambda>c. c \<noteq> CHR 0x22) ''\"'';
         side = (\<lambda>key. regex_search (lit_then (key_lit key @ ''[{'') (star_then (\<lambda>c. c \<noteq> CHR ''}'') price)) body)
     in after (or_throw (first_match_as_double (side ''bids''))) (\<lambda>b.
        after (or_throw (first_match_as_double (side ''asks''))) (\<lambda>a.
          returns \<lparr>bid = b, ask = a, quote_age_ms = 0\<rparr>))))"

definition query_position_snapshot :: "lighter_env \<Rightarrow> lighter_position_snapshot lighter_method" where
  "query_position_snapshot E =
     after native (\<lambda>n.
     after (http_get E (lc_api_url (nl_config n) @ ''/api/v1/account?by=index&value=''
       @ int_string (lc_account_index (nl_config n)))) (\<lambda>body.
     case find_from body (''\"market_id\":'' @ int_string (lc_market_index (nl_config n))) 0 of
       None \<Rightarrow> returns no_position
     | Some market_pos \<Rightarrow> or_throw (position_fields (substr body market_pos 600))))"

definition query_position :: "lighter_env \<Rightarrow> double lighter_method" where
  "query_position E = after (query_position_snapshot E) (\<lambda>s. returns (lps_size s))"

section \<open>Orders\<close>

definition to_int32 :: "int \<Rightarrow> int" where
  "to_int32 i = sint (word_of_int i :: u32)"

definition create_order_args :: "native_lighter \<Rightarrow> i64 \<Rightarrow> double \<Rightarrow> double \<Rightarrow> bool \<Rightarrow> int \<Rightarrow> u64 \<Rightarrow> int list" where
  "create_order_args n client sz price is_ask tif nonce =
     [to_int32 (lc_market_index (nl_config n)), client, scaled_size n sz, sint (scaled_price n price),
      if is_ask then 1 else 0, 0, tif, 0, 0, 0, 0, 0, 0, sint nonce,
      lc_api_key_index (nl_config n), lc_account_index (nl_config n)]"

definition no_confirmer :: string where
  "no_confirmer = ''lighter maker order accepted by sendTx but no resting-order confirmer is configured''"

definition not_resting :: string where
  "not_resting = ''lighter maker order was accepted by sendTx but did not reach confirmed resting state''"

definition lighter_native_place_limit ::
  "lighter_env \<Rightarrow> lighter_limit_order_request \<Rightarrow> lighter_limit_order_ack lighter_method" where
  "lighter_native_place_limit E r =
     (if llr_dry_run r then
        after (reads (le_epoch_ms E)) (\<lambda>a.
        after (reads (le_epoch_ms E)) (\<lambda>b.
          returns \<lparr>lla_ok = True, lla_resting_confirmed = True, lla_message = ''dry-run'', lla_tx_hash = ''dry_tx'',
            lla_client_order_index = sint a, lla_order_index = sint b, lla_nonce_fetch_latency_ms = 0,
            lla_sign_order_latency_ms = 0, lla_send_tx_ack_latency_ms = 0, lla_place_to_http_ack_latency_ms = 0,
            lla_http_ack_latency_ms = 0\<rparr>))
      else
        after (ensure_client E) (\<lambda>_.
        after (reads (le_perf_ns E)) (\<lambda>submit_start.
        after (next_nonce E) (\<lambda>nonce.
        after (reads (le_perf_ns E)) (\<lambda>nonce_done.
        after native (\<lambda>n.
        after (reads (le_epoch_ms E)) (\<lambda>ms.
        let client = sint ms in
        after (calls (SignCreate (create_order_args n client (llr_size r) (llr_price r) (llr_is_ask r)
                 (if llr_post_only r then 2 else 1) nonce)) (le_sign E)) (\<lambda>tx.
        after (reads (le_perf_ns E)) (\<lambda>sign_done.
        let refused = \<lparr>lla_ok = False, lla_resting_confirmed = False, lla_message = st_err tx, lla_tx_hash = [],
              lla_client_order_index = client, lla_order_index = 0,
              lla_nonce_fetch_latency_ms = ms_of_ns (nonce_done - submit_start),
              lla_sign_order_latency_ms = ms_of_ns (sign_done - nonce_done), lla_send_tx_ack_latency_ms = 0,
              lla_place_to_http_ack_latency_ms = 0, lla_http_ack_latency_ms = 0\<rparr>
        in if st_err tx \<noteq> [] then returns refused
        else
          after (reads (le_perf_ns E)) (\<lambda>send_start.
          after (send_signed_tx E (st_tx_type tx) (st_tx_info tx)) (\<lambda>body.
          after (reads (le_perf_ns E)) (\<lambda>ack_ns.
          let sent = refused\<lparr>lla_tx_hash := st_tx_hash tx,
                lla_send_tx_ack_latency_ms := ms_of_ns (ack_ns - send_start),
                lla_place_to_http_ack_latency_ms := ms_of_ns (ack_ns - submit_start),
                lla_http_ack_latency_ms := ms_of_ns (ack_ns - submit_start)\<rparr>
          in if \<not> tx_response_ok body then returns (sent\<lparr>lla_message := body\<rparr>)
          else if \<not> nl_order_waiter n then returns (sent\<lparr>lla_message := no_confirmer\<rparr>)
          else
            after (calls (WaitOrder client 3000) (le_wait_order E)) (\<lambda>confirmed.
            case confirmed of
              None \<Rightarrow> returns (sent\<lparr>lla_message := not_resting\<rparr>)
            | Some o1 \<Rightarrow>
                (if \<not> lro_resting o1 \<or> lro_order_index o1 \<le> 0
                 then returns (sent\<lparr>lla_message := not_resting, lla_order_index := lro_order_index o1\<rparr>)
                 else returns (sent\<lparr>lla_ok := True, lla_resting_confirmed := True, lla_message := body,
                        lla_order_index := lro_order_index o1\<rparr>)))))))))))))))"

definition no_index :: string where
  "no_index = ''lighter cancel requires a confirmed exchange order_index''"

definition no_cancel_confirmer :: string where
  "no_cancel_confirmer = ''lighter cancel accepted by sendTx but no post-cancel confirmer is configured''"

definition plain_cancel_ack :: "bool \<Rightarrow> string \<Rightarrow> string \<Rightarrow> i64 \<Rightarrow> lighter_cancel_ack" where
  "plain_cancel_ack ok msg hash idx = \<lparr>lca_ok = ok, lca_message = msg, lca_tx_hash = hash, lca_order_index = idx,
     lca_nonce_fetch_latency_ms = 0, lca_sign_order_latency_ms = 0, lca_send_tx_ack_latency_ms = 0,
     lca_cancel_to_http_ack_latency_ms = 0\<rparr>"

definition lighter_native_cancel :: "lighter_env \<Rightarrow> i64 \<Rightarrow> bool \<Rightarrow> lighter_cancel_ack lighter_method" where
  "lighter_native_cancel E order_index dry =
     (if dry then returns (plain_cancel_ack True ''dry-run'' ''dry_tx'' order_index)
      else if order_index \<le> 0 then returns (plain_cancel_ack False no_index [] order_index)
      else
        after (ensure_client E) (\<lambda>_.
        after (reads (le_perf_ns E)) (\<lambda>submit_start.
        after (next_nonce E) (\<lambda>nonce.
        after (reads (le_perf_ns E)) (\<lambda>nonce_done.
        after native (\<lambda>n.
        after (calls (SignCancel [to_int32 (lc_market_index (nl_config n)), order_index, sint nonce,
                 lc_api_key_index (nl_config n), lc_account_index (nl_config n)]) (le_sign E)) (\<lambda>tx.
        after (reads (le_perf_ns E)) (\<lambda>sign_done.
        let refused = (plain_cancel_ack False (st_err tx) [] order_index)
              \<lparr>lca_nonce_fetch_latency_ms := ms_of_ns (nonce_done - submit_start),
               lca_sign_order_latency_ms := ms_of_ns (sign_done - nonce_done)\<rparr>
        in if st_err tx \<noteq> [] then returns refused
        else
          after (reads (le_perf_ns E)) (\<lambda>send_start.
          after (send_signed_tx E (st_tx_type tx) (st_tx_info tx)) (\<lambda>body.
          after (reads (le_perf_ns E)) (\<lambda>ack_ns.
          let sent = refused\<lparr>lca_tx_hash := st_tx_hash tx,
                lca_send_tx_ack_latency_ms := ms_of_ns (ack_ns - send_start),
                lca_cancel_to_http_ack_latency_ms := ms_of_ns (ack_ns - submit_start)\<rparr>
          in if \<not> tx_response_ok body then returns (sent\<lparr>lca_message := body\<rparr>)
          else if \<not> nl_cancel_waiter n then returns (sent\<lparr>lca_message := no_cancel_confirmer\<rparr>)
          else
            after (calls (WaitCancel order_index 3000) (le_wait_cancel E)) (\<lambda>confirmed.
              returns (sent\<lparr>lca_ok := confirmed, lca_message := body\<rparr>)))))))))))))"

section \<open>Immediate-or-cancel orders\<close>

text \<open>How long to wait for the position, from the execution time the venue predicts.\<close>

definition wait_ms :: "lighter_env \<Rightarrow> string \<Rightarrow> u64 lighter_method" where
  "wait_ms E body = (case rx_digits ''predicted_execution_time_ms'' body of
     None \<Rightarrow> returns 500
   | Some t \<Rightarrow>
       after (or_throw (stoull t)) (\<lambda>predicted.
       after (reads (le_epoch_ms E)) (\<lambda>now.
         returns (if now < predicted then predicted - now + 200 else 500))))"

definition position_timeout :: "u64 \<Rightarrow> int" where
  "position_timeout ms = uint (min (ms + 1000) 3000)"

text \<open>The position after the order: from the feed, else from the account; and the attempts.\<close>

definition confirmed_position ::
  "lighter_env \<Rightarrow> double \<Rightarrow> u64 \<Rightarrow> (lighter_position_snapshot option \<times> int) lighter_method" where
  "confirmed_position E pos_before ms =
     after native (\<lambda>n.
     after (if nl_position_waiter n
            then after (calls (WaitPosition pos_before (position_timeout ms)) (le_wait_position E)) (\<lambda>s. returns (s, 1))
            else returns (None, 0)) (\<lambda>(s, attempts).
     if s \<noteq> None then returns (s, attempts)
     else after (query_position_snapshot E) (\<lambda>now.
       returns (if D (1 / 1000) < \<bar>lps_size now - pos_before\<bar> then Some now else None, attempts + 1))))"

definition ioc_fill_price ::
  "lighter_ioc_request \<Rightarrow> lighter_position_snapshot \<Rightarrow> lighter_position_snapshot \<Rightarrow> double" where
  "ioc_fill_price r before now =
     (let delta = \<bar>lps_size now - lps_size before\<bar> in
      if \<bar>lps_size before\<bar> + D (1 / 1000) < \<bar>lps_size now\<bar>
      then (let value_before = \<bar>lps_size before\<bar> * lps_avg_entry_price before;
                value_after = \<bar>lps_size now\<bar> * lps_avg_entry_price now
            in if D (1 / 10000) < delta then \<bar>value_after - value_before\<bar> / delta else 0)
      else if 0 < lir_signal_price r then lir_signal_price r else lps_avg_entry_price before)"

definition plain_ioc_ack :: "bool \<Rightarrow> bool \<Rightarrow> string \<Rightarrow> string \<Rightarrow> double \<Rightarrow> double \<Rightarrow> lighter_ioc_ack" where
  "plain_ioc_ack ok confirmed msg hash sz price = \<lparr>lia_ok = ok, lia_fill_confirmed = confirmed, lia_message = msg,
     lia_tx_hash = hash, lia_confirmed_size = sz, lia_fill_price = price, lia_fee = 0,
     lia_nonce_fetch_latency_ms = 0, lia_sign_order_latency_ms = 0, lia_send_tx_ack_latency_ms = 0,
     lia_place_to_http_ack_latency_ms = 0, lia_http_ack_latency_ms = 0, lia_fill_confirm_latency_ms = 0,
     lia_confirm_attempts = 0\<rparr>"

text \<open>From the accepted transaction to the acknowledgement.\<close>

definition confirm_ioc ::
  "lighter_env \<Rightarrow> lighter_ioc_request \<Rightarrow> lighter_position_snapshot \<Rightarrow> string \<Rightarrow> u64 \<Rightarrow> lighter_ioc_ack
   \<Rightarrow> lighter_ioc_ack lighter_method" where
  "confirm_ioc E r before body http_ack_ns sent =
     after (if contains body ''tx_hash'' then or_throw (first_match_as_string (rx_quoted ''tx_hash'' body))
            else returns (lia_tx_hash sent)) (\<lambda>hash.
     after (wait_ms E body) (\<lambda>ms.
     after (confirmed_position E (lps_size before) ms) (\<lambda>(s, attempts).
     after (reads (le_perf_ns E)) (\<lambda>end_ns.
     after (records LighterHttpAckToFillConfirmNs (end_ns - http_ack_ns)) (\<lambda>_.
     let ack = sent\<lparr>lia_ok := True, lia_message := body, lia_tx_hash := hash,
           lia_fill_confirm_latency_ms := ms_of_ns (end_ns - http_ack_ns), lia_confirm_attempts := attempts\<rparr>
     in returns (case s of
          None \<Rightarrow> ack
        | Some now \<Rightarrow> ack\<lparr>lia_fill_confirmed := D (1 / 1000) < \<bar>lps_size now - lps_size before\<bar>,
            lia_confirmed_size := \<bar>lps_size now - lps_size before\<bar>,
            lia_fill_price := ioc_fill_price r before now\<rparr>))))))"

definition lighter_native_place_ioc ::
  "lighter_env \<Rightarrow> lighter_ioc_request \<Rightarrow> lighter_ioc_ack lighter_method" where
  "lighter_native_place_ioc E r =
     (if lir_dry_run r then returns (plain_ioc_ack True True ''dry-run'' ''dry_tx'' (lir_size r) (lir_price r))
      else
        after (ensure_client E) (\<lambda>_.
        after (query_position_snapshot E) (\<lambda>before.
        after (reads (le_perf_ns E)) (\<lambda>submit_start.
        after (next_nonce E) (\<lambda>nonce.
        after (reads (le_perf_ns E)) (\<lambda>nonce_done.
        after (records LighterNonceFetchNs (nonce_done - submit_start)) (\<lambda>_.
        after native (\<lambda>n.
        after (reads (le_epoch_ms E)) (\<lambda>ms.
        after (calls (SignCreate (create_order_args n (sint ms) (lir_size r) (lir_price r) (lir_is_ask r) 0 nonce))
                 (le_sign E)) (\<lambda>tx.
        after (reads (le_perf_ns E)) (\<lambda>sign_done.
        after (records LighterSignOrderNs (sign_done - nonce_done)) (\<lambda>_.
        let refused = (plain_ioc_ack False False (st_err tx) [] 0 0)
              \<lparr>lia_nonce_fetch_latency_ms := ms_of_ns (nonce_done - submit_start),
               lia_sign_order_latency_ms := ms_of_ns (sign_done - nonce_done)\<rparr>
        in if st_err tx \<noteq> [] then returns refused
        else
          after (reads (le_perf_ns E)) (\<lambda>send_start.
          after (send_signed_tx E (st_tx_type tx) (st_tx_info tx)) (\<lambda>body.
          after (reads (le_perf_ns E)) (\<lambda>ack_ns.
          after (records LighterSendTxAckNs (ack_ns - send_start)) (\<lambda>_.
          after (records LighterSendToHttpAckNs (ack_ns - submit_start)) (\<lambda>_.
          let sent = refused\<lparr>lia_message := body, lia_tx_hash := st_tx_hash tx,
                lia_send_tx_ack_latency_ms := ms_of_ns (ack_ns - send_start),
                lia_place_to_http_ack_latency_ms := ms_of_ns (ack_ns - submit_start),
                lia_http_ack_latency_ms := ms_of_ns (ack_ns - submit_start)\<rparr>
          in if \<not> tx_response_ok body then returns sent
             else confirm_ioc E r before body ack_ns sent)))))))))))))))))"

end
