(* ===== verification/Native_Lighter_Safety.thy ===== *)
theory Native_Lighter_Safety
  imports Native_Lighter
begin

text \<open>
  What \<open>NativeLighterTrading\<close> guarantees: the nonces it signs, what its acknowledgements mean,
  and the sizes it sends.  A method is judged by its effect on the native state and on the
  log of calls.
\<close>

section \<open>Nonces that are signed\<close>

definition nonce_of :: "lighter_call \<Rightarrow> int option" where
  "nonce_of c = (case c of SignCreate as \<Rightarrow> Some (as ! 13) | SignCancel as \<Rightarrow> Some (as ! 2) | _ \<Rightarrow> None)"

definition nonces :: "lighter_world \<Rightarrow> int list" where
  "nonces w = List.map_filter nonce_of (lw_calls w)"

text \<open>
  \<open>quiet\<close>: leaves the native state alone and signs nothing; \<open>steady\<close>: and never throws.
  \<open>signs v\<close>: signs once, with the nonce \<open>v\<close>, whatever else happens.
\<close>

definition quiet :: "'a lighter_method \<Rightarrow> bool" where
  "quiet m \<longleftrightarrow> (\<forall>w. lw_native (snd (m w)) = lw_native w \<and> nonces (snd (m w)) = nonces w)"

definition steady :: "'a lighter_method \<Rightarrow> bool" where
  "steady m \<longleftrightarrow> quiet m \<and> (\<forall>w. \<exists>x. fst (m w) = Inr x)"

definition signs :: "u64 \<Rightarrow> 'a lighter_method \<Rightarrow> bool" where
  "signs v m \<longleftrightarrow> (\<forall>w. lw_native (snd (m w)) = lw_native w \<and> nonces (snd (m w)) = nonces w @ [sint v])"

named_theorems quiet_intro

lemma steady_quiet: "steady m \<Longrightarrow> quiet m"
  by (simp add: steady_def)

lemma quiet_returns [quiet_intro]: "quiet (returns x)"
  by (simp add: quiet_def returns_def)

lemma quiet_throws [quiet_intro]: "quiet (throws e)"
  by (simp add: quiet_def throws_def)

lemma quiet_after [quiet_intro]: "quiet m \<Longrightarrow> (\<And>x. quiet (k x)) \<Longrightarrow> quiet (after m k)"
  unfolding quiet_def after_def by (simp split: prod.split sum.split) (metis snd_conv)

lemma quiet_or_throw [quiet_intro]: "quiet (or_throw r)"
  by (cases r) (simp_all add: or_throw_def quiet_intro)

lemma quiet_calls [quiet_intro]: "nonce_of c = None \<Longrightarrow> quiet (calls c f)"
  by (simp add: quiet_def calls_def nonces_def List.map_filter_def Let_def)

lemma steady_reads [quiet_intro]: "steady (reads f)"
  unfolding steady_def reads_def by (simp add: quiet_calls nonce_of_def) (simp add: calls_def Let_def)

lemma steady_native [quiet_intro]: "steady native"
  by (simp add: steady_def quiet_def native_def)

lemma steady_records [quiet_intro]: "steady (records m v)"
  by (simp add: steady_def quiet_def records_def nonces_def)

lemma quiet_if [quiet_intro]: "quiet m \<Longrightarrow> quiet m' \<Longrightarrow> quiet (if b then m else m')"
  by simp

lemma quiet_option [quiet_intro]: "quiet m \<Longrightarrow> (\<And>x. quiet (k x)) \<Longrightarrow> quiet (case r of None \<Rightarrow> m | Some x \<Rightarrow> k x)"
  by (cases r) simp_all

lemma quiet_prod [quiet_intro]: "(\<And>x y. quiet (k x y)) \<Longrightarrow> quiet (case r of (x, y) \<Rightarrow> k x y)"
  by (cases r) simp

lemma quiet_let [quiet_intro]: "(\<And>x. quiet (k x)) \<Longrightarrow> quiet (let x = r in k x)"
  by simp

lemmas quiet_reads [quiet_intro] = steady_reads [THEN steady_quiet]
lemmas quiet_native [quiet_intro] = steady_native [THEN steady_quiet]
lemmas quiet_records [quiet_intro] = steady_records [THEN steady_quiet]

lemma quiet_http [quiet_intro]: "quiet (http_get E url)" "quiet (http_post E url body)"
  unfolding http_get_def http_post_def by (intro quiet_intro; simp add: nonce_of_def)+

lemma quiet_query [quiet_intro]: "quiet (query_position_snapshot E)"
  unfolding query_position_snapshot_def by (intro quiet_intro)

lemma quiet_send [quiet_intro]: "quiet (send_signed_tx E ty info)"
  unfolding send_signed_tx_def by (intro quiet_intro; simp add: nonce_of_def)

lemma quiet_confirm_ioc [quiet_intro]: "quiet (confirm_ioc E r before body t sent)"
  unfolding confirm_ioc_def wait_ms_def confirmed_position_def by (intro quiet_intro; simp add: nonce_of_def)

lemma signs_steady: "steady m \<Longrightarrow> (\<And>x. signs v (k x)) \<Longrightarrow> signs v (after m k)"
  unfolding signs_def steady_def quiet_def after_def
  by (simp split: prod.split sum.split) (metis Inr_not_Inl fst_conv snd_conv)

lemma signs_call: "nonce_of c = Some (sint v) \<Longrightarrow> (\<And>x. quiet (k x)) \<Longrightarrow> signs v (after (calls c f) k)"
  unfolding signs_def quiet_def after_def calls_def
  by (simp add: nonces_def List.map_filter_def Let_def)

text \<open>
  The effect of a method on the nonces when the client is ready: either none, or it signs with
  the cached nonce and the cache moves on by one.
\<close>

definition ready :: "lighter_world \<Rightarrow> bool" where
  "ready w \<longleftrightarrow> nl_client_ready (lw_native w) \<and> nl_nonce_cache (lw_native w) \<noteq> 0"

definition consumes :: "'a lighter_method \<Rightarrow> bool" where
  "consumes m \<longleftrightarrow> (\<forall>w. ready w \<longrightarrow>
     (let n = lw_native w; w' = snd (m w) in
        (lw_native w' = n \<and> nonces w' = nonces w) \<or>
        (lw_native w' = n\<lparr>nl_nonce_cache := nl_nonce_cache n + 1\<rparr>
         \<and> nonces w' = nonces w @ [sint (nl_nonce_cache n)])))"

lemma consumes_quiet: "quiet m \<Longrightarrow> consumes m"
  by (simp add: consumes_def quiet_def Let_def)

lemma consumes_after: "quiet m \<Longrightarrow> (\<And>x. consumes (k x)) \<Longrightarrow> consumes (after m k)"
  unfolding consumes_def quiet_def after_def ready_def Let_def
  by (simp split: prod.split sum.split) (metis snd_conv)

lemma consumes_client: "(\<And>x. consumes (k x)) \<Longrightarrow> consumes (after (ensure_client E) k)"
  by (simp add: consumes_def ready_def after_def ensure_client_def native_def returns_def)

lemma consumes_nonce: "(\<And>v. signs v (k v)) \<Longrightarrow> consumes (after (next_nonce E) k)"
  by (simp add: consumes_def signs_def ready_def after_def next_nonce_def native_def fetch_add_def
      returns_def set_native_def nonces_def Let_def)

lemma place_limit_consumes: "consumes (lighter_native_place_limit E r)"
proof (cases "llr_dry_run r")
  case True
  then show ?thesis
    unfolding lighter_native_place_limit_def by (simp, intro consumes_quiet quiet_intro)
next
  case False
  show ?thesis
    unfolding lighter_native_place_limit_def Let_def if_not_P [OF False]
    by (intro consumes_client consumes_after consumes_nonce signs_steady signs_call quiet_intro)
      (simp_all add: nonce_of_def create_order_args_def)
qed

lemma cancel_consumes: "consumes (lighter_native_cancel E idx dry)"
proof (cases "dry \<or> idx \<le> 0")
  case True
  then show ?thesis
    unfolding lighter_native_cancel_def by (auto intro!: consumes_quiet quiet_intro)
next
  case False
  then have f: "\<not> dry" "\<not> idx \<le> 0" by auto
  show ?thesis
    unfolding lighter_native_cancel_def Let_def if_not_P [OF f(1)] if_not_P [OF f(2)]
    by (intro consumes_client consumes_after consumes_nonce signs_steady signs_call quiet_intro)
      (simp_all add: nonce_of_def)
qed

lemma place_ioc_consumes: "consumes (lighter_native_place_ioc E r)"
proof (cases "lir_dry_run r")
  case True
  then show ?thesis
    unfolding lighter_native_place_ioc_def by (simp, intro consumes_quiet quiet_intro)
next
  case False
  show ?thesis
    unfolding lighter_native_place_ioc_def Let_def if_not_P [OF False]
    by (intro consumes_client consumes_after consumes_nonce signs_steady signs_call quiet_intro)
      (simp_all add: nonce_of_def create_order_args_def)
qed

lemma sint_of_small:
  fixes v :: u64
  assumes "unat v < 2 ^ 63"
  shows "sint v = int (unat v)"
proof -
  have u: "uint v = int (unat v)" by simp
  have "uint v < 2 ^ 63" unfolding u using assms by (metis of_nat_less_iff of_nat_numeral of_nat_power)
  moreover have "0 \<le> uint v" unfolding u by simp
  then have "- (2 ^ 63) \<le> uint v" by (rule order_trans [rotated]) simp
  ultimately show ?thesis
    unfolding sint_uint u [symmetric] by (intro signed_take_bit_int_eq_self) simp_all
qed

datatype lighter_op =
    OpLimit lighter_limit_order_request
  | OpCancel i64 bool
  | OpIoc lighter_ioc_request

fun run_op :: "lighter_env \<Rightarrow> lighter_op \<Rightarrow> lighter_world \<Rightarrow> lighter_world" where
  "run_op E (OpLimit r) w = snd (lighter_native_place_limit E r w)"
| "run_op E (OpCancel idx dry) w = snd (lighter_native_cancel E idx dry w)"
| "run_op E (OpIoc r) w = snd (lighter_native_place_ioc E r w)"

lemma consumesD:
  assumes "consumes m" and "ready w"
  shows "(lw_native (snd (m w)) = lw_native w \<and> nonces (snd (m w)) = nonces w) \<or>
     (lw_native (snd (m w)) = (lw_native w)\<lparr>nl_nonce_cache := nl_nonce_cache (lw_native w) + 1\<rparr>
      \<and> nonces (snd (m w)) = nonces w @ [sint (nl_nonce_cache (lw_native w))])"
  using assms unfolding consumes_def Let_def by blast

lemma run_op_consumes:
  assumes "ready w"
  shows "(lw_native (run_op E x w) = lw_native w \<and> nonces (run_op E x w) = nonces w) \<or>
     (lw_native (run_op E x w) = (lw_native w)\<lparr>nl_nonce_cache := nl_nonce_cache (lw_native w) + 1\<rparr>
      \<and> nonces (run_op E x w) = nonces w @ [sint (nl_nonce_cache (lw_native w))])"
proof (cases x)
  case (OpLimit r)
  show ?thesis unfolding OpLimit run_op.simps by (rule consumesD [OF place_limit_consumes assms])
next
  case (OpCancel idx dry)
  show ?thesis unfolding OpCancel run_op.simps by (rule consumesD [OF cancel_consumes assms])
next
  case (OpIoc r)
  show ?thesis unfolding OpIoc run_op.simps by (rule consumesD [OF place_ioc_consumes assms])
qed

text \<open>Over any sequence of orders and cancels of a ready client, whatever the venue answers,
  the nonces that are signed are consecutive, starting with the cached one, and the cache is the
  next one; so none is signed twice and none is left out (bounded by the cache not reaching
  \<open>2^63\<close>).\<close>

theorem nonces_consecutive:
  assumes "ready w" and "unat (nl_nonce_cache (lw_native w)) + length xs < 2 ^ 63"
  shows "\<exists>k \<le> length xs. let w' = fold (run_op E) xs w; c = int (unat (nl_nonce_cache (lw_native w))) in
    nonces w' = nonces w @ map (\<lambda>i. c + int i) [0..<k]
    \<and> int (unat (nl_nonce_cache (lw_native w'))) = c + int k \<and> ready w'"
  using assms
proof (induction xs rule: rev_induct)
  case Nil
  then show ?case by simp
next
  case (snoc x xs)
  let ?w = "fold (run_op E) xs w" and ?c = "int (unat (nl_nonce_cache (lw_native w)))"
  from snoc obtain k where k: "k \<le> length xs" "nonces ?w = nonces w @ map (\<lambda>i. ?c + int i) [0..<k]"
    "int (unat (nl_nonce_cache (lw_native ?w))) = ?c + int k" "ready ?w"
    by (auto simp: Let_def)
  let ?n = "nl_nonce_cache (lw_native ?w)"
  have n: "unat ?n = unat (nl_nonce_cache (lw_native w)) + k"
    using k(3) by (simp only: of_nat_add [symmetric] of_nat_eq_iff)
  with k(1) snoc.prems(2) have lt: "unat ?n + 1 < 2 ^ 63" by simp
  then have "sint ?n = int (unat ?n)"
    by (intro sint_of_small) simp
  with n have s: "sint ?n = ?c + int k" by simp
  have u: "unat (?n + 1) = unat ?n + 1" using lt by (simp add: unat_word_ariths)
  from run_op_consumes [OF k(4), of E x] show ?case
  proof (elim disjE conjE)
    assume "lw_native (run_op E x ?w) = lw_native ?w" "nonces (run_op E x ?w) = nonces ?w"
    with k show ?thesis by (intro exI [of _ k]) (simp add: ready_def Let_def)
  next
    assume "lw_native (run_op E x ?w) = (lw_native ?w)\<lparr>nl_nonce_cache := ?n + 1\<rparr>"
      "nonces (run_op E x ?w) = nonces ?w @ [sint ?n]"
    moreover from u have "?n + 1 \<noteq> 0" by (metis Suc_eq_plus1 nat.distinct(1) unat_0)
    moreover have "uint (?n + 1) = uint ?n + 1" using arg_cong [OF u, of int] by simp
    ultimately show ?thesis using k s
      by (intro exI [of _ "k + 1"]) (simp add: ready_def Let_def)
  qed
qed

section \<open>What an acknowledgement means\<close>

lemma gives_calls: "(\<And>cs. gives P (k (f (cs @ [c])))) \<Longrightarrow> gives P (after (calls c f) k)"
  by (rule gives_after) (auto simp: calls_def Let_def)

text \<open>A Lighter maker order is acknowledged as good only when the order waiter, asked about the
  client index under which the order was signed, named a resting order with a positive index; the
  acknowledgement carries that index.  (An order that is refused, not answered in time, or not
  resting is never acknowledged as good.)\<close>

theorem good_limit_ack_is_confirmed:
  assumes "\<not> llr_dry_run r" and "lighter_native_place_limit E r w = (Inr ack, w')" and "lla_ok ack"
  shows "\<exists>cs u. le_wait_order E (cs @ [WaitOrder (lla_client_order_index ack) 3000]) = Some u
    \<and> lro_resting u \<and> 0 < lro_order_index u \<and> lla_order_index ack = lro_order_index u
    \<and> lla_resting_confirmed ack \<and> tx_response_ok (lla_message ack)"
proof -
  let ?P = "\<lambda>ack. lla_ok ack \<longrightarrow>
    (\<exists>cs u. le_wait_order E (cs @ [WaitOrder (lla_client_order_index ack) 3000]) = Some u
      \<and> lro_resting u \<and> 0 < lro_order_index u \<and> lla_order_index ack = lro_order_index u
      \<and> lla_resting_confirmed ack \<and> tx_response_ok (lla_message ack))"
  have "gives ?P (lighter_native_place_limit E r)"
    unfolding lighter_native_place_limit_def Let_def if_not_P [OF assms(1)]
    by (intro gives_if gives_returns gives_calls gives_option gives_after_any; simp; metis not_le)
  from givesD [OF this assms(2)] assms(3) show ?thesis by simp
qed

text \<open>The world \<open>w'\<close> comes after \<open>w\<close> with \<open>n\<close> transactions sent in between.\<close>

fun is_transaction :: "lighter_call \<Rightarrow> bool" where
  "is_transaction (SendTx _ _) = True"
| "is_transaction (HttpPost _ _) = True"
| "is_transaction _ = False"

definition follows :: "nat \<Rightarrow> lighter_world \<Rightarrow> lighter_world \<Rightarrow> bool" where
  "follows n w w' \<longleftrightarrow> (\<exists>cs. lw_calls w' = lw_calls w @ cs \<and> length (filter is_transaction cs) = n)"


lemma follows_trans: "follows m u v \<Longrightarrow> follows n v w \<Longrightarrow> follows (m + n) u w"
  by (auto simp: follows_def)

definition sends_nothing :: "'a lighter_method \<Rightarrow> bool" where
  "sends_nothing m \<longleftrightarrow> (\<forall>w. follows 0 w (snd (m w)))"

named_theorems sends_nothing_intro

lemma sends_nothing_simple [sends_nothing_intro]:
  "sends_nothing (returns x)" "sends_nothing (throws e)" "sends_nothing native" "sends_nothing (set_native f)"
  "sends_nothing (records metric v)" "sends_nothing (reads clock)"
  by (simp_all add: sends_nothing_def follows_def returns_def throws_def native_def set_native_def records_def
      reads_def calls_def Let_def)

lemma sends_nothing_calls [sends_nothing_intro]: "\<not> is_transaction c \<Longrightarrow> sends_nothing (calls c f)"
  by (simp add: sends_nothing_def follows_def calls_def Let_def)

lemma sends_nothing_after [sends_nothing_intro]:
  assumes "sends_nothing m" and "\<And>x. sends_nothing (k x)"
  shows "sends_nothing (after m k)"
  unfolding sends_nothing_def
proof
  fix w
  obtain r w1 where m: "m w = (r, w1)" by fastforce
  with assms(1) have "follows 0 w w1" unfolding sends_nothing_def by (metis snd_conv)
  then show "follows 0 w (snd (after m k w))"
    using assms(2) follows_trans [of 0 w w1 0] m by (cases r) (simp_all add: after_def sends_nothing_def)
qed

lemma sends_nothing_or_throw [sends_nothing_intro]: "sends_nothing (or_throw r)"
  by (cases r) (simp_all add: or_throw_def sends_nothing_intro)

lemma sends_nothing_cases [sends_nothing_intro]:
  "sends_nothing m \<Longrightarrow> sends_nothing m' \<Longrightarrow> sends_nothing (if b then m else m')"
  "sends_nothing m \<Longrightarrow> (\<And>x. sends_nothing (k x)) \<Longrightarrow> sends_nothing (case r of None \<Rightarrow> m | Some x \<Rightarrow> k x)"
  "(\<And>x y. sends_nothing (h x y)) \<Longrightarrow> sends_nothing (case p of (x, y) \<Rightarrow> h x y)"
  by (simp_all split: option.split prod.split)

lemma sends_nothing_methods [sends_nothing_intro]:
  "sends_nothing (query_position_snapshot E)" "sends_nothing (next_nonce E)" "sends_nothing (wait_ms E body)"
  unfolding query_position_snapshot_def http_get_def next_nonce_def fetch_add_def fetch_remote_next_nonce_def wait_ms_def Let_def
  by (intro sends_nothing_intro; simp)+






lemma sends_nothing_confirmed_position [sends_nothing_intro]: "sends_nothing (confirmed_position E before ms)"
  unfolding confirmed_position_def by (intro sends_nothing_intro; simp)




section \<open>After the transaction is sent\<close>

text \<open>\<open>place_ioc_order\<close> can throw after the venue has accepted the order: when the answer mentions
  \<open>tx_hash\<close> without a non-empty quoted value, no acknowledgement is returned, although the
  transaction was sent and the nonce is used.\<close>

theorem ioc_throws_after_sending:
  assumes "\<not> lir_dry_run r" and "ready w" and "nl_tx_transport (lw_native w)"
    and "\<And>cs. le_http E cs = Inr account" and "find_from account (''\"market_id\":'' @ int_string (lc_market_index (nl_config (lw_native w)))) 0 = None"
    and "\<And>cs. st_err (le_sign E cs) = []" and "\<And>cs. le_send_tx E cs = body"
    and "tx_response_ok body" and "contains body ''tx_hash''" and "rx_quoted ''tx_hash'' body = None"
  shows "\<exists>w' ty info. lighter_native_place_ioc E r w = (Inl ''failed to parse string field'', w')
    \<and> SendTx ty info \<in> set (lw_calls w') \<and> nl_nonce_cache (lw_native w') = nl_nonce_cache (lw_native w) + 1"
  using assms(1-3,5)
  by (simp add: lighter_native_place_ioc_def after_def ensure_client_def native_def returns_def ready_def
      query_position_snapshot_def http_get_def calls_def Let_def or_throw_def assms(4,6-10) reads_def
      next_nonce_def fetch_add_def set_native_def records_def send_signed_tx_def confirm_ioc_def
      first_match_as_string_def throws_def) blast

section \<open>A world in which these hold\<close>

definition demo_native :: native_lighter where
  "demo_native = \<lparr>nl_config = \<lparr>lc_api_url = ''u'', lc_api_private_key = ''k'', lc_account_index = 7,
       lc_api_key_index = 0, lc_market_index = 24\<rparr>,
     nl_tx_transport = True, nl_position_waiter = True, nl_order_waiter = True, nl_cancel_waiter = True,
     nl_signer_loaded = True, nl_client_ready = True, nl_price_decimals = 4, nl_size_decimals = 2,
     nl_min_base_amount = 0, nl_nonce_cache = 5\<rparr>"

definition demo_signed :: signed_tx where
  "demo_signed = \<lparr>st_tx_type = 14, st_tx_info = ''i'', st_tx_hash = ''h'', st_err = []\<rparr>"

definition demo_lighter :: "string \<Rightarrow> lighter_env" where
  "demo_lighter body = \<lparr>le_load_signer = \<lambda>_. None, le_create_client = \<lambda>_. [], le_auth_token = \<lambda>_. (''t'', []),
     le_sign = \<lambda>_. demo_signed, le_http = \<lambda>_. Inr ''{}'', le_send_tx = \<lambda>_. body,
     le_wait_position = \<lambda>_. Some \<lparr>lps_size = Fin 1, lps_avg_entry_price = Fin 20, lps_position_value = Fin 20\<rparr>,
     le_wait_order = \<lambda>_. Some \<lparr>lro_client_order_index = 0, lro_order_index = 9, lro_resting = True\<rparr>,
     le_wait_cancel = \<lambda>_. True, le_epoch_ms = \<lambda>_. 0, le_perf_ns = \<lambda>_. 0\<rparr>"

definition demo_native_world :: lighter_world where
  "demo_native_world = \<lparr>lw_native = demo_native, lw_calls = [], lw_perf = empty_collector\<rparr>"

lemmas native_methods =
  after_def native_def returns_def throws_def calls_def reads_def or_throw_def set_native_def records_def
  ensure_client_def next_nonce_def fetch_add_def http_get_def send_signed_tx_def Let_def

lemma demo_fields [simp]:
  "le_sign (demo_lighter body) cs = demo_signed" "le_http (demo_lighter body) cs = Inr ''{}''"
  "le_send_tx (demo_lighter body) cs = body" "st_err demo_signed = []" "lw_native demo_native_world = demo_native"
  "nl_client_ready demo_native" "nl_nonce_cache demo_native = 5" "nl_tx_transport demo_native"
  "nl_order_waiter demo_native" "nl_position_waiter demo_native"
  "le_wait_order (demo_lighter body) cs = Some \<lparr>lro_client_order_index = 0, lro_order_index = 9, lro_resting = True\<rparr>"
  "le_wait_position (demo_lighter body) cs = Some \<lparr>lps_size = Fin 1, lps_avg_entry_price = Fin 20, lps_position_value = Fin 20\<rparr>"
  by (simp_all add: demo_lighter_def demo_signed_def demo_native_world_def demo_native_def)

lemma demo_ready: "ready demo_native_world"
  by (simp add: ready_def)

definition demo_limit :: lighter_limit_order_request where
  "demo_limit = \<lparr>llr_is_ask = True, llr_price = Fin 21, llr_size = Fin 1, llr_post_only = True, llr_dry_run = False\<rparr>"

definition demo_ioc :: lighter_ioc_request where
  "demo_ioc = \<lparr>lir_is_ask = True, lir_price = Fin 21, lir_size = Fin 100, lir_signal_price = Fin 21, lir_dry_run = False\<rparr>"

theorem nonces_consecutive_witness:
  "\<exists>k \<le> 3. nonces (fold (run_op (demo_lighter ''{}'')) [OpLimit demo_limit, OpCancel 9 False, OpIoc demo_ioc]
      demo_native_world) = map (\<lambda>i. 5 + int i) [0..<k]"
proof -
  have "nonces demo_native_world = []" by (simp add: nonces_def demo_native_world_def List.map_filter_def)
  moreover have "unat (nl_nonce_cache (lw_native demo_native_world))
      + length [OpLimit demo_limit, OpCancel 9 False, OpIoc demo_ioc] < 2 ^ 63" by simp
  from nonces_consecutive [OF demo_ready this, of "demo_lighter ''{}''"]
  obtain k where "k \<le> length [OpLimit demo_limit, OpCancel 9 False, OpIoc demo_ioc]"
    "nonces (fold (run_op (demo_lighter ''{}'')) [OpLimit demo_limit, OpCancel 9 False, OpIoc demo_ioc]
        demo_native_world)
      = nonces demo_native_world @ map (\<lambda>i. int (unat (nl_nonce_cache (lw_native demo_native_world))) + int i) [0..<k]"
    unfolding Let_def by blast
  ultimately show ?thesis by (intro exI [of _ k]) (simp del: fold.simps)
qed

theorem good_limit_ack_is_confirmed_witness:
  "\<exists>ack w'. lighter_native_place_limit (demo_lighter ''{\"code\":200}'') demo_limit demo_native_world = (Inr ack, w')
     \<and> lla_ok ack \<and> 0 < lla_order_index ack \<and> tx_response_ok (lla_message ack)"
proof -
  have ok: "tx_response_ok ''{\"code\":200}''" by (simp add: tx_response_ok_def contains_def find_from_zero)
  have d: "\<not> llr_dry_run demo_limit" by (simp add: demo_limit_def)
  obtain ack w' where r: "lighter_native_place_limit (demo_lighter ''{\"code\":200}'') demo_limit demo_native_world
      = (Inr ack, w')" "lla_ok ack"
    by (simp add: lighter_native_place_limit_def native_methods ok d)
  from good_limit_ack_is_confirmed [OF d r] r show ?thesis by (metis (no_types, lifting))
qed


theorem ioc_throws_after_sending_witness:
  "\<exists>w'. lighter_native_place_ioc (demo_lighter ''{\"code\":200,\"tx_hash\":\"\"}'') demo_ioc demo_native_world
     = (Inl ''failed to parse string field'', w')"
proof -
  let ?body = "''{\"code\":200,\"tx_hash\":\"\"}''"
  have b: "tx_response_ok ?body" "contains ?body ''tx_hash''" "rx_quoted ''tx_hash'' ?body = None"
    by (simp_all add: tx_response_ok_def contains_def find_from_zero rx_quoted_def key_lit_def lit_class_def)
  have "find_from ''{}'' (''\"market_id\":'' @ int_string (lc_market_index (nl_config (lw_native demo_native_world)))) 0 = None"
    by (simp add: find_from_zero)
  from ioc_throws_after_sending [OF _ demo_ready _ _ this _ _ b, of demo_ioc "demo_lighter ?body"]
  show ?thesis by (auto simp: demo_ioc_def)
qed

end
