(* ===== verification/Systems.thy ===== *)
theory Systems
  imports Prelude
begin

text \<open>
  The interface by which the concurrent components are verified: a step relation with its
  initial states, an invariant that every step keeps, and, for a component with an abstract
  contract, the map to the contract's states under which a step is a step of the contract or
  changes nothing there.
\<close>

locale step_invariant =
  fixes initial :: "'s \<Rightarrow> bool"
    and step :: "'s \<Rightarrow> 's \<Rightarrow> bool"
    and inv :: "'s \<Rightarrow> bool"
  assumes inv_initial: "initial s \<Longrightarrow> inv s"
    and inv_step: "inv s \<Longrightarrow> step s t \<Longrightarrow> inv t"
begin

lemma inv_steps: "step\<^sup>*\<^sup>* s t \<Longrightarrow> inv s \<Longrightarrow> inv t"
  by (induction rule: rtranclp_induct) (blast intro: inv_step)+

lemma inv_reachable: "initial s \<Longrightarrow> step\<^sup>*\<^sup>* s t \<Longrightarrow> inv t"
  by (rule inv_steps [OF _ inv_initial])

end

locale step_refinement = step_invariant +
  fixes abstract :: "'s \<Rightarrow> 'a"
    and spec :: "'a \<Rightarrow> 'a \<Rightarrow> bool"
  assumes simulates: "inv s \<Longrightarrow> step s t \<Longrightarrow> spec\<^sup>=\<^sup>= (abstract s) (abstract t)"
begin

lemma refines: "initial s \<Longrightarrow> step\<^sup>*\<^sup>* s t \<Longrightarrow> spec\<^sup>*\<^sup>* (abstract s) (abstract t)"
proof -
  assume init: "initial s" and run: "step\<^sup>*\<^sup>* s t"
  from run init show ?thesis
  proof (induction rule: rtranclp_induct)
    case base
    show ?case by simp
  next
    case (step u v)
    then have "spec\<^sup>=\<^sup>= (abstract u) (abstract v)"
      using simulates [of u v] inv_reachable [of s u] by simp
    with step.IH [OF step.prems] show ?case by auto
  qed
qed

end

end
