(* ===== verification/Ws_Post.thy ===== *)
theory Ws_Post
  imports Text Exchange Engine_Hl Systems
begin

text \<open>
  \<open>src/hl_ws_post.cpp\<close>: Hyperliquid actions sent over a websocket as numbered requests.
  First the parsing of an answer, then the transport as a step relation over the threads that
  share it: any number of callers of \<open>post_action\<close>, and the IO thread of the connection, which
  runs \<open>on_message\<close> and \<open>on_disconnect\<close>.  A step is one critical section; the two kinds of
  mutex are explicit where a thread holds one while it waits for another.
\<close>

section \<open>Answers\<close>

text \<open>An exception of \<open>stoull\<close> leaves \<open>parse_post_id\<close>.\<close>

definition parse_post_id :: "string \<Rightarrow> string + u64 option" where
  "parse_post_id msg =
     (if \<not> contains msg ''\"channel\":\"post\"'' then Inr None
      else case find_from msg ''\"id\":'' 0 of
        None \<Rightarrow> Inr None
      | Some p \<Rightarrow>
          (let ds = takeWhile is_digit (dropWhile (\<lambda>c. c = CHR '' '') (drop (p + 5) msg))
           in if ds = [] then Inr None
              else case stoull ds of Inl e \<Rightarrow> Inl e | Inr n \<Rightarrow> Inr (Some n)))"

text \<open>The position of the quote that ends a string, and of the bracket that closes the first.\<close>

fun string_end :: "bool \<Rightarrow> string \<Rightarrow> nat option" where
  "string_end escaped [] = None"
| "string_end escaped (c # s) =
     (if escaped then map_option Suc (string_end False s)
      else if c = CHR 0x5C then map_option Suc (string_end True s)
      else if c = CHR 0x22 then Some 0
      else map_option Suc (string_end False s))"

fun bracket_end :: "char \<Rightarrow> char \<Rightarrow> int \<Rightarrow> bool \<Rightarrow> bool \<Rightarrow> string \<Rightarrow> nat option" where
  "bracket_end opn cls depth in_string escaped [] = None"
| "bracket_end opn cls depth in_string escaped (c # s) =
     (if in_string then
        map_option Suc
          (if escaped then bracket_end opn cls depth True False s
           else if c = CHR 0x5C then bracket_end opn cls depth True True s
           else if c = CHR 0x22 then bracket_end opn cls depth False escaped s
           else bracket_end opn cls depth True escaped s)
      else if c = CHR 0x22 then map_option Suc (bracket_end opn cls depth True escaped s)
      else if c = opn then map_option Suc (bracket_end opn cls (depth + 1) False escaped s)
      else if c = cls then
        (if depth - 1 = 0 then Some 0 else map_option Suc (bracket_end opn cls (depth - 1) False escaped s))
      else map_option Suc (bracket_end opn cls depth False escaped s))"

definition json_value_at :: "string \<Rightarrow> string option" where
  "json_value_at t =
     (if t = [] then None
      else if hd t = CHR 0x22 then map_option (\<lambda>n. take (n + 2) t) (string_end False (tl t))
      else if hd t = CHR ''{'' \<or> hd t = CHR ''['' then
        map_option (\<lambda>n. take (n + 1) t)
          (bracket_end (hd t) (if hd t = CHR ''{'' then CHR ''}'' else CHR '']'') 0 False False t)
      else Some (takeWhile (\<lambda>c. c \<noteq> CHR '','' \<and> c \<noteq> CHR ''}'' \<and> c \<noteq> CHR '']'') t))"

definition extract_json_value :: "string \<Rightarrow> string \<Rightarrow> string option" where
  "extract_json_value msg key = (case find_from msg key 0 of
     None \<Rightarrow> None
   | Some p \<Rightarrow> json_value_at (dropWhile (\<lambda>c. c = CHR '' '' \<or> c = CHR '':'') (drop (p + length key) msg)))"

definition make_error_body :: "string \<Rightarrow> string" where
  "make_error_body message = ''{\"status\":\"error\",\"error\":\"'' @ message @ ''\"}''"

definition lost_body :: "string \<Rightarrow> string" where
  "lost_body reason = make_error_body (''ws_disconnect_'' @ reason)"

definition answer_body :: "string \<Rightarrow> string" where
  "answer_body msg = (case extract_json_value msg ''\"type\"'' of
     None \<Rightarrow> make_error_body ''ws_post_missing_payload''
   | Some t \<Rightarrow>
       (if t = ''\"error\"'' then
          (case extract_json_value msg ''\"payload\"'' of
             Some p \<Rightarrow> make_error_body p
           | None \<Rightarrow> make_error_body ''ws_post_error'')
        else (case extract_json_value msg ''\"payload\"'' of
             Some p \<Rightarrow> p
           | None \<Rightarrow> make_error_body ''ws_post_missing_payload'')))"

section \<open>The transport\<close>

record action_result =
  ar_body :: string
  ar_send_call_latency_ms :: double
  ar_send_to_response_rx_latency_ms :: double
  ar_response_rx_to_unblock_latency_ms :: double

record pending_response =
  pr_ready :: bool
  pr_body :: string
  pr_rx_ns :: u64

definition fresh_response :: pending_response where
  "fresh_response = \<lparr>pr_ready = False, pr_body = [], pr_rx_ns = 0\<rparr>"

text \<open>
  Where a caller of \<open>post_action\<close> is.  The number is the id of its request, the \<open>nat\<close> the
  shared response (its place in the heap).  In \<open>TimedOut\<close> it holds the response's mutex.
\<close>

datatype caller =
    Idle
  | Registering u64 nat string
  | Sending u64 nat string
  | Waiting u64 nat u64 u64         \<comment> \<open>with the times before and after the send\<close>
  | TimedOut u64 nat u64 u64
  | Returned u64 action_result

text \<open>
  Where the IO thread is: between handlers, after taking a response out of the map, or in
  \<open>on_disconnect\<close> with the responses it still has to fail, where it holds the map's mutex.
\<close>

datatype io_thread =
    IoIdle
  | IoFound nat string
  | IoFailing string "nat list"
  | IoEnded string

record post_transport =
  pt_next_id :: u64
  pt_pending :: "(u64 \<times> nat) list"
  pt_heap :: "pending_response list"
  pt_callers :: "nat \<Rightarrow> caller"
  pt_io :: io_thread
  pt_sent :: "string list"          \<comment> \<open>what was given to the connection, newest first\<close>
  pt_received :: "string list"      \<comment> \<open>every message so far, newest first\<close>

definition post_initial :: "post_transport \<Rightarrow> bool" where
  "post_initial s \<longleftrightarrow> s = \<lparr>pt_next_id = 1, pt_pending = [], pt_heap = [], pt_callers = (\<lambda>_. Idle), pt_io = IoIdle,
     pt_sent = [], pt_received = []\<rparr>"

text \<open>Who holds the mutexes.\<close>

definition map_locked :: "post_transport \<Rightarrow> bool" where
  "map_locked s \<longleftrightarrow> (\<exists>reason todo. pt_io s = IoFailing reason todo)"

definition response_locked :: "nat \<Rightarrow> post_transport \<Rightarrow> bool" where
  "response_locked a s \<longleftrightarrow> (\<exists>c n t0 t1. pt_callers s c = TimedOut n a t0 t1)"

definition set_caller :: "nat \<Rightarrow> caller \<Rightarrow> post_transport \<Rightarrow> post_transport" where
  "set_caller c pc s = s\<lparr>pt_callers := (pt_callers s)(c := pc)\<rparr>"

definition post_request :: "u64 \<Rightarrow> string \<Rightarrow> string" where
  "post_request n payload = ''{\"method\":\"post\",\"id\":'' @ dec_string (unat n)
     @ '',\"request\":{\"type\":\"action\",\"payload\":'' @ payload @ ''}}''"

definition timeout_result :: "u64 \<Rightarrow> u64 \<Rightarrow> action_result" where
  "timeout_result t0 t1 = \<lparr>ar_body = make_error_body ''ws_post_timeout'', ar_send_call_latency_ms = ms_of_ns (t1 - t0),
     ar_send_to_response_rx_latency_ms = 0, ar_response_rx_to_unblock_latency_ms = 0\<rparr>"

definition ready_result :: "u64 \<Rightarrow> u64 \<Rightarrow> u64 \<Rightarrow> pending_response \<Rightarrow> action_result" where
  "ready_result t0 t1 unblock r = \<lparr>ar_body = pr_body r, ar_send_call_latency_ms = ms_of_ns (t1 - t0),
     ar_send_to_response_rx_latency_ms = gap_ms (pr_rx_ns r) t1,
     ar_response_rx_to_unblock_latency_ms = gap_ms unblock (pr_rx_ns r)\<rparr>"

definition emplace :: "'a \<Rightarrow> 'b \<Rightarrow> ('a \<times> 'b) list \<Rightarrow> ('a \<times> 'b) list" where
  "emplace k v m = (if map_of m k = None then (k, v) # m else m)"

definition erase :: "'a \<Rightarrow> ('a \<times> 'b) list \<Rightarrow> ('a \<times> 'b) list" where
  "erase k m = filter (\<lambda>(l, _). l \<noteq> k) m"

inductive post_step :: "post_transport \<Rightarrow> post_transport \<Rightarrow> bool" where
  take_id: "pt_callers s c = Idle \<or> pt_callers s c = Returned i r \<Longrightarrow>
     post_step s (set_caller c (Registering (pt_next_id s) (length (pt_heap s)) payload)
       (s\<lparr>pt_next_id := pt_next_id s + 1, pt_heap := pt_heap s @ [fresh_response]\<rparr>))"
| register: "pt_callers s c = Registering n a payload \<Longrightarrow> \<not> map_locked s \<Longrightarrow>
     post_step s (set_caller c (Sending n a payload) (s\<lparr>pt_pending := emplace n a (pt_pending s)\<rparr>))"
| send: "pt_callers s c = Sending n a payload \<Longrightarrow>
     post_step s (set_caller c (Waiting n a t0 t1) (s\<lparr>pt_sent := post_request n payload # pt_sent s\<rparr>))"
| wake: "pt_callers s c = Waiting n a t0 t1 \<Longrightarrow> \<not> response_locked a s \<Longrightarrow> pr_ready (pt_heap s ! a) \<Longrightarrow>
     post_step s (set_caller c (Returned n (ready_result t0 t1 unblock (pt_heap s ! a))) s)"
| expire: "pt_callers s c = Waiting n a t0 t1 \<Longrightarrow> \<not> response_locked a s \<Longrightarrow> \<not> pr_ready (pt_heap s ! a) \<Longrightarrow>
     post_step s (set_caller c (TimedOut n a t0 t1) s)"
| give_up: "pt_callers s c = TimedOut n a t0 t1 \<Longrightarrow> \<not> map_locked s \<Longrightarrow>
     post_step s (set_caller c (Returned n (timeout_result t0 t1)) (s\<lparr>pt_pending := erase n (pt_pending s)\<rparr>))"
| ignore_message: "pt_io s = IoIdle \<Longrightarrow> parse_post_id msg = Inr None \<Longrightarrow>
     post_step s (s\<lparr>pt_received := msg # pt_received s\<rparr>)"
| bad_message: "pt_io s = IoIdle \<Longrightarrow> parse_post_id msg = Inl e \<Longrightarrow>
     post_step s (s\<lparr>pt_received := msg # pt_received s, pt_io := IoEnded e\<rparr>)"
| unknown_id: "pt_io s = IoIdle \<Longrightarrow> parse_post_id msg = Inr (Some n) \<Longrightarrow> map_of (pt_pending s) n = None \<Longrightarrow>
     post_step s (s\<lparr>pt_received := msg # pt_received s\<rparr>)"
| take_response: "pt_io s = IoIdle \<Longrightarrow> parse_post_id msg = Inr (Some n) \<Longrightarrow> map_of (pt_pending s) n = Some a \<Longrightarrow>
     post_step s (s\<lparr>pt_received := msg # pt_received s, pt_pending := erase n (pt_pending s),
       pt_io := IoFound a (answer_body msg)\<rparr>)"
| deliver: "pt_io s = IoFound a body \<Longrightarrow> \<not> response_locked a s \<Longrightarrow>
     post_step s (s\<lparr>pt_heap := (pt_heap s)[a := \<lparr>pr_ready = True, pr_body = body, pr_rx_ns = now\<rparr>],
       pt_io := IoIdle\<rparr>)"
| lose: "pt_io s = IoIdle \<Longrightarrow> distinct todo \<Longrightarrow> set todo = snd ` set (pt_pending s) \<Longrightarrow>
     post_step s (s\<lparr>pt_io := IoFailing reason todo\<rparr>)"
| fail_one: "pt_io s = IoFailing reason (a # todo) \<Longrightarrow> \<not> response_locked a s \<Longrightarrow>
     post_step s (s\<lparr>pt_heap := (pt_heap s)[a := (pt_heap s ! a)
         \<lparr>pr_body := lost_body reason, pr_ready := True\<rparr>],
       pt_io := IoFailing reason todo\<rparr>)"
| forget_all: "pt_io s = IoFailing reason [] \<Longrightarrow>
     post_step s (s\<lparr>pt_pending := [], pt_io := IoIdle\<rparr>)"

inductive_cases post_stepE: "post_step s t"

end
