(* ===== verification/Ws_Post_Safety.thy ===== *)
theory Ws_Post_Safety
  imports Ws_Post
begin

text \<open>
  The transport of \<open>Ws_Post\<close> implements its contract (an answer settles the request whose
  number it carries, and no other), a call returns as long as no connection is being lost,
  and the loss of a connection at the wrong moment deadlocks the transport.
\<close>

section \<open>The contract\<close>

datatype request = NoRequest | Open u64 | Settled u64 string

text \<open>How a request may end: by the time limit, by a loss of the connection, or by the body
  of a message that carries its number.\<close>

definition outcome :: "string list \<Rightarrow> u64 \<Rightarrow> string \<Rightarrow> bool" where
  "outcome received n body \<longleftrightarrow>
     body = make_error_body ''ws_post_timeout''
     \<or> (\<exists>reason. body = lost_body reason)
     \<or> (\<exists>msg \<in> set received. parse_post_id msg = Inr (Some n) \<and> body = answer_body msg)"

text \<open>The contract's state: the next number, each caller's request, the messages so far.\<close>

type_synonym post_contract = "u64 \<times> (nat \<Rightarrow> request) \<times> string list"

inductive contract_step :: "post_contract \<Rightarrow> post_contract \<Rightarrow> bool" where
  ask: "(\<forall>m. rs c \<noteq> Open m) \<Longrightarrow> contract_step (n, rs, ms) (n + 1, rs(c := Open n), ms)"
| settle: "rs c = Open n \<Longrightarrow> outcome ms n body \<Longrightarrow> contract_step (m, rs, ms) (m, rs(c := Settled n body), ms)"
| hear: "contract_step (n, rs, ms) (n, rs, msg # ms)"

fun request_of :: "caller \<Rightarrow> request" where
  "request_of Idle = NoRequest"
| "request_of (Registering n a payload) = Open n"
| "request_of (Sending n a payload) = Open n"
| "request_of (Waiting n a t0 t1) = Open n"
| "request_of (TimedOut n a t0 t1) = Open n"
| "request_of (Returned n r) = Settled n (ar_body r)"

definition contract_of :: "post_transport \<Rightarrow> post_contract" where
  "contract_of s = (pt_next_id s, request_of \<circ> pt_callers s, pt_received s)"

section \<open>The invariant\<close>

fun response_of :: "caller \<Rightarrow> (u64 \<times> nat) option" where
  "response_of Idle = None"
| "response_of (Registering n a payload) = Some (n, a)"
| "response_of (Sending n a payload) = Some (n, a)"
| "response_of (Waiting n a t0 t1) = Some (n, a)"
| "response_of (TimedOut n a t0 t1) = Some (n, a)"
| "response_of (Returned n r) = None"

text \<open>\<open>f\<close> tells the request of each response.  Every reference to a response is to one of the
  heap and with the request it was created for, no two callers share one, and its body is an
  outcome of that request.\<close>

definition io_refs :: "io_thread \<Rightarrow> nat set" where
  "io_refs io = (case io of IoFound a body \<Rightarrow> {a} | IoFailing reason todo \<Rightarrow> set todo | _ \<Rightarrow> {})"

definition in_heap :: "(nat \<Rightarrow> u64) \<Rightarrow> post_transport \<Rightarrow> u64 \<times> nat \<Rightarrow> bool" where
  "in_heap f s = (\<lambda>(n, a). f a = n \<and> a < length (pt_heap s))"

definition own_responses :: "post_transport \<Rightarrow> bool" where
  "own_responses s \<longleftrightarrow> (\<forall>c d n m a. response_of (pt_callers s c) = Some (n, a)
     \<longrightarrow> response_of (pt_callers s d) = Some (m, a) \<longrightarrow> c = d)"

definition post_inv_for :: "(nat \<Rightarrow> u64) \<Rightarrow> post_transport \<Rightarrow> bool" where
  "post_inv_for f s \<longleftrightarrow>
     (\<forall>na \<in> set (pt_pending s). in_heap f s na)
     \<and> (\<forall>c na. response_of (pt_callers s c) = Some na \<longrightarrow> in_heap f s na)
     \<and> own_responses s
     \<and> (\<forall>a \<in> io_refs (pt_io s). a < length (pt_heap s))
     \<and> (\<forall>a body. pt_io s = IoFound a body \<longrightarrow> outcome (pt_received s) (f a) body)
     \<and> (\<forall>a < length (pt_heap s). pr_ready (pt_heap s ! a) \<longrightarrow> outcome (pt_received s) (f a) (pr_body (pt_heap s ! a)))"

definition post_inv :: "post_transport \<Rightarrow> bool" where
  "post_inv s \<longleftrightarrow> (\<exists>f. post_inv_for f s)"

lemma outcome_more: "outcome ms n body \<Longrightarrow> outcome (m # ms) n body"
  by (auto simp: outcome_def)

lemma outcome_lost: "outcome ms n (lost_body reason)"
  by (auto simp: outcome_def)

lemma outcome_answer: "parse_post_id msg = Inr (Some n) \<Longrightarrow> outcome (msg # ms) n (answer_body msg)"
  by (auto simp: outcome_def)

lemma post_inv_initial: "post_initial s \<Longrightarrow> post_inv s"
  by (auto simp: post_initial_def post_inv_def post_inv_for_def io_refs_def own_responses_def)

lemmas post_inv_defs = post_inv_for_def in_heap_def io_refs_def

lemma inv_set_caller:
  assumes "post_inv_for f s"
    and "response_of pc = None \<or> response_of pc = response_of (pt_callers s c)"
  shows "post_inv_for f (set_caller c pc s)"
proof -
  have "own_responses (set_caller c pc s)"
    using assms unfolding post_inv_for_def own_responses_def set_caller_def
    by (auto split: if_splits; metis)
  with assms show ?thesis by (auto simp: post_inv_defs set_caller_def)
qed

lemma inv_pending:
  "post_inv_for f s \<Longrightarrow> \<forall>na \<in> set p - set (pt_pending s). in_heap f s na \<Longrightarrow> post_inv_for f (s\<lparr>pt_pending := p\<rparr>)"
  by (auto simp: post_inv_defs own_responses_def)

lemma inv_received: "post_inv_for f s \<Longrightarrow> post_inv_for f (s\<lparr>pt_received := msg # pt_received s\<rparr>)"
  by (auto simp: post_inv_defs own_responses_def intro: outcome_more)

lemma inv_sent: "post_inv_for f s \<Longrightarrow> post_inv_for f (s\<lparr>pt_sent := x\<rparr>)"
  by (auto simp: post_inv_defs own_responses_def)

lemma inv_io:
  "post_inv_for f s \<Longrightarrow> \<forall>a \<in> io_refs io. a < length (pt_heap s)
   \<Longrightarrow> (\<And>a body. io = IoFound a body \<Longrightarrow> outcome (pt_received s) (f a) body)
   \<Longrightarrow> post_inv_for f (s\<lparr>pt_io := io\<rparr>)"
  by (auto simp: post_inv_defs own_responses_def)

lemma inv_heap:
  "post_inv_for f s \<Longrightarrow> a < length (pt_heap s) \<Longrightarrow> outcome (pt_received s) (f a) (pr_body r)
   \<Longrightarrow> post_inv_for f (s\<lparr>pt_heap := (pt_heap s)[a := r]\<rparr>)"
  by (auto simp: post_inv_defs own_responses_def nth_list_update)

lemma inv_take_id:
  assumes inv: "post_inv_for f s"
  shows "post_inv_for (f(length (pt_heap s) := n))
    (set_caller c (Registering n (length (pt_heap s)) payload)
      (s\<lparr>pt_next_id := m, pt_heap := pt_heap s @ [fresh_response]\<rparr>))"
proof -
  have own: "own_responses s" and "\<And>c n. response_of (pt_callers s c) \<noteq> Some (n, length (pt_heap s))"
    using inv by (fastforce simp: post_inv_defs)+
  then have "own_responses (set_caller c (Registering n (length (pt_heap s)) payload)
      (s\<lparr>pt_next_id := m, pt_heap := pt_heap s @ [fresh_response]\<rparr>))"
    unfolding own_responses_def set_caller_def by (auto split: if_splits)
  with inv show ?thesis
    by (fastforce simp: post_inv_defs set_caller_def fresh_response_def nth_append less_Suc_eq)
qed

lemma post_inv_step: "post_inv s \<Longrightarrow> post_step s t \<Longrightarrow> post_inv t"
proof -
  assume "post_inv s" and step: "post_step s t"
  then obtain f where inv: "post_inv_for f s" by (auto simp: post_inv_def)
  have heap: "in_heap f s na" if "response_of (pt_callers s c) = Some na" for c na
    using inv that unfolding post_inv_for_def by blast
  have pend: "in_heap f s na" if "na \<in> set (pt_pending s)" for na
    using inv that unfolding post_inv_for_def by blast
  from step show "post_inv t"
  proof cases
    case take_id
    then show ?thesis unfolding post_inv_def using inv_take_id [OF inv] by blast
  next
    case (register c n a payload)
    have "post_inv_for f (s\<lparr>pt_pending := emplace n a (pt_pending s)\<rparr>)"
      by (rule inv_pending [OF inv]) (use heap [of c] register in \<open>auto simp: emplace_def\<close>)
    then show ?thesis
      using register by (auto simp: post_inv_def intro!: exI [of _ f] inv_set_caller)
  next
    case (give_up c n a t0 t1)
    have "post_inv_for f (s\<lparr>pt_pending := erase n (pt_pending s)\<rparr>)"
      by (rule inv_pending [OF inv]) (auto simp: erase_def)
    then show ?thesis
      using give_up by (auto simp: post_inv_def intro!: exI [of _ f] inv_set_caller)
  next
    case (take_response msg n a)
    have "in_heap f s (n, a)" using take_response by (auto intro!: pend dest: map_of_SomeD)
    let ?s = "s\<lparr>pt_received := msg # pt_received s, pt_pending := erase n (pt_pending s)\<rparr>"
    have "post_inv_for f ?s"
      by (rule inv_pending [OF inv_received [OF inv]]) (auto simp: erase_def)
    then have "post_inv_for f (?s\<lparr>pt_io := IoFound a (answer_body msg)\<rparr>)"
      by (rule inv_io) (use \<open>in_heap f s (n, a)\<close> take_response in \<open>auto simp: in_heap_def io_refs_def outcome_answer\<close>)
    then show ?thesis using take_response by (auto simp: post_inv_def)
  next
    case (deliver a body now)
    let ?r = "\<lparr>pr_ready = True, pr_body = body, pr_rx_ns = now\<rparr>"
    have "post_inv_for f (s\<lparr>pt_heap := (pt_heap s)[a := ?r]\<rparr>)"
      by (rule inv_heap [OF inv]) (use inv deliver in \<open>auto simp: post_inv_for_def io_refs_def\<close>)
    then have "post_inv_for f (s\<lparr>pt_heap := (pt_heap s)[a := ?r]\<rparr>\<lparr>pt_io := IoIdle\<rparr>)"
      by (rule inv_io) (auto simp: io_refs_def)
    then show ?thesis using deliver by (auto simp: post_inv_def)
  next
    case (lose todo reason)
    have "post_inv_for f (s\<lparr>pt_io := IoFailing reason todo\<rparr>)"
      by (rule inv_io [OF inv]) (use lose pend in \<open>auto simp: io_refs_def in_heap_def\<close>)
    then show ?thesis using lose by (auto simp: post_inv_def)
  next
    case (fail_one reason a todo)
    let ?r = "(pt_heap s ! a)\<lparr>pr_body := lost_body reason, pr_ready := True\<rparr>"
    have "post_inv_for f (s\<lparr>pt_heap := (pt_heap s)[a := ?r]\<rparr>)"
      by (rule inv_heap [OF inv]) (use inv fail_one in \<open>simp_all add: post_inv_for_def io_refs_def outcome_lost\<close>)
    then have "post_inv_for f (s\<lparr>pt_heap := (pt_heap s)[a := ?r]\<rparr>\<lparr>pt_io := IoFailing reason todo\<rparr>)"
      by (rule inv_io) (use inv fail_one in \<open>auto simp: post_inv_for_def io_refs_def\<close>)
    then show ?thesis using fail_one by (auto simp: post_inv_def)
  next
    case forget_all
    have "post_inv_for f (s\<lparr>pt_pending := []\<rparr>\<lparr>pt_io := IoIdle\<rparr>)"
      by (rule inv_io [OF inv_pending [OF inv]]) (auto simp: io_refs_def)
    then show ?thesis using forget_all by (auto simp: post_inv_def)
  next
    case (bad_message msg e)
    have "post_inv_for f (s\<lparr>pt_received := msg # pt_received s\<rparr>\<lparr>pt_io := IoEnded e\<rparr>)"
      by (rule inv_io [OF inv_received [OF inv]]) (auto simp: io_refs_def)
    then show ?thesis using bad_message by (auto simp: post_inv_def)
  qed (use inv in \<open>auto simp: post_inv_def intro!: exI [of _ f] inv_set_caller inv_sent inv_received\<close>)
qed


section \<open>The transport implements its contract\<close>

lemma contract_set_caller:
  "contract_of (set_caller c pc s) = (pt_next_id s, (request_of \<circ> pt_callers s)(c := request_of pc), pt_received s)"
  by (auto simp: contract_of_def set_caller_def fun_eq_iff)

lemma contract_unchanged:
  "request_of pc = request_of (pt_callers s c) \<Longrightarrow> contract_of (set_caller c pc s) = contract_of s"
  by (auto simp: contract_of_def set_caller_def fun_eq_iff)

lemma contract_updates [simp]:
  "contract_of (s\<lparr>pt_pending := p\<rparr>) = contract_of s"
  "contract_of (s\<lparr>pt_heap := h\<rparr>) = contract_of s"
  "contract_of (s\<lparr>pt_io := io\<rparr>) = contract_of s"
  "contract_of (s\<lparr>pt_sent := x\<rparr>) = contract_of s"
  by (simp_all add: contract_of_def)

lemma contract_settle:
  assumes "request_of (pt_callers s c) = Open n" and "outcome (pt_received s) n (ar_body r)"
  shows "contract_step (contract_of s) (contract_of (set_caller c (Returned n r) s))"
  unfolding contract_set_caller using assms by (auto simp: contract_of_def intro!: settle)

lemma contract_hear: "contract_step (contract_of s) (contract_of (s\<lparr>pt_received := msg # pt_received s\<rparr>))"
  by (auto simp: contract_of_def intro: hear)

lemma post_simulates: "post_inv s \<Longrightarrow> post_step s t \<Longrightarrow> contract_step\<^sup>=\<^sup>= (contract_of s) (contract_of t)"
proof -
  assume "post_inv s" and step: "post_step s t"
  then obtain f where inv: "post_inv_for f s" by (auto simp: post_inv_def)
  from step show ?thesis
  proof cases
    case (take_id c i r payload)
    have "contract_step (contract_of s) (contract_of t)"
      unfolding take_id(1) contract_set_caller using take_id(2)
      by (auto simp: contract_of_def intro!: ask)
    then show ?thesis by simp
  next
    case (wake c n a t0 t1 unblock)
    then have "response_of (pt_callers s c) = Some (n, a)" by simp
    then have "in_heap f s (n, a)" using inv unfolding post_inv_for_def by blast
    then have "outcome (pt_received s) n (ar_body (ready_result t0 t1 unblock (pt_heap s ! a)))"
      using inv wake by (auto simp: post_inv_for_def in_heap_def ready_result_def)
    then show ?thesis using wake by (auto intro: contract_settle)
  next
    case (give_up c n a t0 t1)
    then show ?thesis
      using contract_settle [of "s\<lparr>pt_pending := erase n (pt_pending s)\<rparr>" c n "timeout_result t0 t1"]
      by (auto simp: outcome_def timeout_result_def)
  qed (auto simp: contract_unchanged intro: contract_hear)
qed

interpretation post: step_refinement post_initial post_step post_inv contract_of contract_step
  by unfold_locales (erule post_inv_initial, erule (1) post_inv_step, erule (1) post_simulates)

text \<open>C26: The transport refines the contract of \<open>post_action\<close>: in every run, whatever its callers and
  its IO thread do and in whatever order they take their mutexes, time out or lose the connection, what
  the callers see is a run of the contract.  There the calls get consecutive ids, each open call returns
  once, and with an outcome that belongs to its own id: the answer of a message received that names
  the id, a lost connection, or a timeout.\<close>

theorem post_action_refines_contract:
  assumes "post_initial s" and "post_step\<^sup>*\<^sup>* s t"
  shows "contract_step\<^sup>*\<^sup>* (1, \<lambda>_. NoRequest, []) (contract_of t)"
  using post.refines [OF assms] assms(1) by (simp add: post_initial_def contract_of_def comp_def)


section \<open>Calls return\<close>

text \<open>A caller can finish by steps of its own.\<close>

definition can_return :: "nat \<Rightarrow> u64 \<Rightarrow> post_transport \<Rightarrow> bool" where
  "can_return c n s \<longleftrightarrow>
     (\<exists>t r. post_step\<^sup>*\<^sup>* s t \<and> pt_callers t = (pt_callers s)(c := Returned n r) \<and> pt_io t = pt_io s)"

lemma can_return_one:
  "post_step s (set_caller c (Returned n r) s') \<Longrightarrow> pt_callers s' = pt_callers s \<Longrightarrow> pt_io s' = pt_io s \<Longrightarrow> can_return c n s"
  unfolding can_return_def
  by (intro exI [of _ "set_caller c (Returned n r) s'"] exI [of _ r]) (auto simp: set_caller_def)

lemma can_return_after:
  assumes "post_step s t" and "pt_callers t = (pt_callers s)(c := pc)" and "pt_io t = pt_io s" and "can_return c n t"
  shows "can_return c n s"
proof -
  obtain u r where "post_step\<^sup>*\<^sup>* t u" "pt_callers u = (pt_callers t)(c := Returned n r)" "pt_io u = pt_io t"
    using assms(4) by (auto simp: can_return_def)
  with assms(1-3) show ?thesis
    unfolding can_return_def by (intro exI [of _ u] exI [of _ r]) (auto intro: converse_rtranclp_into_rtranclp)
qed

lemma timed_out_returns: "pt_callers s c = TimedOut n a t0 t1 \<Longrightarrow> \<not> map_locked s \<Longrightarrow> can_return c n s"
  by (rule can_return_one, rule give_up) auto

lemma waiting_returns:
  assumes "post_inv s" and pc: "pt_callers s c = Waiting n a t0 t1" and free: "\<not> map_locked s"
  shows "can_return c n s"
proof -
  have "own_responses s" using assms(1) by (auto simp: post_inv_def post_inv_for_def)
  have unlocked: "\<not> response_locked a s"
  proof
    assume "response_locked a s"
    then obtain d m u0 u1 where d: "pt_callers s d = TimedOut m a u0 u1" by (auto simp: response_locked_def)
    with \<open>own_responses s\<close> [unfolded own_responses_def, rule_format, of c n a d m] pc have "c = d" by simp
    with d pc show False by simp
  qed
  show ?thesis
  proof (cases "pr_ready (pt_heap s ! a)")
    case True
    show ?thesis by (rule can_return_one, rule wake [OF pc unlocked True]) auto
  next
    case False
    show ?thesis
      by (rule can_return_after [OF expire [OF pc unlocked False]])
        (use free in \<open>auto simp: set_caller_def map_locked_def intro!: timed_out_returns\<close>)
  qed
qed

lemma sending_returns:
  assumes "post_inv s" and pc: "pt_callers s c = Sending n a payload" and free: "\<not> map_locked s"
  shows "can_return c n s"
proof -
  note step = send [OF pc, of 0 0]
  show ?thesis
    by (rule can_return_after [OF step])
      (use free post_inv_step [OF assms(1) step] in \<open>auto simp: set_caller_def map_locked_def intro!: waiting_returns\<close>)
qed

lemma registering_returns:
  assumes "post_inv s" and pc: "pt_callers s c = Registering n a payload" and free: "\<not> map_locked s"
  shows "can_return c n s"
proof -
  note step = register [OF pc free]
  show ?thesis
    by (rule can_return_after [OF step])
      (use free post_inv_step [OF assms(1) step] in \<open>auto simp: set_caller_def map_locked_def intro!: sending_returns\<close>)
qed

text \<open>C27: Unless the IO thread is failing the requests of a lost connection, every call of
  \<open>post_action\<close> can return, within its time limit, by steps of its own thread alone, whatever
  the other callers and the IO thread are doing.\<close>

theorem post_action_returns:
  assumes "post_initial s0" and "post_step\<^sup>*\<^sup>* s0 s" and "\<forall>reason todo. pt_io s \<noteq> IoFailing reason todo"
    and "request_of (pt_callers s c) = Open n"
  shows "\<exists>t r. post_step\<^sup>*\<^sup>* s t \<and> pt_callers t = (pt_callers s)(c := Returned n r) \<and> pt_io t = pt_io s"
proof -
  have inv: "post_inv s" using post.inv_reachable assms(1,2) .
  have free: "\<not> map_locked s" using assms(3) by (simp add: map_locked_def)
  have "can_return c n s"
    using assms(4) registering_returns [OF inv _ free] sending_returns [OF inv _ free]
      waiting_returns [OF inv _ free] timed_out_returns [OF _ free]
    by (cases "pt_callers s c") auto
  then show ?thesis by (simp add: can_return_def)
qed

section \<open>The deadlock\<close>

definition unregistered :: "caller \<Rightarrow> bool" where
  "unregistered pc \<longleftrightarrow> (case pc of Idle \<Rightarrow> True | Registering n a payload \<Rightarrow> True | _ \<Rightarrow> False)"

definition stuck :: "nat \<Rightarrow> nat \<Rightarrow> post_transport \<Rightarrow> bool" where
  "stuck c a s \<longleftrightarrow> (\<exists>n t0 t1 reason todo. pt_callers s c = TimedOut n a t0 t1 \<and> pt_io s = IoFailing reason (a # todo))"

lemma stuck_step:
  assumes "stuck c a s" and "post_step s t"
  shows "stuck c a t \<and> pt_callers t c = pt_callers s c \<and> pt_io t = pt_io s
    \<and> (\<forall>d. unregistered (pt_callers s d) \<longrightarrow> unregistered (pt_callers t d))"
  using assms(2)
  by cases (use assms(1) in \<open>auto simp: stuck_def unregistered_def set_caller_def map_locked_def response_locked_def\<close>)

text \<open>C28: The two mutexes are taken in opposite orders: a caller whose request has timed out holds
  its response's mutex and waits for the map's, while \<open>on_disconnect\<close> holds the map's and waits
  for the response's.  When a connection is lost in between, neither ever goes on: the call does
  not return, the IO thread handles nothing any more, and no later call gets past its beginning.\<close>

theorem lost_connection_deadlocks:
  assumes "pt_callers s c = TimedOut n a t0 t1" and "pt_io s = IoFailing reason (a # todo)"
    and "post_step\<^sup>*\<^sup>* s t"
  shows "pt_callers t c = TimedOut n a t0 t1 \<and> pt_io t = IoFailing reason (a # todo)
    \<and> (\<forall>d. unregistered (pt_callers s d) \<longrightarrow> unregistered (pt_callers t d))"
  using assms(3)
proof (induction rule: rtranclp_induct)
  case (step u v)
  then show ?case using stuck_step [of c a u v] assms(1,2) by (auto simp: stuck_def)
qed (use assms in auto)


text \<open>A run into the deadlock: one call, no answer, and the connection lost after the time limit.\<close>

definition demo_initial :: post_transport where
  "demo_initial = \<lparr>pt_next_id = 1, pt_pending = [], pt_heap = [], pt_callers = (\<lambda>_. Idle), pt_io = IoIdle,
     pt_sent = [], pt_received = []\<rparr>"

lemma demo_sent:
  "post_step\<^sup>*\<^sup>* demo_initial (demo_initial\<lparr>pt_next_id := 2, pt_pending := [(1, 0)], pt_heap := [fresh_response],
     pt_callers := (\<lambda>_. Idle)(0 := Waiting 1 0 0 0), pt_sent := [post_request 1 payload]\<rparr>)"
proof -
  let ?s1 = "set_caller 0 (Registering 1 0 payload) (demo_initial\<lparr>pt_next_id := 2, pt_heap := [fresh_response]\<rparr>)"
  let ?s2 = "set_caller 0 (Sending 1 0 payload) (?s1\<lparr>pt_pending := [(1, 0)]\<rparr>)"
  have "post_step\<^sup>*\<^sup>* demo_initial ?s1"
    by (rule r_into_rtranclp)
      (use take_id [of demo_initial 0 0 undefined payload] in \<open>simp add: demo_initial_def\<close>)
  also have "post_step\<^sup>*\<^sup>* ?s1 ?s2"
    by (rule r_into_rtranclp)
      (use register [of ?s1 0 1 0 payload] in \<open>simp add: set_caller_def demo_initial_def map_locked_def emplace_def\<close>)
  also have "post_step\<^sup>*\<^sup>* ?s2 (set_caller 0 (Waiting 1 0 0 0) (?s2\<lparr>pt_sent := [post_request 1 payload]\<rparr>))"
    by (rule r_into_rtranclp)
      (use send [of ?s2 0 1 0 payload 0 0] in \<open>simp add: set_caller_def demo_initial_def\<close>)
  finally show ?thesis by (simp add: set_caller_def demo_initial_def)
qed

lemma demo_deadlock:
  obtains s where "post_step\<^sup>*\<^sup>* demo_initial s" and "pt_callers s 0 = TimedOut 1 0 0 0"
    and "pt_io s = IoFailing ''eof'' [0]"
proof -
  define s where "s = demo_initial\<lparr>pt_next_id := 2, pt_pending := [(1, 0)], pt_heap := [fresh_response],
     pt_callers := (\<lambda>_. Idle)(0 := Waiting 1 0 0 0), pt_sent := [post_request 1 []]\<rparr>"
  let ?t = "set_caller 0 (TimedOut 1 0 0 0) s"
  have expired: "post_step\<^sup>*\<^sup>* s ?t"
    by (rule r_into_rtranclp, rule expire) (simp_all add: s_def demo_initial_def response_locked_def fresh_response_def)
  have lost: "post_step\<^sup>*\<^sup>* ?t (?t\<lparr>pt_io := IoFailing ''eof'' [0]\<rparr>)"
    by (rule r_into_rtranclp, rule lose) (simp_all add: s_def demo_initial_def set_caller_def)
  have sent: "post_step\<^sup>*\<^sup>* demo_initial s" unfolding s_def by (rule demo_sent)
  show thesis
    by (rule that [OF rtranclp_trans [OF sent rtranclp_trans [OF expired lost]]]) (simp_all add: set_caller_def)
qed

lemma demo_is_initial: "post_initial demo_initial"
  by (simp add: post_initial_def demo_initial_def)

theorem lost_connection_deadlocks_witness:
  "\<exists>s. post_step\<^sup>*\<^sup>* demo_initial s \<and> pt_io s = IoFailing ''eof'' [0]
     \<and> (\<forall>t. post_step\<^sup>*\<^sup>* s t \<longrightarrow> pt_callers t 0 = TimedOut 1 0 0 0)"
proof (rule demo_deadlock)
  fix s
  assume "post_step\<^sup>*\<^sup>* demo_initial s" "pt_callers s 0 = TimedOut 1 0 0 0" "pt_io s = IoFailing ''eof'' [0]"
  then show ?thesis using lost_connection_deadlocks [of s 0 1 0 0 0 "''eof''" "[]"] by blast
qed

theorem post_action_returns_witness:
  "\<exists>t r. post_step\<^sup>*\<^sup>* demo_initial t \<and> pt_callers t 0 = Returned 1 r"
proof -
  define s where "s = demo_initial\<lparr>pt_next_id := 2, pt_pending := [(1, 0)], pt_heap := [fresh_response],
     pt_callers := (\<lambda>_. Idle)(0 := Waiting 1 0 0 0), pt_sent := [post_request 1 []]\<rparr>"
  have run: "post_step\<^sup>*\<^sup>* demo_initial s" unfolding s_def by (rule demo_sent)
  have "\<exists>t r. post_step\<^sup>*\<^sup>* s t \<and> pt_callers t = (pt_callers s)(0 := Returned 1 r) \<and> pt_io t = pt_io s"
    by (rule post_action_returns [OF demo_is_initial run]) (simp_all add: s_def demo_initial_def)
  then obtain t r where "post_step\<^sup>*\<^sup>* s t" "pt_callers t 0 = Returned 1 r" by auto
  with run show ?thesis by (blast intro: rtranclp_trans)
qed

theorem post_action_refines_contract_witness:
  "\<exists>t. post_step\<^sup>*\<^sup>* demo_initial t \<and> contract_step\<^sup>*\<^sup>* (1, \<lambda>_. NoRequest, []) (contract_of t)
     \<and> request_of (pt_callers t 0) = Open 1"
proof -
  have "contract_step\<^sup>*\<^sup>* (1, \<lambda>_. NoRequest, []) (contract_of t)" if "post_step\<^sup>*\<^sup>* demo_initial t" for t
    by (rule post_action_refines_contract [OF demo_is_initial that])
  then show ?thesis using demo_sent [of "[]"] by (intro exI conjI) auto
qed

end
