(* ===== verification/Ws_Post_Answers.thy ===== *)
theory Ws_Post_Answers
  imports Ws_Post
begin

text \<open>
  What \<open>on_message\<close> of the transport reads in an answer of the documented form: the number of
  the request, and the payload as it was printed, whatever JSON value that is.
\<close>

section \<open>JSON texts\<close>

datatype json =
    Plain string                       \<comment> \<open>a number, \<open>true\<close>, \<open>false\<close> or \<open>null\<close>\<close>
  | Quoted string
  | Array "json list"
  | Object "(string \<times> json) list"

definition escape :: "char \<Rightarrow> string" where
  "escape c = (if c = CHR 0x22 \<or> c = CHR 0x5C then [CHR 0x5C, c] else [c])"

definition json_string :: "string \<Rightarrow> string" where
  "json_string s = CHR 0x22 # concat (map escape s) @ [CHR 0x22]"

fun joined :: "string list \<Rightarrow> string" where
  "joined [] = []"
| "joined [x] = x"
| "joined (x # y # xs) = x @ CHR '','' # joined (y # xs)"

fun json_text :: "json \<Rightarrow> string" where
  "json_text (Plain s) = s"
| "json_text (Quoted s) = json_string s"
| "json_text (Array vs) = CHR ''['' # joined (map json_text vs) @ '']''"
| "json_text (Object kvs) =
     CHR ''{'' # joined (map (\<lambda>(k, v). json_string k @ CHR '':'' # json_text v) kvs) @ ''}''"

definition plain_char :: "char \<Rightarrow> bool" where
  "plain_char c \<longleftrightarrow> c \<notin> set ''\"{}[],: '' \<and> c \<noteq> CHR 0x5C"

fun json_ok :: "json \<Rightarrow> bool" where
  "json_ok (Plain s) \<longleftrightarrow> s \<noteq> [] \<and> (\<forall>c \<in> set s. plain_char c)"
| "json_ok (Quoted s) \<longleftrightarrow> True"
| "json_ok (Array vs) \<longleftrightarrow> (\<forall>v \<in> set vs. json_ok v)"
| "json_ok (Object kvs) \<longleftrightarrow> (\<forall>kv \<in> set kvs. json_ok (snd kv))"

section \<open>Brackets\<close>

text \<open>A text that leaves the scan for the closing bracket where it was.\<close>

definition brackets :: "char \<Rightarrow> char \<Rightarrow> bool" where
  "brackets opn cls \<longleftrightarrow> (opn, cls) \<in> {(CHR ''{'', CHR ''}''), (CHR ''['', CHR '']'')}"

definition later :: "nat \<Rightarrow> nat option \<Rightarrow> nat option" where
  "later k = map_option ((+) k)"

lemma later_simps [simp]:
  "later 0 p = p" "map_option Suc p = later 1 p" "later k (later l p) = later (k + l) p" "later k (Some n) = Some (k + n)"
  by (cases p; simp add: later_def)+

definition skipped :: "char \<Rightarrow> char \<Rightarrow> string \<Rightarrow> bool" where
  "skipped opn cls x \<longleftrightarrow> (\<forall>d rest. 0 < d \<longrightarrow>
     bracket_end opn cls d False False (x @ rest)
       = later (length x) (bracket_end opn cls d False False rest))"

lemma skipped_Nil [simp]: "skipped opn cls []"
  by (simp add: skipped_def)

lemma skipped_append: "skipped opn cls x \<Longrightarrow> skipped opn cls y \<Longrightarrow> skipped opn cls (x @ y)"
  by (simp add: skipped_def)

lemma skipped_char:
  assumes "brackets opn cls" and "c \<notin> set ''\"{}[]''"
  shows "skipped opn cls [c]"
  using assms by (auto simp: skipped_def brackets_def)

lemma skipped_Cons: "brackets opn cls \<Longrightarrow> c \<notin> set ''\"{}[]'' \<Longrightarrow> skipped opn cls x \<Longrightarrow> skipped opn cls (c # x)"
  using skipped_append [OF skipped_char] by (metis append_Cons append_Nil)

lemma skipped_plain: "brackets opn cls \<Longrightarrow> \<forall>c \<in> set s. plain_char c \<Longrightarrow> skipped opn cls s"
proof (induction s)
  case (Cons c s)
  then have "c \<notin> set ''\"{}[]''" by (simp add: plain_char_def)
  with Cons show ?case by (intro skipped_Cons) simp_all
qed simp

lemma in_string_end:
  assumes "brackets opn cls"
  shows "bracket_end opn cls d True False (concat (map escape s) @ CHR 0x22 # rest)
    = later (length (concat (map escape s)) + 1) (bracket_end opn cls d False False rest)"
  by (induction s)
    (auto simp: escape_def)

lemma skipped_string: "brackets opn cls \<Longrightarrow> skipped opn cls (json_string s)"
  using in_string_end [of opn cls _ s]
  by (simp add: skipped_def json_string_def)

lemma skipped_bracketed:
  assumes "brackets opn cls" and "brackets o' c'" and "skipped opn cls x"
  shows "skipped opn cls (o' # x @ [c'])"
proof -
  have "bracket_end opn cls d False False (o' # x @ c' # rest)
      = later (length x + 2) (bracket_end opn cls d False False rest)" if "0 < d" for d rest
    using assms that unfolding skipped_def brackets_def by auto
  then show ?thesis by (simp add: skipped_def)
qed

lemma skipped_commas:
  "brackets opn cls \<Longrightarrow> \<forall>x \<in> set xs. skipped opn cls x \<Longrightarrow> skipped opn cls (joined xs)"
proof (induction xs rule: joined.induct)
  case (3 x y xs)
  then show ?case using skipped_append skipped_Cons [of opn cls "CHR '',''"] by simp
qed simp_all

lemma skipped_json: "brackets opn cls \<Longrightarrow> json_ok v \<Longrightarrow> skipped opn cls (json_text v)"
proof (induction v)
  case (Plain s)
  then show ?case by (simp add: skipped_plain)
next
  case (Quoted s)
  then show ?case by (simp add: skipped_string)
next
  case (Array vs)
  then have "skipped opn cls (joined (map json_text vs))" by (auto intro!: skipped_commas)
  then show ?case using skipped_bracketed [OF Array.prems(1), of "CHR ''[''" "CHR '']''"] by (simp add: brackets_def)
next
  case (Object kvs)
  then have "skipped opn cls (joined (map (\<lambda>(k, v). json_string k @ CHR '':'' # json_text v) kvs))"
    by (fastforce intro!: skipped_commas skipped_append skipped_Cons skipped_string)
  then show ?case using skipped_bracketed [OF Object.prems(1), of "CHR ''{''" "CHR ''}''"] by (simp add: brackets_def)
qed

section \<open>Values\<close>

lemma string_end_escaped:
  "string_end False (concat (map escape s) @ CHR 0x22 # rest) = Some (length (concat (map escape s)))"
  by (induction s) (auto simp: escape_def)

lemma json_value_bracketed:
  assumes "brackets opn cls" and "skipped opn cls x"
  shows "json_value_at (opn # x @ cls # rest) = Some (opn # x @ [cls])"
  using assms by (auto simp: json_value_at_def brackets_def skipped_def)

lemma json_value_text:
  assumes "json_ok v" and "rest \<noteq> []" and "hd rest \<in> set '',}]''"
  shows "json_value_at (json_text v @ rest) = Some (json_text v)"
proof (cases v)
  case (Plain s)
  then have s: "s \<noteq> []" "\<forall>c \<in> set s. plain_char c" using assms(1) by auto
  then have "plain_char (hd s)" by simp
  then have "hd s \<notin> {CHR 0x22, CHR ''{'', CHR ''[''}" by (auto simp: plain_char_def)
  moreover have "takeWhile (\<lambda>c. c \<noteq> CHR '','' \<and> c \<noteq> CHR ''}'' \<and> c \<noteq> CHR '']'') (s @ rest) = s"
    using s(2) assms(2,3) by (subst takeWhile_append2) (auto simp: plain_char_def takeWhile_eq_Nil_iff)
  ultimately show ?thesis using s(1) by (simp add: Plain json_value_at_def)
next
  case (Quoted s)
  then show ?thesis by (simp add: json_value_at_def json_string_def string_end_escaped)
next
  case (Array vs)
  have b: "brackets (CHR ''['') (CHR '']'')" by (simp add: brackets_def)
  have "skipped (CHR ''['') (CHR '']'') (joined (map json_text vs))"
    using assms(1) b Array by (auto intro!: skipped_commas skipped_json)
  from json_value_bracketed [OF b this] show ?thesis by (simp add: Array)
next
  case (Object kvs)
  have b: "brackets (CHR ''{'') (CHR ''}'')" by (simp add: brackets_def)
  have "skipped (CHR ''{'') (CHR ''}'') (joined (map (\<lambda>(k, v). json_string k @ CHR '':'' # json_text v) kvs))"
    using assms(1) b Object by (fastforce intro!: skipped_commas skipped_append skipped_Cons skipped_string skipped_json)
  from json_value_bracketed [OF b this] show ?thesis by (simp add: Object)
qed

section \<open>Answers\<close>

definition post_answer :: "u64 \<Rightarrow> json \<Rightarrow> string" where
  "post_answer n v = ''{\"channel\":\"post\",\"data\":{\"id\":'' @ dec_string (unat n)
     @ '',\"response\":{\"type\":\"action\",\"payload\":'' @ json_text v @ ''}}}''"

lemma json_text_head:
  assumes "json_ok v"
  shows "dropWhile (\<lambda>c. c = CHR '' '' \<or> c = CHR '':'') (json_text v @ rest) = json_text v @ rest"
  using assms by (cases v) (auto simp: json_string_def plain_char_def dropWhile_eq_self_iff hd_append)

text \<open>C29: Of an answer of the documented form to request \<open>n\<close> the transport reads back exactly \<open>n\<close>
  and exactly the text of the payload, for every JSON value: nested objects and arrays, and
  strings with escaped quotation marks and with brackets, included.\<close>

theorem post_answer_read_back:
  assumes "json_ok v"
  shows "parse_post_id (post_answer n v) = Inr (Some n) \<and> answer_body (post_answer n v) = json_text v"
proof -
  define ds where "ds = dec_string (unat n)"
  have ds: "\<forall>c \<in> set ds. is_digit c" and ne: "ds \<noteq> []"
    using dec_string_digits by (auto simp: ds_def)
  have q: "CHR 0x22 \<notin> set ds" using ds digit_plain(4) by blast
  have read: "stoull ds = Inr n"
    using stoull_dec_string [of "[]" "unat n"] unsigned_less [of n, where ?'a = nat] by (simp add: ds_def)
  define rest where "rest = ''\"action\",\"payload\":'' @ json_text v @ ''}}}''"
  have msg: "post_answer n v = ''{\"channel\":\"post\",\"data\":{\"id\":'' @ ds @ '',\"response\":{\"type\":'' @ rest"
    by (simp add: post_answer_def ds_def rest_def)
  have "takeWhile is_digit (dropWhile (\<lambda>c. c = CHR '' '') (ds @ '',\"response\":{\"type\":'' @ rest)) = ds"
    using ds ne takeWhile_digits [OF ds, of "'',\"response\":{\"type\":'' @ rest"] digit_plain(1)
    by (cases ds) (auto simp: is_digit_def digit_value_def)
  then have id: "parse_post_id (post_answer n v) = Inr (Some n)"
    using ne read by (simp add: parse_post_id_def msg contains_def find_from_zero)
  have type_pos: "find0 ''\"type\"'' (post_answer n v) = Some (44 + length ds)"
    using q by (simp add: msg)
  have payload_pos: "find0 ''\"payload\"'' (post_answer n v) = Some (60 + length ds)"
    using q by (simp add: msg rest_def)
  have at: "drop m (post_answer n v) = s" if "post_answer n v = x @ s" "m = length x" for m x s
    using that by simp
  have "drop (44 + length ds + 6) (post_answer n v) = CHR '':'' # rest"
    by (rule at [of "''{\"channel\":\"post\",\"data\":{\"id\":'' @ ds @ '',\"response\":{\"type\"''"]) (simp_all add: msg)
  then have type: "extract_json_value (post_answer n v) ''\"type\"'' = Some ''\"action\"''"
    by (simp add: extract_json_value_def find_from_zero type_pos rest_def json_value_at_def)
  have "drop (60 + length ds + 9) (post_answer n v) = CHR '':'' # json_text v @ ''}}}''"
    by (rule at [of "''{\"channel\":\"post\",\"data\":{\"id\":'' @ ds @ '',\"response\":{\"type\":\"action\",\"payload\"''"])
      (simp_all add: msg rest_def)
  then have "extract_json_value (post_answer n v) ''\"payload\"'' = Some (json_text v)"
    using json_value_text [OF assms, of "''}}}''"] json_text_head [OF assms, of "''}}}''"]
    by (simp add: extract_json_value_def find_from_zero payload_pos)
  with id type show ?thesis by (simp add: answer_body_def)
qed

theorem post_answer_read_back_witness:
  "parse_post_id (post_answer 7 (Object [(''status'', Quoted ''ok}\"''), (''n'', Array [Plain ''1'', Plain ''-2''])]))
     = Inr (Some 7)"
  using post_answer_read_back [of "Object [(''status'', Quoted ''ok}\"''), (''n'', Array [Plain ''1'', Plain ''-2''])]" 7]
  by (simp add: plain_char_def)

end
