(* ===== verification/Ws_Sendtx.thy ===== *)
theory Ws_Sendtx
  imports Ws_Post Native_Lighter
begin

text \<open>
  \<open>src/lighter_ws_sendtx.cpp\<close>: Lighter transactions sent over a websocket, one at a time.
  All state is under one mutex, so every step is one critical section: of a caller of
  \<open>send_tx\<close> (its beginning, and its end after the wait), or of the IO thread.
\<close>

section \<open>The transport\<close>

datatype sender =
    Ready
  | InFlight
  | Answered string

record sendtx_transport =
  st_inflight :: bool
  st_ready :: bool
  st_body :: string
  st_senders :: "nat \<Rightarrow> sender"
  st_sent :: "string list"           \<comment> \<open>what was given to the connection, newest first\<close>
  st_received :: "string list"       \<comment> \<open>every message so far, newest first\<close>

definition sendtx_initial :: "sendtx_transport \<Rightarrow> bool" where
  "sendtx_initial s \<longleftrightarrow> s = \<lparr>st_inflight = False, st_ready = False, st_body = [], st_senders = (\<lambda>_. Ready),
     st_sent = [], st_received = []\<rparr>"

definition busy_body :: string where
  "busy_body = make_error_body ''lighter_ws_sendtx_busy''"

definition sendtx_timeout_body :: string where
  "sendtx_timeout_body = make_error_body ''lighter_ws_sendtx_timeout''"

definition sendtx_lost_body :: "string \<Rightarrow> string" where
  "sendtx_lost_body reason = make_error_body (''lighter_ws_disconnect_'' @ reason)"

definition sendtx_request :: "u8 \<Rightarrow> string \<Rightarrow> string" where
  "sendtx_request tx_type tx_info = ''{\"type\":\"jsonapi/sendtx\",\"data\":{\"tx_type\":'' @ dec_string (unat tx_type)
     @ '',\"tx_info\":'' @ tx_info @ ''}}''"

text \<open>The two halves of \<open>send_tx\<close>, before and after the wait.\<close>

definition send_tx_begin :: "nat \<Rightarrow> u8 \<Rightarrow> string \<Rightarrow> sendtx_transport \<Rightarrow> sendtx_transport" where
  "send_tx_begin c tx_type tx_info s =
     (if st_inflight s then s\<lparr>st_senders := (st_senders s)(c := Answered busy_body)\<rparr>
      else s\<lparr>st_inflight := True, st_ready := False, st_body := [],
        st_sent := sendtx_request tx_type tx_info # st_sent s, st_senders := (st_senders s)(c := InFlight)\<rparr>)"

definition send_tx_end :: "nat \<Rightarrow> sendtx_transport \<Rightarrow> sendtx_transport" where
  "send_tx_end c s =
     (let s = (if st_ready s then s else s\<lparr>st_body := sendtx_timeout_body\<rparr>)
      in s\<lparr>st_inflight := False, st_senders := (st_senders s)(c := Answered (st_body s))\<rparr>)"

definition sendtx_on_message :: "string \<Rightarrow> sendtx_transport \<Rightarrow> sendtx_transport" where
  "sendtx_on_message msg s =
     (let s = s\<lparr>st_received := msg # st_received s\<rparr>
      in if contains msg ''\"type\":\"connected\"'' \<or> \<not> st_inflight s then s
         else s\<lparr>st_body := msg, st_ready := True\<rparr>)"

definition sendtx_on_disconnect :: "string \<Rightarrow> sendtx_transport \<Rightarrow> sendtx_transport" where
  "sendtx_on_disconnect reason s =
     (if st_inflight s then s\<lparr>st_body := sendtx_lost_body reason, st_ready := True\<rparr> else s)"

inductive sendtx_step :: "sendtx_transport \<Rightarrow> sendtx_transport \<Rightarrow> bool" where
  begins: "st_senders s c \<noteq> InFlight \<Longrightarrow> sendtx_step s (send_tx_begin c tx_type tx_info s)"
| ends: "st_senders s c = InFlight \<Longrightarrow> sendtx_step s (send_tx_end c s)"
| hears: "sendtx_step s (sendtx_on_message msg s)"
| loses: "sendtx_step s (sendtx_on_disconnect reason s)"

inductive_cases sendtx_stepE: "sendtx_step s t"

lemmas sendtx_defs = send_tx_begin_def send_tx_end_def sendtx_on_message_def sendtx_on_disconnect_def Let_def

section \<open>One request at a time\<close>

definition tx_outcome :: "string list \<Rightarrow> string \<Rightarrow> bool" where
  "tx_outcome received body \<longleftrightarrow> body = busy_body \<or> body = sendtx_timeout_body
     \<or> (\<exists>reason. body = sendtx_lost_body reason) \<or> body \<in> set received"

definition sendtx_inv :: "sendtx_transport \<Rightarrow> bool" where
  "sendtx_inv s \<longleftrightarrow>
     (\<forall>c d. st_senders s c = InFlight \<longrightarrow> st_senders s d = InFlight \<longrightarrow> c = d)
     \<and> (st_inflight s \<longleftrightarrow> (\<exists>c. st_senders s c = InFlight))
     \<and> (st_ready s \<longrightarrow> tx_outcome (st_received s) (st_body s))
     \<and> (\<forall>c body. st_senders s c = Answered body \<longrightarrow> tx_outcome (st_received s) body)"

lemma tx_outcomes:
  "tx_outcome ms busy_body" "tx_outcome ms sendtx_timeout_body" "tx_outcome ms (sendtx_lost_body reason)"
  "tx_outcome (m # ms) m" "tx_outcome ms body \<Longrightarrow> tx_outcome (m # ms) body"
  by (auto simp: tx_outcome_def)

lemma sendtx_inv_step: "sendtx_inv s \<Longrightarrow> sendtx_step s t \<Longrightarrow> sendtx_inv t"
proof -
  assume inv: "sendtx_inv s" and step: "sendtx_step s t"
  from step show ?thesis
  proof cases
    case (begins c)
    then show ?thesis
      using inv by (auto simp: sendtx_inv_def send_tx_begin_def tx_outcomes; metis)
  next
    case (ends c)
    then show ?thesis
      using inv by (auto simp: sendtx_inv_def send_tx_end_def Let_def tx_outcomes)
  next
    case (hears msg)
    then show ?thesis
      using inv by (auto simp: sendtx_inv_def sendtx_on_message_def Let_def tx_outcomes)
  next
    case (loses reason)
    then show ?thesis
      using inv by (auto simp: sendtx_inv_def sendtx_on_disconnect_def tx_outcomes)
  qed
qed

interpretation sendtx: step_invariant sendtx_initial sendtx_step sendtx_inv
  by unfold_locales (simp add: sendtx_initial_def sendtx_inv_def, erule (1) sendtx_inv_step)

text \<open>C30: At most one transaction is in flight, and \<open>request_inflight_\<close> says whether one is; a call
  that comes in between is answered as busy and sends nothing; and what a call answers is one of
  the transport's errors or a message of the venue.\<close>

theorem one_transaction_at_a_time:
  assumes "sendtx_initial s0" and "sendtx_step\<^sup>*\<^sup>* s0 s"
  shows "(\<forall>c d. st_senders s c = InFlight \<longrightarrow> st_senders s d = InFlight \<longrightarrow> c = d)
    \<and> (st_inflight s \<longleftrightarrow> (\<exists>c. st_senders s c = InFlight))
    \<and> (st_inflight s \<longrightarrow> (\<forall>d ty info. st_sent (send_tx_begin d ty info s) = st_sent s
          \<and> st_senders (send_tx_begin d ty info s) d = Answered busy_body))
    \<and> (\<forall>c body. st_senders s c = Answered body \<longrightarrow> tx_outcome (st_received s) body)"
  using sendtx.inv_reachable [OF assms] by (simp add: sendtx_inv_def send_tx_begin_def)

text \<open>Answers are not matched with requests.  Whatever message comes first while a transaction
  is in flight, a ping or the late answer to an earlier transaction that timed out, is taken for
  its answer: after a ping the caller is told that the venue did not accept the transaction,
  which has been sent.\<close>

theorem any_message_answers:
  assumes "sendtx_initial s0" and "sendtx_step\<^sup>*\<^sup>* s0 s" and "st_senders s c = InFlight" and "\<not> st_ready s"
    and "\<not> contains msg ''\"type\":\"connected\"''"
  shows "\<exists>t. sendtx_step\<^sup>*\<^sup>* s t \<and> st_sent t = st_sent s \<and> st_senders t c = Answered msg
    \<and> (msg = ''{\"type\":\"ping\"}'' \<longrightarrow> \<not> tx_response_ok msg)"
proof -
  let ?t = "sendtx_on_message msg s"
  have "st_inflight s"
    using sendtx.inv_reachable [OF assms(1,2)] assms(3) by (auto simp: sendtx_inv_def)
  then have t: "st_senders ?t c = InFlight" "st_sent ?t = st_sent s" "st_ready ?t" "st_body ?t = msg"
    using assms(3,5) by (simp_all add: sendtx_on_message_def Let_def)
  have "sendtx_step\<^sup>*\<^sup>* s (send_tx_end c ?t)"
    using hears [of s msg] ends [OF t(1)] by auto
  moreover have "msg = ''{\"type\":\"ping\"}'' \<longrightarrow> \<not> tx_response_ok msg"
    by (simp add: tx_response_ok_def contains_def find_from_zero)
  ultimately show ?thesis
    using t by (intro exI [of _ "send_tx_end c ?t"]) (simp add: send_tx_end_def Let_def)
qed

text \<open>A first transaction times out, a second one is sent.\<close>

definition sendtx_demo :: sendtx_transport where
  "sendtx_demo = \<lparr>st_inflight = False, st_ready = False, st_body = [], st_senders = (\<lambda>_. Ready),
     st_sent = [], st_received = []\<rparr>"

definition sendtx_demo_second :: sendtx_transport where
  "sendtx_demo_second = send_tx_begin 0 14 ''{}'' (send_tx_end 0 (send_tx_begin 0 14 ''{}'' sendtx_demo))"

lemma sendtx_demo_run: "sendtx_initial sendtx_demo" "sendtx_step\<^sup>*\<^sup>* sendtx_demo sendtx_demo_second"
  "st_senders sendtx_demo_second 0 = InFlight" "\<not> st_ready sendtx_demo_second"
proof -
  let ?s1 = "send_tx_begin 0 14 ''{}'' sendtx_demo"
  have "sendtx_step sendtx_demo ?s1" by (rule begins) (simp add: sendtx_demo_def)
  moreover have "sendtx_step ?s1 (send_tx_end 0 ?s1)"
    by (rule ends) (simp add: sendtx_demo_def send_tx_begin_def)
  moreover have "sendtx_step (send_tx_end 0 ?s1) sendtx_demo_second"
    unfolding sendtx_demo_second_def by (rule begins) (simp add: sendtx_demo_def sendtx_defs)
  ultimately show "sendtx_step\<^sup>*\<^sup>* sendtx_demo sendtx_demo_second"
    by (blast intro: converse_rtranclp_into_rtranclp)
qed (simp_all add: sendtx_initial_def sendtx_demo_def sendtx_demo_second_def sendtx_defs)

theorem any_message_answers_witness:
  "\<exists>t. sendtx_step\<^sup>*\<^sup>* sendtx_demo_second t \<and> st_sent t = st_sent sendtx_demo_second
    \<and> st_senders t 0 = Answered ''{\"type\":\"ping\"}''"
  using any_message_answers [OF sendtx_demo_run, of "''{\"type\":\"ping\"}''"]
  by (auto simp: contains_def find_from_zero)

theorem one_transaction_at_a_time_witness:
  "st_inflight sendtx_demo_second \<and> st_senders (send_tx_begin 1 14 ''{}'' sendtx_demo_second) 1 = Answered busy_body"
proof -
  note one = one_transaction_at_a_time [OF sendtx_demo_run(1,2)]
  have "st_inflight sendtx_demo_second" using one sendtx_demo_run(3) by blast
  with one show ?thesis by blast
qed

end
