(* ===== verification/Nonce_Threads.thy ===== *)
theory Nonce_Threads
  imports Native_Lighter Systems
begin

text \<open>
  The nonce cache of \<open>NativeLighterTrading\<close> under threads: the atomic operations of \<open>next_nonce\<close>
  and \<open>refresh_nonce_cache\<close> in \<open>src/native_trading.cpp\<close>, interleaved.  \<open>R\<close> is the set of nonces
  the venue may answer; \<open>nc_issued\<close> remembers what \<open>next_nonce\<close> has returned, newest first.
\<close>

section \<open>The steps\<close>

text \<open>Where a thread is in \<open>ensure_client\<close> and then \<open>next_nonce\<close>.\<close>

datatype nonce_thread =
    Entering
  | Refreshing            \<comment> \<open>saw \<open>client_ready_\<close> false; fetches\<close>
  | Refreshed             \<comment> \<open>has stored the cache\<close>
  | Loading
  | Fetching              \<comment> \<open>loaded 0\<close>
  | Swapping u64          \<comment> \<open>with the remote nonce\<close>
  | Adding
  | Took u64
  | Threw

record nonce_system =
  nc_ready :: bool
  nc_cache :: u64
  nc_threads :: "nat \<Rightarrow> nonce_thread"
  nc_issued :: "u64 list"

definition thread_to :: "nat \<Rightarrow> nonce_thread \<Rightarrow> nonce_system \<Rightarrow> nonce_system" where
  "thread_to c pc s = s\<lparr>nc_threads := (nc_threads s)(c := pc)\<rparr>"

text \<open>A nonce is returned and the cache set to the next one.\<close>

definition issue :: "nat \<Rightarrow> u64 \<Rightarrow> nonce_system \<Rightarrow> nonce_system" where
  "issue c n s = thread_to c (Took n) (s\<lparr>nc_cache := n + 1, nc_issued := n # nc_issued s\<rparr>)"

inductive nonce_step :: "u64 set \<Rightarrow> nonce_system \<Rightarrow> nonce_system \<Rightarrow> bool" for R :: "u64 set" where
  again: "nc_threads s c = Took n \<or> nc_threads s c = Threw \<Longrightarrow> nonce_step R s (thread_to c Entering s)"
| enter_ready: "nc_threads s c = Entering \<Longrightarrow> nc_ready s \<Longrightarrow> nonce_step R s (thread_to c Loading s)"
| enter_cold: "nc_threads s c = Entering \<Longrightarrow> \<not> nc_ready s \<Longrightarrow> nonce_step R s (thread_to c Refreshing s)"
| refresh: "nc_threads s c = Refreshing \<Longrightarrow> r \<in> R \<Longrightarrow>
     nonce_step R s (thread_to c Refreshed (s\<lparr>nc_cache := r\<rparr>))"
| now_ready: "nc_threads s c = Refreshed \<Longrightarrow> nonce_step R s (thread_to c Loading (s\<lparr>nc_ready := True\<rparr>))"
| load: "nc_threads s c = Loading \<Longrightarrow>
     nonce_step R s (thread_to c (if nc_cache s \<noteq> 0 then Adding else Fetching) s)"
| fetch: "nc_threads s c = Fetching \<Longrightarrow> r \<in> R \<Longrightarrow> nonce_step R s (thread_to c (Swapping r) s)"
| fails: "nc_threads s c = Fetching \<or> nc_threads s c = Refreshing \<Longrightarrow> nonce_step R s (thread_to c Threw s)"
| swaps: "nc_threads s c = Swapping r \<Longrightarrow> nc_cache s = 0 \<Longrightarrow> nonce_step R s (issue c r s)"
| too_late: "nc_threads s c = Swapping r \<Longrightarrow> nc_cache s \<noteq> 0 \<Longrightarrow> nonce_step R s (thread_to c Adding s)"
| adds: "nc_threads s c = Adding \<Longrightarrow> nonce_step R s (issue c (nc_cache s) s)"

inductive_cases nonce_stepE: "nonce_step R s t"

section \<open>A ready client\<close>

text \<open>The \<open>k\<close> nonces from \<open>b\<close> on, newest first.\<close>

definition nonces_from :: "u64 \<Rightarrow> nat \<Rightarrow> u64 list" where
  "nonces_from b k = rev (map (\<lambda>i. b + of_nat i) [0..<k])"

lemma nonces_from_simps [simp]:
  "nonces_from b 0 = []" "nonces_from b (Suc k) = (b + of_nat k) # nonces_from b k" "length (nonces_from b k) = k"
  by (simp_all add: nonces_from_def)

lemma nonces_from_distinct: "k < 2 ^ 64 \<Longrightarrow> distinct (nonces_from b k)"
proof -
  assume k: "k < 2 ^ 64"
  have "inj_on (\<lambda>i. b + of_nat i) {0..<k}"
  proof (rule inj_onI)
    fix i j
    assume "i \<in> {0..<k}" "j \<in> {0..<k}" "b + of_nat i = b + (of_nat j :: u64)"
    then have "(word_of_nat i :: u64) = word_of_nat j" "i < 2 ^ 64" "j < 2 ^ 64" using k by auto
    then show "i = j" by (simp add: word_of_nat_eq_iff take_bit_nat_eq_self)
  qed
  then show ?thesis by (simp add: nonces_from_def distinct_map)
qed

text \<open>The cache is empty and nothing was issued, or it follows the nonces that were.\<close>

definition in_order :: "u64 \<Rightarrow> u64 list \<Rightarrow> bool" where
  "in_order cache issued \<longleftrightarrow> (cache = 0 \<and> issued = [])
     \<or> (\<exists>b. unat b < 2 ^ 63 \<and> cache = b + of_nat (length issued) \<and> cache \<noteq> 0
          \<and> issued = nonces_from b (length issued))"

definition ready_inv :: "u64 set \<Rightarrow> nonce_system \<Rightarrow> bool" where
  "ready_inv R s \<longleftrightarrow> nc_ready s
     \<and> (\<forall>c. nc_threads s c \<noteq> Refreshing \<and> nc_threads s c \<noteq> Refreshed)
     \<and> (\<forall>c r. nc_threads s c = Swapping r \<longrightarrow> r \<in> R)
     \<and> (length (nc_issued s) < 2 ^ 63 \<longrightarrow> in_order (nc_cache s) (nc_issued s)
          \<and> (\<forall>c. nc_threads s c = Adding \<longrightarrow> nc_cache s \<noteq> 0))"

lemma next_not_zero:
  assumes "unat b < 2 ^ 63" and "0 < k" and "k \<le> 2 ^ 63"
  shows "b + of_nat k \<noteq> (0 :: u64)"
proof
  assume "b + of_nat k = 0"
  then have "(word_of_nat (unat b + k) :: u64) = 0" by simp
  then have "2 ^ 64 dvd unat b + k" by (simp add: word_of_nat_eq_0_iff del: of_nat_add)
  then have "2 ^ 64 \<le> unat b + k" by (rule dvd_imp_le) (use assms(2) in simp)
  with assms show False by simp
qed

lemma in_order_next:
  assumes "in_order cache issued" and "length issued < 2 ^ 63 - 1" and "cache = 0 \<Longrightarrow> unat n < 2 ^ 63"
    and "cache \<noteq> 0 \<Longrightarrow> n = cache"
  shows "in_order (n + 1) (n # issued) \<and> n + 1 \<noteq> 0"
proof (cases "cache = 0")
  case True
  with assms show ?thesis
    using next_not_zero [of n 1] by (auto simp: in_order_def)
next
  case False
  with assms(1) obtain b where b: "unat b < 2 ^ 63" "cache = b + of_nat (length issued)"
    "issued = nonces_from b (length issued)" by (auto simp: in_order_def)
  from next_not_zero [OF b(1), of "Suc (length issued)"] assms(2)
  have ne: "cache + 1 \<noteq> 0" by (simp add: b(2) add.assoc add.commute [of 1])
  have "n # issued = nonces_from b (Suc (length issued))" using False assms(4) b by simp
  with b ne show ?thesis unfolding in_order_def using False assms(4) by (auto intro!: exI [of _ b])
qed

lemma ready_inv_step:
  assumes R: "\<forall>r \<in> R. unat r < 2 ^ 63" and inv: "ready_inv R s" and step: "nonce_step R s t"
  shows "ready_inv R t"
  using step
proof cases
  case (swaps c r)
  then show ?thesis
    using inv R in_order_next [of "nc_cache s" "nc_issued s" r]
    by (auto simp: ready_inv_def issue_def thread_to_def)
next
  case (adds c)
  then show ?thesis
    using inv in_order_next [of "nc_cache s" "nc_issued s" "nc_cache s"]
    by (auto simp: ready_inv_def issue_def thread_to_def)
qed (use inv in \<open>auto simp: ready_inv_def thread_to_def\<close>)

definition ready_initial :: "nonce_system \<Rightarrow> bool" where
  "ready_initial s \<longleftrightarrow> nc_ready s \<and> (\<forall>c. nc_threads s c = Entering) \<and> unat (nc_cache s) < 2 ^ 63 \<and> nc_issued s = []"

lemma ready_inv_initial: "ready_initial s \<Longrightarrow> ready_inv R s"
  by (auto simp: ready_initial_def ready_inv_def in_order_def)

text \<open>The nonces of the venue are signed as \<open>long long\<close>.\<close>

interpretation nonces: step_invariant ready_initial "nonce_step (R \<inter> {r. unat r < 2 ^ 63})"
  "ready_inv (R \<inter> {r. unat r < 2 ^ 63})" for R
  by unfold_locales (erule ready_inv_initial, erule (1) ready_inv_step [rotated], simp)

text \<open>C31: However the calls of \<open>next_nonce\<close> of any number of threads are interleaved, on a client
  that is ready the nonces returned are consecutive, so no two threads ever sign with the same
  one; also when the cache is empty and several threads fetch it at once, and when fetches fail.
  (\<open>R\<close> is what the venue may answer, nonces that fit \<open>long long\<close>; fewer than \<open>2^63\<close> are issued.)\<close>

theorem concurrent_nonces_distinct:
  assumes "ready_initial s0" and "(nonce_step (R \<inter> {r. unat r < 2 ^ 63}))\<^sup>*\<^sup>* s0 s" and "length (nc_issued s) < 2 ^ 63"
  shows "distinct (nc_issued s) \<and> (\<exists>b. nc_issued s = nonces_from b (length (nc_issued s))
    \<and> (nc_issued s \<noteq> [] \<longrightarrow> nc_cache s = hd (nc_issued s) + 1))"
proof -
  have "in_order (nc_cache s) (nc_issued s)"
    using nonces.inv_reachable [OF assms(1,2)] assms(3) by (simp add: ready_inv_def)
  then obtain b where b: "nc_issued s = nonces_from b (length (nc_issued s))"
    "nc_issued s \<noteq> [] \<longrightarrow> nc_cache s = b + of_nat (length (nc_issued s))"
    by (auto simp: in_order_def)
  have "nc_cache s = hd (nc_issued s) + 1" if "nc_issued s \<noteq> []"
  proof -
    from that obtain k where k: "length (nc_issued s) = Suc k" by (cases "nc_issued s") auto
    then have "hd (nc_issued s) = b + of_nat k" using b(1) by (metis list.sel(1) nonces_from_simps(2))
    then show ?thesis using b(2) that k by (simp add: add.assoc add.commute [of 1])
  qed
  moreover have "distinct (nc_issued s)"
    using nonces_from_distinct [of "length (nc_issued s)" b] b(1) assms(3) by simp
  ultimately show ?thesis using b(1) by blast
qed


section \<open>A client that is not ready\<close>

text \<open>A client whose first nonce two threads ask for at once.\<close>

definition cold_client :: nonce_system where
  "cold_client = \<lparr>nc_ready = False, nc_cache = 0, nc_threads = (\<lambda>_. Entering), nc_issued = []\<rparr>"

text \<open>\<open>ensure_client\<close> is not protected: when two threads enter it before the client is ready,
  the second one can store the fetched nonce after the first one has used it, and both sign with
  the same nonce.\<close>

theorem cold_clients_repeat_nonces:
  "\<exists>s. (nonce_step {5})\<^sup>*\<^sup>* cold_client s \<and> nc_issued s = [5, 5]"
proof (intro exI conjI)
  note go = converse_rtranclp_into_rtranclp
  let ?a = "thread_to 1 Refreshing (thread_to 0 Refreshing cold_client)"
  let ?b = "issue 0 5 (thread_to 0 Adding (thread_to 0 Loading (thread_to 0 Refreshed (?a\<lparr>nc_cache := 5\<rparr>)\<lparr>nc_ready := True\<rparr>)))"
  let ?c = "issue 1 5 (thread_to 1 Adding (thread_to 1 Loading (thread_to 1 Refreshed (?b\<lparr>nc_cache := 5\<rparr>)\<lparr>nc_ready := True\<rparr>)))"
  have a: "(nonce_step {5})\<^sup>*\<^sup>* cold_client ?a"
    by (rule go, rule enter_cold [of _ 0], simp add: cold_client_def, simp add: cold_client_def,
        rule go, rule enter_cold [of _ 1]) (simp_all add: cold_client_def thread_to_def)
  have take: "(nonce_step {5})\<^sup>*\<^sup>* s (issue c 5 (thread_to c Adding (thread_to c Loading
      (thread_to c Refreshed (s\<lparr>nc_cache := 5\<rparr>)\<lparr>nc_ready := True\<rparr>))))"
    if pc: "nc_threads s c = Refreshing" for s c
  proof -
    let ?r = "thread_to c Refreshed (s\<lparr>nc_cache := 5\<rparr>)"
    let ?l = "thread_to c Loading (?r\<lparr>nc_ready := True\<rparr>)"
    have "nonce_step {5} s ?r" by (rule refresh [OF pc]) simp
    moreover have "nonce_step {5} ?r ?l" by (rule now_ready) (simp add: thread_to_def)
    moreover have "nonce_step {5} ?l (thread_to c Adding ?l)"
      using load [of ?l c "{5}"] by (simp add: thread_to_def)
    moreover have "nonce_step {5} (thread_to c Adding ?l) (issue c 5 (thread_to c Adding ?l))"
      using adds [of "thread_to c Adding ?l" c "{5}"] by (simp add: thread_to_def)
    ultimately show ?thesis by (meson go rtranclp.rtrancl_refl)
  qed
  have b: "(nonce_step {5})\<^sup>*\<^sup>* ?a ?b" by (rule take) (simp add: thread_to_def)
  have c: "(nonce_step {5})\<^sup>*\<^sup>* ?b ?c" by (rule take) (simp add: thread_to_def issue_def)
  show "(nonce_step {5})\<^sup>*\<^sup>* cold_client ?c" using a b c by (meson rtranclp_trans)
  show "nc_issued ?c = [5, 5]" by (simp add: issue_def thread_to_def cold_client_def)
qed

definition ready_client :: nonce_system where
  "ready_client = \<lparr>nc_ready = True, nc_cache = 7, nc_threads = (\<lambda>_. Entering), nc_issued = []\<rparr>"

theorem concurrent_nonces_distinct_witness:
  "\<exists>s. (nonce_step ({} \<inter> {r. unat r < 2 ^ 63}))\<^sup>*\<^sup>* ready_client s \<and> nc_issued s = [7] \<and> distinct (nc_issued s)"
proof -
  let ?l = "thread_to 0 Loading ready_client"
  let ?t = "issue 0 7 (thread_to 0 Adding ?l)"
  let ?step = "nonce_step ({} \<inter> {r. unat r < 2 ^ 63})"
  have "?step ready_client ?l" by (rule enter_ready) (simp_all add: ready_client_def)
  moreover have "?step ?l (thread_to 0 Adding ?l)"
    using load [of ?l 0 "{} \<inter> {r. unat r < 2 ^ 63}"] by (simp add: thread_to_def ready_client_def)
  moreover have "?step (thread_to 0 Adding ?l) ?t"
    using adds [of "thread_to 0 Adding ?l" 0 "{} \<inter> {r. unat r < 2 ^ 63}"] by (simp add: thread_to_def ready_client_def)
  ultimately have run: "?step\<^sup>*\<^sup>* ready_client ?t" by (meson converse_rtranclp_into_rtranclp rtranclp.rtrancl_refl)
  have init: "ready_initial ready_client" by (simp add: ready_initial_def ready_client_def)
  have issued: "nc_issued ?t = [7]" by (simp add: issue_def thread_to_def ready_client_def)
  show ?thesis
    using concurrent_nonces_distinct [OF init run] run issued by (intro exI [of _ ?t]) simp
qed

end
