(* ===== verification/Native_Hl.thy ===== *)
theory Native_Hl
  imports Native_Common Ws_Post Msgpack Crypto
begin

text \<open>
  \<open>NativeHyperliquidTrading\<close> of \<open>src/native_trading.cpp\<close>: the actions of the Hyperliquid exchange.
  An action is sent as JSON together with a signature of a hash of its MessagePack form, so
  both are built here, byte by byte.  HTTP, the websocket transport, the clock, libm's
  \<open>log10\<close> and secp256k1 are outside; \<open>Fin\<close> has one zero, so the wire text of a negative zero
  (\<open>-0\<close>) is \<open>0\<close> here.
\<close>

section \<open>The class and its surroundings\<close>

record meta_entry =
  me_asset :: int
  me_sz_decimals :: int

record native_hl =
  nh_api_url :: string
  nh_private_key :: string
  nh_vault_address :: "string option"
  nh_action_transport :: bool       \<comment> \<open>whether it is set\<close>
  nh_meta :: "(string \<times> meta_entry) list"

datatype hl_call =
    HlInfo string string            \<comment> \<open>POST: url and body\<close>
  | HlAction string
  | HlClock

text \<open>What is outside answers given all calls so far.  The signer is a function of the digest
  and the key, which gives the compact signature and the recovery id.\<close>

record hl_env =
  he_http :: "hl_call list \<Rightarrow> string + string"
  he_action :: "hl_call list \<Rightarrow> action_result"
  he_epoch_ms :: "hl_call list \<Rightarrow> u64"
  he_perf_ns :: "hl_call list \<Rightarrow> u64"
  he_log10 :: "double \<Rightarrow> double"
  he_sign :: "bytes \<Rightarrow> bytes \<Rightarrow> (bytes \<times> int) option"

record hl_world =
  hw_native :: native_hl
  hw_calls :: "hl_call list"        \<comment> \<open>oldest first\<close>

type_synonym 'a hl_method = "(hl_world, 'a) fallible"

definition hl_calls :: "hl_call \<Rightarrow> (hl_call list \<Rightarrow> 'a) \<Rightarrow> 'a hl_method" where
  "hl_calls c answer w = (let cs = hw_calls w @ [c] in (Inr (answer cs), w\<lparr>hw_calls := cs\<rparr>))"

definition hl_native :: "native_hl hl_method" where
  "hl_native w = (Inr (hw_native w), w)"

definition hl_http_post :: "hl_env \<Rightarrow> string \<Rightarrow> string \<Rightarrow> string hl_method" where
  "hl_http_post E url body = after (hl_calls (HlInfo url body) (he_http E)) or_throw"

section \<open>Numbers on the wire\<close>

fun round_dbl :: "double \<Rightarrow> double" where
  "round_dbl (Fin r) = Fin (of_int (if 0 \<le> r then \<lfloor>r + 1 / 2\<rfloor> else - \<lfloor>1 / 2 - r\<rfloor>))"
| "round_dbl x = x"

fun floor_dbl :: "double \<Rightarrow> double" where
  "floor_dbl (Fin r) = Fin (of_int \<lfloor>r\<rfloor>)"
| "floor_dbl x = x"

text \<open>\<open>std::pow(10.0, x)\<close> at an integral \<open>x\<close>, or an infinite one.\<close>

fun pow10_dbl :: "double \<Rightarrow> double" where
  "pow10_dbl (Fin r) = pow10 \<lfloor>r\<rfloor>"
| "pow10_dbl (Infinite s) = (if s then 0 else Infinite False)"
| "pow10_dbl NaN = NaN"

definition round_sig_figs :: "hl_env \<Rightarrow> double \<Rightarrow> int \<Rightarrow> double" where
  "round_sig_figs E x sig_figs =
     (if deq x 0 then 0
      else let scale = pow10_dbl (dbl_of_int (sig_figs - 1) - floor_dbl (he_log10 E \<bar>x\<bar>))
           in round_dbl (x * scale) / scale)"

text \<open>The stream's fixed notation with eight decimals, exact to the last tie.\<close>

definition pad8 :: "nat \<Rightarrow> string" where
  "pad8 n = (let ds = dec_string n in replicate (8 - length ds) (CHR ''0'') @ ds)"

fun fixed8 :: "double \<Rightarrow> string" where
  "fixed8 (Fin r) = (let n = nat (rne (\<bar>r\<bar> * 10 ^ 8))
     in (if r < 0 then ''-'' else []) @ dec_string (n div 10 ^ 8) @ CHR ''.'' # pad8 (n mod 10 ^ 8))"
| "fixed8 (Infinite s) = (if s then ''-inf'' else ''inf'')"
| "fixed8 NaN = ''nan''"

definition strip_zeros :: "string \<Rightarrow> string" where
  "strip_zeros s = rev (dropWhile (\<lambda>c. c = CHR ''0'') (rev s))"

definition float_to_wire :: "double \<Rightarrow> string" where
  "float_to_wire x =
     (let out = strip_zeros (fixed8 x);
          out = (if out \<noteq> [] \<and> last out = CHR ''.'' then butlast out else out)
      in if out = [] then ''0'' else out)"

definition wire_price :: "hl_env \<Rightarrow> hl_limit_order_request \<Rightarrow> string" where
  "wire_price E r = float_to_wire (round_sig_figs E (hlr_price r) 5)"

definition wire_size :: "meta_entry \<Rightarrow> hl_limit_order_request \<Rightarrow> string" where
  "wire_size m r = float_to_wire (round_dbl (hlr_size r * pow10 (me_sz_decimals m)) / pow10 (me_sz_decimals m))"

section \<open>Actions\<close>

definition json_bool :: "bool \<Rightarrow> string" where
  "json_bool b = (if b then ''true'' else ''false'')"

definition time_in_force :: "hl_limit_order_request \<Rightarrow> bool \<Rightarrow> string" where
  "time_in_force r ioc = (if ioc then ''Ioc'' else if hlr_post_only r then ''Alo'' else ''Gtc'')"

definition order_action_json :: "hl_env \<Rightarrow> hl_limit_order_request \<Rightarrow> meta_entry \<Rightarrow> bool \<Rightarrow> bool \<Rightarrow> string" where
  "order_action_json E r m ioc reduce_only =
     ''{\"type\":\"order\",\"orders\":[{\"a\":'' @ int_string (me_asset m)
     @ '',\"b\":'' @ json_bool (hlr_is_buy r)
     @ '',\"p\":\"'' @ wire_price E r
     @ ''\",\"s\":\"'' @ wire_size m r
     @ ''\",\"r\":'' @ json_bool reduce_only
     @ '',\"t\":{\"limit\":{\"tif\":\"'' @ time_in_force r ioc @ ''\"}}}],\"grouping\":\"na\"}''"

definition append_vault_and_nonce :: "native_hl \<Rightarrow> bytes \<Rightarrow> u64 \<Rightarrow> string + bytes" where
  "append_vault_and_nonce n buf nonce =
     (let buf = buf @ map (byte_at nonce) [56, 48, 40, 32, 24, 16, 8, 0] in
      case nh_vault_address n of
        None \<Rightarrow> Inr (buf @ [0x00])
      | Some v \<Rightarrow> (case hex_to_bytes v of Inl e \<Rightarrow> Inl e | Inr addr \<Rightarrow> Inr (buf @ [0x01] @ addr)))"

definition order_action_bytes :: "hl_env \<Rightarrow> hl_limit_order_request \<Rightarrow> meta_entry \<Rightarrow> bool \<Rightarrow> bool \<Rightarrow> bytes" where
  "order_action_bytes E r m ioc reduce_only =
     (let out = mp_pack_map_size [] 3;
          out = mp_pack_str out ''type'';
          out = mp_pack_str out ''order'';
          out = mp_pack_str out ''orders'';
          out = mp_pack_array_size out 1;
          out = mp_pack_map_size out 6;
          out = mp_pack_str out ''a'';
          out = mp_pack_uint out (word_of_int (me_asset m));
          out = mp_pack_str out ''b'';
          out = mp_pack_bool out (hlr_is_buy r);
          out = mp_pack_str out ''p'';
          out = mp_pack_str out (wire_price E r);
          out = mp_pack_str out ''s'';
          out = mp_pack_str out (wire_size m r);
          out = mp_pack_str out ''r'';
          out = mp_pack_bool out reduce_only;
          out = mp_pack_str out ''t'';
          out = mp_pack_map_size out 1;
          out = mp_pack_str out ''limit'';
          out = mp_pack_map_size out 1;
          out = mp_pack_str out ''tif'';
          out = mp_pack_str out (time_in_force r ioc);
          out = mp_pack_str out ''grouping''
      in mp_pack_str out ''na'')"

definition order_action_hash ::
  "hl_env \<Rightarrow> native_hl \<Rightarrow> hl_limit_order_request \<Rightarrow> meta_entry \<Rightarrow> bool \<Rightarrow> bool \<Rightarrow> u64 \<Rightarrow> string + bytes" where
  "order_action_hash E n r m ioc reduce_only nonce =
     map_sum id keccak256 (append_vault_and_nonce n (order_action_bytes E r m ioc reduce_only) nonce)"

definition cancel_action_json :: "meta_entry \<Rightarrow> string \<Rightarrow> string" where
  "cancel_action_json m oid =
     ''{\"type\":\"cancel\",\"cancels\":[{\"a\":'' @ int_string (me_asset m) @ '',\"o\":'' @ oid @ ''}]}''"

definition cancel_action_bytes :: "meta_entry \<Rightarrow> u64 \<Rightarrow> bytes" where
  "cancel_action_bytes m oid =
     (let out = mp_pack_map_size [] 2;
          out = mp_pack_str out ''type'';
          out = mp_pack_str out ''cancel'';
          out = mp_pack_str out ''cancels'';
          out = mp_pack_array_size out 1;
          out = mp_pack_map_size out 2;
          out = mp_pack_str out ''a'';
          out = mp_pack_uint out (word_of_int (me_asset m));
          out = mp_pack_str out ''o''
      in mp_pack_uint out oid)"

definition cancel_action_hash :: "native_hl \<Rightarrow> meta_entry \<Rightarrow> string \<Rightarrow> u64 \<Rightarrow> string + bytes" where
  "cancel_action_hash n m oid nonce = (case stoull oid of
     Inl e \<Rightarrow> Inl e
   | Inr o_num \<Rightarrow> map_sum id keccak256 (append_vault_and_nonce n (cancel_action_bytes m o_num) nonce))"

section \<open>Signing\<close>

definition uint256_word :: "u64 \<Rightarrow> bytes" where
  "uint256_word v = replicate 24 0 @ map (byte_at v) [56, 48, 40, 32, 24, 16, 8, 0]"

definition address_word :: bytes where
  "address_word = replicate 32 0"

definition domain_separator :: bytes where
  "domain_separator = keccak256
     (keccak256_string ''EIP712Domain(string name,string version,uint256 chainId,address verifyingContract)''
      @ keccak256_string ''Exchange'' @ keccak256_string ''1'' @ uint256_word 1337 @ address_word)"

definition agent_hash :: "bytes \<Rightarrow> bytes" where
  "agent_hash action_hash = keccak256
     (keccak256_string ''Agent(string source,bytes32 connectionId)'' @ keccak256_string ''a'' @ action_hash)"

definition l1_digest :: "bytes \<Rightarrow> bytes" where
  "l1_digest action_hash = keccak256 ([0x19, 0x01] @ domain_separator @ agent_hash action_hash)"

definition sign_l1_action :: "hl_env \<Rightarrow> native_hl \<Rightarrow> bytes \<Rightarrow> string + string" where
  "sign_l1_action E n action_hash = (case hex_to_bytes (nh_private_key n) of
     Inl e \<Rightarrow> Inl e
   | Inr priv \<Rightarrow>
       (if length priv \<noteq> 32 then Inl ''HL private key must be 32 bytes''
        else case he_sign E (l1_digest action_hash) priv of
          None \<Rightarrow> Inl ''HL signature failed''
        | Some (sig64, recid) \<Rightarrow>
            Inr (''{\"r\":\"'' @ bytes_to_hex (take 32 sig64) True
              @ ''\",\"s\":\"'' @ bytes_to_hex (take 32 (drop 32 sig64)) True
              @ ''\",\"v\":'' @ int_string (27 + recid) @ ''}'')))"

section \<open>The asset table\<close>

text \<open>\<open>std::sregex_iterator\<close>: a match is searched on after the end of the previous one.  The
  matcher also gives the length of the match; the \<open>nat\<close> is what is left of the last one.\<close>

fun regex_all :: "(string \<Rightarrow> ('a \<times> nat) option) \<Rightarrow> nat \<Rightarrow> string \<Rightarrow> 'a list" where
  "regex_all m left [] = []"
| "regex_all m (Suc left) (c # s) = regex_all m left s"
| "regex_all m 0 (c # s) = (case m (c # s) of
     None \<Rightarrow> regex_all m 0 s
   | Some (v, n) \<Rightarrow> v # regex_all m (n - 1) s)"

definition entry_start :: string where
  "entry_start = ''{\"szDecimals\":''"

definition entry_middle :: string where
  "entry_middle = '',\"name\":\"''"

definition meta_match :: "string \<Rightarrow> ((string \<times> string) \<times> nat) option" where
  "meta_match s =
     (if prefix entry_start s then
        let t = drop (length entry_start) s; ds = takeWhile is_digit t; t = dropWhile is_digit t;
            name = takeWhile (\<lambda>c. c \<noteq> CHR 0x22) (drop (length entry_middle) t);
            rest = dropWhile (\<lambda>c. c \<noteq> CHR 0x22) (drop (length entry_middle) t)
        in if ds \<noteq> [] \<and> prefix entry_middle t \<and> name \<noteq> [] \<and> rest \<noteq> []
           then Some ((ds, name), length entry_start + length ds + length entry_middle + length name + 1)
           else None
      else None)"

text \<open>An exception of \<open>stoi\<close> leaves what was entered before.\<close>

fun enter_meta :: "(string \<times> string) list \<Rightarrow> int \<Rightarrow> (string \<times> meta_entry) list \<Rightarrow> (string + unit) \<times> (string \<times> meta_entry) list" where
  "enter_meta [] asset meta = (Inr (), meta)"
| "enter_meta ((ds, name) # es) asset meta = (case stoi ds of
     Inl e \<Rightarrow> (Inl e, meta)
   | Inr d \<Rightarrow> enter_meta es (asset + 1) (emplace name \<lparr>me_asset = asset, me_sz_decimals = d\<rparr> meta))"

definition store_meta :: "string \<Rightarrow> unit hl_method" where
  "store_meta body w = (let (r, meta) = enter_meta (regex_all meta_match 0 body) 0 (nh_meta (hw_native w))
     in (r, w\<lparr>hw_native := (hw_native w)\<lparr>nh_meta := meta\<rparr>\<rparr>))"

definition ensure_meta :: "hl_env \<Rightarrow> unit hl_method" where
  "ensure_meta E =
     after hl_native (\<lambda>n.
     if nh_meta n \<noteq> [] then returns ()
     else after (hl_http_post E (nh_api_url n @ ''/info'') ''{\"type\":\"meta\"}'') store_meta)"

definition meta_for_coin :: "hl_env \<Rightarrow> string \<Rightarrow> meta_entry hl_method" where
  "meta_for_coin E coin =
     after (ensure_meta E) (\<lambda>_.
     after hl_native (\<lambda>n.
       case map_of (nh_meta n) coin of
         None \<Rightarrow> throws (''missing HL meta for coin '' @ coin)
       | Some m \<Rightarrow> returns m))"

section \<open>Orders\<close>

definition hl_native_get_bbo :: "hl_env \<Rightarrow> string \<Rightarrow> bbo hl_method" where
  "hl_native_get_bbo E coin =
     after hl_native (\<lambda>n.
     after (hl_http_post E (nh_api_url n @ ''/info'') (''{\"type\":\"l2Book\",\"coin\":\"'' @ coin @ ''\",\"nSigFigs\":5}'')) (\<lambda>body.
     let px = (\<lambda>start. regex_search (lit_class (start @ ''\"px\":\"'') (\<lambda>c. c \<noteq> CHR 0x22) ''\"'') body)
     in after (or_throw (first_match_as_double (px ''\"levels\":[[{''))) (\<lambda>b.
        after (or_throw (first_match_as_double (px ''],[{''))) (\<lambda>a.
          returns \<lparr>bid = b, ask = a, quote_age_ms = 0\<rparr>))))"

definition action_request :: "native_hl \<Rightarrow> string \<Rightarrow> u64 \<Rightarrow> string \<Rightarrow> string" where
  "action_request n action_json nonce signature =
     ''{\"action\":'' @ action_json
     @ '',\"nonce\":'' @ dec_string (unat nonce)
     @ '',\"signature\":'' @ signature
     @ '',\"vaultAddress\":'' @ (case nh_vault_address n of Some v \<Rightarrow> ''\"'' @ v @ ''\"'' | None \<Rightarrow> ''null'')
     @ '',\"expiresAfter\":null}''"

text \<open>The answer and the time it took to sign.\<close>

definition post_exchange_action :: "hl_env \<Rightarrow> string \<Rightarrow> bytes \<Rightarrow> u64 \<Rightarrow> (action_result \<times> double) hl_method" where
  "post_exchange_action E action_json action_hash nonce =
     after hl_native (\<lambda>n.
     after (hl_calls HlClock (he_perf_ns E)) (\<lambda>sign_start.
     after (or_throw (sign_l1_action E n action_hash)) (\<lambda>signature.
     after (hl_calls HlClock (he_perf_ns E)) (\<lambda>sign_end.
       if \<not> nh_action_transport n
       then throws ''Hyperliquid action transport unavailable: WS post transport is required''
       else after (hl_calls (HlAction (action_request n action_json nonce signature)) (he_action E)) (\<lambda>r.
         returns (r, ms_of_ns (sign_end - sign_start)))))))"

text \<open>From the order to the answer: the asset, the nonce, the JSON and the hash, and the post.\<close>

definition send_order :: "hl_env \<Rightarrow> hl_limit_order_request \<Rightarrow> bool \<Rightarrow> bool \<Rightarrow> (action_result \<times> double) hl_method" where
  "send_order E r ioc reduce_only =
     after (meta_for_coin E (hlr_coin r)) (\<lambda>m.
     after (hl_calls HlClock (he_epoch_ms E)) (\<lambda>nonce.
     after hl_native (\<lambda>n.
     after (or_throw (order_action_hash E n r m ioc reduce_only nonce)) (\<lambda>h.
       post_exchange_action E (order_action_json E r m ioc reduce_only) h nonce))))"

definition resting_oid :: "string \<Rightarrow> string option" where
  "resting_oid body = regex_search (lit_class ''\"resting\":{\"oid\":'' is_digit ''}'') body"

definition filled_oid :: "string \<Rightarrow> string option" where
  "filled_oid body = regex_search
     (lit_then ''\"filled\":{'' (star_then (\<lambda>c. c \<noteq> CHR ''}'') (lit_class ''\"oid\":'' is_digit []))) body"

definition hl_native_place_limit :: "hl_env \<Rightarrow> hl_limit_order_request \<Rightarrow> hl_limit_order_ack hl_method" where
  "hl_native_place_limit E r =
     (if hlr_dry_run r then returns \<lparr>hla_ok = True, hla_message = ''dry-run'', hla_oid = ''dry_oid'',
        hla_sign_latency_ms = 0, hla_ws_send_call_latency_ms = 0, hla_ws_send_to_response_rx_latency_ms = 0,
        hla_response_rx_to_unblock_latency_ms = 0\<rparr>
      else after (send_order E r False False) (\<lambda>(t, sign_ms).
        let body = ar_body t;
            ack = (\<lambda>ok msg oid. \<lparr>hla_ok = ok, hla_message = msg, hla_oid = oid, hla_sign_latency_ms = sign_ms,
              hla_ws_send_call_latency_ms = ar_send_call_latency_ms t,
              hla_ws_send_to_response_rx_latency_ms = ar_send_to_response_rx_latency_ms t,
              hla_response_rx_to_unblock_latency_ms = ar_response_rx_to_unblock_latency_ms t\<rparr>)
        in returns (case resting_oid body of
             Some oid \<Rightarrow> ack True ''ok'' oid
           | None \<Rightarrow> (case filled_oid body of
               Some oid \<Rightarrow> ack True ''ok'' oid
             | None \<Rightarrow> ack False body []))))"

text \<open>A field of the answer, 0 without it.\<close>

definition status_ok :: "string \<Rightarrow> bool" where
  "status_ok body \<longleftrightarrow> contains body ''\"status\":\"ok\"''"

definition answer_number :: "string \<Rightarrow> string \<Rightarrow> string + double" where
  "answer_number key body =
     (if contains body key then first_match_as_double (rx_quoted key body) else Inr 0)"

definition hl_native_place_ioc :: "hl_env \<Rightarrow> hl_ioc_order_request \<Rightarrow> hl_ioc_order_ack hl_method" where
  "hl_native_place_ioc E r =
     (if hir_dry_run r then returns \<lparr>hia_ok = True, hia_message = ''dry-run'', hia_filled_size = hir_size r,
        hia_avg_fill_price = hir_price r, hia_sign_latency_ms = 0, hia_ws_send_call_latency_ms = 0,
        hia_ws_send_to_response_rx_latency_ms = 0, hia_response_rx_to_unblock_latency_ms = 0\<rparr>
      else
        let limit = \<lparr>hlr_coin = hir_coin r, hlr_is_buy = hir_is_buy r, hlr_price = hir_price r, hlr_size = hir_size r,
              hlr_post_only = False, hlr_dry_run = False\<rparr>
        in after (send_order E limit True False) (\<lambda>(t, sign_ms).
           after (or_throw (answer_number ''totalSz'' (ar_body t))) (\<lambda>sz.
           after (or_throw (answer_number ''avgPx'' (ar_body t))) (\<lambda>px.
             returns \<lparr>hia_ok = status_ok (ar_body t), hia_message = ar_body t, hia_filled_size = sz,
               hia_avg_fill_price = px, hia_sign_latency_ms = sign_ms,
               hia_ws_send_call_latency_ms = ar_send_call_latency_ms t,
               hia_ws_send_to_response_rx_latency_ms = ar_send_to_response_rx_latency_ms t,
               hia_response_rx_to_unblock_latency_ms = ar_response_rx_to_unblock_latency_ms t\<rparr>))))"

definition hl_native_cancel :: "hl_env \<Rightarrow> string \<Rightarrow> string \<Rightarrow> bool \<Rightarrow> hl_cancel_ack hl_method" where
  "hl_native_cancel E coin oid dry =
     (if dry then returns \<lparr>hca_ok = True, hca_message = ''dry-run'', hca_oid = oid\<rparr>
      else
        after (hl_calls HlClock (he_epoch_ms E)) (\<lambda>nonce.
        after (meta_for_coin E coin) (\<lambda>m.
        after hl_native (\<lambda>n.
        after (or_throw (cancel_action_hash n m oid nonce)) (\<lambda>h.
        after (post_exchange_action E (cancel_action_json m oid) h nonce) (\<lambda>(t, _).
          returns \<lparr>hca_ok = status_ok (ar_body t), hca_message = ar_body t, hca_oid = oid\<rparr>))))))"

definition reduce_request :: "string \<Rightarrow> bool \<Rightarrow> double \<Rightarrow> bbo \<Rightarrow> hl_limit_order_request" where
  "reduce_request coin is_buy sz book = \<lparr>hlr_coin = coin, hlr_is_buy = is_buy,
     hlr_price = (if is_buy then ask book * D (1003 / 1000) else bid book * D (997 / 1000)), hlr_size = sz,
     hlr_post_only = False, hlr_dry_run = False\<rparr>"

definition hl_native_reduce :: "hl_env \<Rightarrow> string \<Rightarrow> bool \<Rightarrow> double \<Rightarrow> bool \<Rightarrow> hl_reduce_ack hl_method" where
  "hl_native_reduce E coin is_buy sz dry =
     after (hl_native_get_bbo E coin) (\<lambda>book.
     if dry then returns \<lparr>hra_ok = True, hra_message = ''dry-run'', hra_filled_size = sz, hra_avg_fill_price = mid book\<rparr>
     else
       after (send_order E (reduce_request coin is_buy sz book) True True) (\<lambda>(t, _).
       after (or_throw (answer_number ''totalSz'' (ar_body t))) (\<lambda>filled.
       after (or_throw (answer_number ''avgPx'' (ar_body t))) (\<lambda>px.
         returns \<lparr>hra_ok = status_ok (ar_body t), hra_message = ar_body t, hra_filled_size = filled,
           hra_avg_fill_price = px\<rparr>))))"

end
