(* ===== verification/Native_Hl_Safety.thy ===== *)
theory Native_Hl_Safety
  imports Native_Hl
begin

text \<open>
  What makes an action of \<open>Native_Hl\<close> acceptable to the venue and its acknowledgement
  trustworthy: the signed bytes and the JSON that is sent are two renderings of the same
  action, numbers are written exactly to eight decimals, nothing is sent unsigned, and what
  the acknowledgements mean.
\<close>

section \<open>One action, two renderings\<close>

text \<open>The JSON of a value of the MessagePack subset (its strings need no escapes).\<close>

fun joined :: "string list \<Rightarrow> string" where
  "joined [] = []"
| "joined [x] = x"
| "joined (x # y # xs) = x @ CHR '','' # joined (y # xs)"

fun value_json :: "mp_value \<Rightarrow> string" where
  "value_json (MpStr s) = CHR 0x22 # s @ [CHR 0x22]"
| "value_json (MpBool b) = json_bool b"
| "value_json (MpUint n) = dec_string (unat n)"
| "value_json (MpArray xs) = CHR ''['' # joined (map value_json xs) @ '']''"
| "value_json (MpMap ps) =
     CHR ''{'' # joined (map (\<lambda>p. CHR 0x22 # fst p @ CHR 0x22 # CHR '':'' # value_json (snd p)) ps) @ ''}''"

definition order_value :: "hl_env \<Rightarrow> hl_limit_order_request \<Rightarrow> meta_entry \<Rightarrow> bool \<Rightarrow> bool \<Rightarrow> mp_value" where
  "order_value E r m ioc reduce_only =
     MpMap [(''type'', MpStr ''order''),
            (''orders'', MpArray [MpMap [
               (''a'', MpUint (word_of_int (me_asset m))),
               (''b'', MpBool (hlr_is_buy r)),
               (''p'', MpStr (wire_price E r)),
               (''s'', MpStr (wire_size m r)),
               (''r'', MpBool reduce_only),
               (''t'', MpMap [(''limit'', MpMap [(''tif'', MpStr (time_in_force r ioc))])])]]),
            (''grouping'', MpStr ''na'')]"

definition cancel_value :: "meta_entry \<Rightarrow> u64 \<Rightarrow> mp_value" where
  "cancel_value m oid =
     MpMap [(''type'', MpStr ''cancel''),
            (''cancels'', MpArray [MpMap [
               (''a'', MpUint (word_of_int (me_asset m))),
               (''o'', MpUint oid)]])]"

lemma asset_text: "0 \<le> a \<Longrightarrow> a < 2 ^ 63 \<Longrightarrow> dec_string (unat (word_of_int a :: u64)) = int_string a"
  by (simp add: int_string_def unat_eq_nat_uint uint_word_of_int)

text \<open>C32: The bytes that are hashed and signed and the JSON that is sent are the MessagePack and
  the JSON form of one and the same action, for orders and for cancels: the same fields in the
  same order, with the same texts of price and size.  (Assets are numbered from 0; the number of
  a cancelled order is written without leading zeros, as the venue writes it.)\<close>

theorem action_signed_as_sent:
  assumes "0 \<le> me_asset m" and "me_asset m < 2 ^ 63"
  shows "order_action_bytes E r m ioc reduce_only = mp_pack [] (order_value E r m ioc reduce_only)
    \<and> order_action_json E r m ioc reduce_only = value_json (order_value E r m ioc reduce_only)
    \<and> cancel_action_bytes m oid = mp_pack [] (cancel_value m oid)
    \<and> cancel_action_json m (dec_string (unat oid)) = value_json (cancel_value m oid)
    \<and> stoull (dec_string (unat oid)) = Inr oid"
proof (intro conjI)
  show "order_action_bytes E r m ioc reduce_only = mp_pack [] (order_value E r m ioc reduce_only)"
    by (simp add: order_action_bytes_def order_value_def)
  show "order_action_json E r m ioc reduce_only = value_json (order_value E r m ioc reduce_only)"
    using assms by (simp add: order_action_json_def order_value_def asset_text)
  show "cancel_action_bytes m oid = mp_pack [] (cancel_value m oid)"
    by (simp add: cancel_action_bytes_def cancel_value_def)
  show "cancel_action_json m (dec_string (unat oid)) = value_json (cancel_value m oid)"
    using assms by (simp add: cancel_action_json_def cancel_value_def asset_text)
  show "stoull (dec_string (unat oid)) = Inr oid"
    using stoull_dec_string [of "[]" "unat oid"] unsigned_less [of oid, where ?'a = nat] by simp
qed

theorem action_signed_as_sent_witness:
  "cancel_action_bytes \<lparr>me_asset = 159, me_sz_decimals = 2\<rparr> 77 =
     mp_pack [] (cancel_value \<lparr>me_asset = 159, me_sz_decimals = 2\<rparr> 77)"
  using action_signed_as_sent [of "\<lparr>me_asset = 159, me_sz_decimals = 2\<rparr>" _ _ _ _ 77] by simp

section \<open>Numbers on the wire\<close>

lemma strip_zeros_split:
  obtains k where "s = strip_zeros s @ replicate k (CHR ''0'')"
proof -
  let ?z = "takeWhile (\<lambda>c. c = CHR ''0'') (rev s)"
  have z: "replicate (length ?z) (CHR ''0'') = ?z"
    by (rule replicate_length_same) (auto dest: set_takeWhileD)
  have "rev s = ?z @ rev (strip_zeros s)" by (simp add: strip_zeros_def)
  then have "s = strip_zeros s @ rev ?z" by (metis rev_append rev_rev_ident)
  also have "rev ?z = replicate (length ?z) (CHR ''0'')" by (subst z [symmetric]) (rule rev_replicate)
  finally show thesis by (rule that)
qed

lemma strip_zeros_point: "strip_zeros (a @ CHR ''.'' # p) = a @ CHR ''.'' # strip_zeros p"
proof -
  have "dropWhile (\<lambda>c. c = CHR ''0'') (rev p @ CHR ''.'' # rev a)
      = dropWhile (\<lambda>c. c = CHR ''0'') (rev p) @ CHR ''.'' # rev a"
    by (induction "rev p") (auto simp: dropWhile_append)
  then show ?thesis by (simp add: strip_zeros_def)
qed

lemma strip_zeros_last: "strip_zeros s \<noteq> [] \<Longrightarrow> last (strip_zeros s) \<noteq> CHR ''0''"
  using hd_dropWhile [of "\<lambda>c. c = CHR ''0''" "rev s"] by (simp add: strip_zeros_def last_rev)

lemma strip_zeros_digits: "\<forall>c \<in> set s. is_digit c \<Longrightarrow> \<forall>c \<in> set (strip_zeros s). is_digit c"
  by (auto simp: strip_zeros_def dest: set_dropWhileD)

lemma dec_number_append: "dec_number (a @ b) = dec_number a * 10 ^ length b + dec_number b"
proof (induction b rule: rev_induct)
  case Nil
  show ?case by (simp add: dec_number_def)
next
  case (snoc c b)
  then show ?case by (simp add: dec_number_snoc algebra_simps flip: append_assoc)
qed

lemma dec_number_zeros [simp]: "dec_number (replicate k (CHR ''0'')) = 0"
  by (induction k) (simp_all add: dec_number_append [of "[_]", simplified] dec_number_def digit_value_def)

lemma dec_string_length: "n < 10 ^ k \<Longrightarrow> 0 < k \<Longrightarrow> length (dec_string n) \<le> k"
proof (induction n arbitrary: k rule: dec_string.induct)
  case (1 n)
  show ?case
  proof (cases "n < 10")
    case True
    with "1.prems" show ?thesis by (subst dec_string.simps) simp
  next
    case False
    with "1.prems" have "1 < k" by (cases "k = 1") auto
    with "1.prems" have "n div 10 < 10 ^ (k - 1)" "0 < k - 1"
      by (auto simp: div_less_iff_less_mult simp flip: power_Suc2)
    with "1.IH" False show ?thesis by (subst dec_string.simps) fastforce
  qed
qed

lemma digit_signs: "is_digit (CHR ''0'')" "\<not> is_digit (CHR ''.'')"
  by (simp_all add: is_digit_def digit_value_def)

lemma pad8_props:
  assumes "n < 10 ^ 8"
  shows "length (pad8 n) = 8" and "\<forall>c \<in> set (pad8 n). is_digit c" and "dec_number (pad8 n) = n"
proof -
  have "length (dec_string n) \<le> 8" by (rule dec_string_length) (use assms in auto)
  then show "length (pad8 n) = 8" by (simp add: pad8_def Let_def)
  show "\<forall>c \<in> set (pad8 n). is_digit c"
    using dec_string_digits digit_signs(1) by (auto simp: pad8_def Let_def)
  show "dec_number (pad8 n) = n" by (simp add: pad8_def Let_def dec_number_append)
qed

text \<open>The text of a finite number: sign, whole part, and the fraction without trailing zeros.\<close>

lemma wire_text:
  fixes r :: rat
  defines "n \<equiv> nat (rne (\<bar>r\<bar> * 10 ^ 8))"
  defines "ds \<equiv> dec_string (n div 10 ^ 8)" and "fs \<equiv> strip_zeros (pad8 (n mod 10 ^ 8))"
  shows "float_to_wire (Fin r) = (if r < 0 then ''-'' else []) @ ds @ (if fs = [] then [] else CHR ''.'' # fs)"
    and "of_nat (dec_number (ds @ fs)) / (10 :: rat) ^ length fs = of_nat n / 10 ^ 8"
    and "length fs \<le> 8" and "\<forall>c \<in> set fs. is_digit c"
proof -
  let ?p = "pad8 (n mod 10 ^ 8)" and ?s = "if r < 0 then ''-'' else []"
  have p: "length ?p = 8" "\<forall>c \<in> set ?p. is_digit c" "dec_number ?p = n mod 10 ^ 8"
    by (rule pad8_props, simp)+
  have "strip_zeros (fixed8 (Fin r)) = (?s @ ds) @ CHR ''.'' # fs"
    using strip_zeros_point [of "?s @ ds" ?p] by (simp add: n_def ds_def fs_def Let_def)
  moreover have "fs \<noteq> [] \<Longrightarrow> last fs \<noteq> CHR ''.''"
    using strip_zeros_digits [OF p(2)] last_in_set [of fs] digit_signs(2) unfolding fs_def by metis
  ultimately show "float_to_wire (Fin r) = ?s @ ds @ (if fs = [] then [] else CHR ''.'' # fs)"
    by (auto simp: float_to_wire_def Let_def ds_def)
  obtain k where k: "?p = fs @ replicate k (CHR ''0'')" using strip_zeros_split unfolding fs_def .
  then have len: "length fs + k = 8" using p(1) by (metis length_append length_replicate)
  then show "length fs \<le> 8" by simp
  show "\<forall>c \<in> set fs. is_digit c" unfolding fs_def by (rule strip_zeros_digits [OF p(2)])
  have "dec_number (ds @ fs) * 10 ^ k = n"
    using arg_cong [OF k, of dec_number] p(3) len
    by (simp add: dec_number_append ds_def distrib_right mult.assoc flip: power_add)
  then have "(of_nat (dec_number (ds @ fs)) :: rat) * 10 ^ k = of_nat n" by (metis of_nat_mult of_nat_numeral of_nat_power)
  then show "of_nat (dec_number (ds @ fs)) / (10 :: rat) ^ length fs = of_nat n / 10 ^ 8"
  proof -
    have "(10 :: rat) ^ 8 = 10 ^ length fs * 10 ^ k" unfolding len [symmetric] by (rule power_add)
    then have "(of_nat n :: rat) / 10 ^ 8 = (of_nat (dec_number (ds @ fs)) * 10 ^ k) / (10 ^ length fs * 10 ^ k)"
      using \<open>of_nat (dec_number (ds @ fs)) * 10 ^ k = of_nat n\<close> by (simp only:)
    then show ?thesis by simp
  qed
qed

lemma scan_wire:
  assumes "\<forall>c \<in> set ds. is_digit c" and "ds \<noteq> []" and "\<forall>c \<in> set fs. is_digit c"
  shows "scan_float digit_value 10 10 (CHR ''e'') (ds @ (if fs = [] then [] else CHR ''.'' # fs))
    = Some (of_nat (dec_number (ds @ fs)) / 10 ^ length fs)"
proof -
  have digits: "(\<lambda>c. digit_value c \<noteq> None) = is_digit" by (simp add: fun_eq_iff is_digit_def)
  have all: "takeWhile is_digit ds = ds" "dropWhile is_digit ds = []" "takeWhile is_digit fs = fs" "dropWhile is_digit fs = []"
    using assms(1,3) by (simp_all add: takeWhile_eq_all_conv dropWhile_eq_Nil_conv)
  have point: "takeWhile is_digit (ds @ CHR ''.'' # fs) = ds" "dropWhile is_digit (ds @ CHR ''.'' # fs) = CHR ''.'' # fs"
    using assms(1) digit_signs(2) by (simp_all add: takeWhile_append2 dropWhile_append2)
  show ?thesis
    unfolding scan_float_def digits
    using assms(2) by (cases "fs = []") (simp_all add: Let_def all point exponent_of_def dec_number_def)
qed

text \<open>A wire text is parsed as a decimal number: it is no name and no hexadecimal number.\<close>

lemma stod_wire:
  assumes "\<forall>c \<in> set ds. is_digit c" and "ds \<noteq> []" and "\<forall>c \<in> set fs. is_digit c"
  shows "stod ((if neg then ''-'' else []) @ ds @ (if fs = [] then [] else CHR ''.'' # fs))
    = float_result neg (of_nat (dec_number (ds @ fs)) / 10 ^ length fs)"
proof -
  let ?t = "ds @ (if fs = [] then [] else CHR ''.'' # fs)"
  have strip: "strip_sign ((if neg then ''-'' else []) @ ?t) = (neg, ?t)"
    using strip_sign_digits [OF assms(2,1)] strip_sign_digits [OF assms(2,1), of "[]"] by simp
  have head: "is_digit (hd ds)" using assms(1,2) by simp
  then have low: "lower (hd ds) = hd ds" "hd ds \<noteq> CHR ''i''" "hd ds \<noteq> CHR ''n''"
    by (auto simp: is_digit_def digit_value_def lower_def Let_def split: if_splits)
  have nox: "take 2 (map lower ?t) \<noteq> ''0x''"
  proof (cases ds)
    case (Cons d es)
    show ?thesis
    proof (cases es)
      case Nil
      then show ?thesis using Cons by (cases fs) (simp_all add: lower_def numeral_2_eq_2)
    next
      case (Cons e es')
      then have "is_digit e" using assms(1) \<open>ds = d # es\<close> by simp
      then have "lower e \<noteq> CHR ''x''"
        by (auto simp: is_digit_def digit_value_def lower_def Let_def split: if_splits)
      then show ?thesis using Cons \<open>ds = d # es\<close> by (simp add: numeral_2_eq_2)
    qed
  qed (use assms(2) in simp)
  have "take 3 (map lower ?t) \<noteq> ''inf''" "take 3 (map lower ?t) \<noteq> ''nan''"
    using low assms(2) by (cases ds; auto simp: numeral_3_eq_3)+
  with nox show ?thesis
    by (simp add: stod_def strip scan_wire [OF assms] del: list.map_disc_iff map_append)
qed

text \<open>C33: A price or size is written without exponent, with at most eight decimals, without
  trailing zeros, and exactly: a reader gets the number rounded to eight decimals (half to
  even), and the number itself when it has no more than eight decimals.\<close>

theorem wire_number_exact:
  fixes r :: rat
  defines "n \<equiv> rne (\<bar>r\<bar> * 10 ^ 8)" and "s \<equiv> float_to_wire (Fin r)"
  shows "stod s = float_result (r < 0) (of_int n / 10 ^ 8)
    \<and> (CHR ''.'' \<in> set s \<longrightarrow> last s \<noteq> CHR ''0'' \<and> last s \<noteq> CHR ''.'')
    \<and> ((\<exists>k. r = of_int k / 10 ^ 8) \<longrightarrow> dbl_ok (Fin r) \<longrightarrow> stod s = Inr (Fin r))"
proof (intro conjI impI)
  let ?m = "nat (rne (\<bar>r\<bar> * 10 ^ 8))"
  let ?ds = "dec_string (?m div 10 ^ 8)" and ?fs = "strip_zeros (pad8 (?m mod 10 ^ 8))"
  note written = wire_text [of r]
  have "0 \<le> n" by (simp add: n_def rne_ge)
  then have m: "(of_nat ?m :: rat) = of_int n" by (simp add: n_def of_nat_nat)
  show stod: "stod s = float_result (r < 0) (of_int n / 10 ^ 8)"
    unfolding s_def written(1)
    by (subst stod_wire [OF dec_string_digits dec_string_not_Nil written(4)], subst written(2), subst m, rule refl)
  show "last s \<noteq> CHR ''0''" "last s \<noteq> CHR ''.''" if "CHR ''.'' \<in> set s"
  proof -
    have "CHR ''.'' \<notin> set ?ds" using dec_string_digits digit_signs(2) by blast
    then have fs: "?fs \<noteq> []" using that unfolding s_def written(1) by (auto split: if_splits)
    then have "last s = last ?fs" unfolding s_def written(1) by simp
    then show "last s \<noteq> CHR ''0''" "last s \<noteq> CHR ''.''"
      using strip_zeros_last [OF fs] last_in_set [OF fs] written(4) digit_signs(2) by auto
  qed
  assume "\<exists>k. r = of_int k / 10 ^ 8" and ok: "dbl_ok (Fin r)"
  then obtain k where "r = of_int k / 10 ^ 8" by blast
  then have "\<bar>r\<bar> * 10 ^ 8 = of_int \<bar>k\<bar>" by simp
  then have "of_int n = \<bar>r\<bar> * 10 ^ 8" unfolding n_def by (simp only: rne_of_int)
  then show "stod s = Inr (Fin r)"
    using ok unfolding stod by (simp add: float_result_def)
qed

theorem wire_number_exact_witness:
  "stod (float_to_wire (Fin (43 / 2))) = Inr (Fin (43 / 2))"
proof -
  have "\<exists>k. (43 / 2 :: rat) = of_int k / 10 ^ 8" by (intro exI [of _ 2150000000]) simp
  moreover have "dbl_ok (Fin (43 / 2))" by (simp add: double_eval)
  ultimately show ?thesis using wire_number_exact [of "43 / 2"] by blast
qed

section \<open>What is sent\<close>

fun action_of :: "hl_call \<Rightarrow> string option" where
  "action_of (HlAction body) = Some body"
| "action_of _ = None"

definition actions_sent :: "hl_world \<Rightarrow> string list" where
  "actions_sent w = List.map_filter action_of (hw_calls w)"

lemmas hl_method_defs = after_def hl_native_def hl_calls_def hl_http_post_def or_throw_def returns_def throws_def Let_def

lemma actions_sent_call:
  "actions_sent (w\<lparr>hw_calls := hw_calls w @ cs\<rparr>) = actions_sent w @ List.map_filter action_of cs"
  "actions_sent (w\<lparr>hw_native := n\<rparr>) = actions_sent w"
  by (simp_all add: actions_sent_def List.map_filter_def)

lemma actions_sent_call_then:
  "actions_sent (w\<lparr>hw_native := n, hw_calls := hw_calls w @ cs\<rparr>) = actions_sent w @ List.map_filter action_of cs"
  by (simp add: actions_sent_def List.map_filter_def)

lemma meta_for_coin_result:
  assumes "meta_for_coin E coin w = (res, w')"
  shows "actions_sent w' = actions_sent w" and "res = Inr m \<Longrightarrow> map_of (nh_meta (hw_native w')) coin = Some m"
proof -
  have "actions_sent w' = actions_sent w \<and> (\<forall>m. res = Inr m \<longrightarrow> map_of (nh_meta (hw_native w')) coin = Some m)"
    using assms
    by (auto simp: meta_for_coin_def ensure_meta_def store_meta_def hl_method_defs actions_sent_call actions_sent_call_then map_filter_simps
        split: if_splits sum.splits option.splits prod.splits)
  then show "actions_sent w' = actions_sent w" "res = Inr m \<Longrightarrow> map_of (nh_meta (hw_native w')) coin = Some m" by auto
qed

lemma send_order_result:
  assumes "send_order E r ioc reduce_only w = (res, w')"
  shows "(\<exists>e. res = Inl e) \<and> actions_sent w' = actions_sent w
    \<or> (\<exists>t m nonce h sig. res = Inr t \<and> fst t = he_action E (hw_calls w') \<and> map_of (nh_meta (hw_native w')) (hlr_coin r) = Some m
        \<and> order_action_hash E (hw_native w') r m ioc reduce_only nonce = Inr h
        \<and> sign_l1_action E (hw_native w') h = Inr sig
        \<and> actions_sent w' = actions_sent w
            @ [action_request (hw_native w') (order_action_json E r m ioc reduce_only) nonce sig])"
proof -
  obtain res0 w0 where m: "meta_for_coin E (hlr_coin r) w = (res0, w0)" by fastforce
  note quiet = meta_for_coin_result [OF m]
  show ?thesis
  proof (cases res0)
    case (Inl e)
    then show ?thesis using assms quiet(1) by (auto simp: m send_order_def after_def)
  next
    case (Inr entry)
    let ?nonce = "he_epoch_ms E (hw_calls w0 @ [HlClock])"
    note sent = assms [unfolded send_order_def after_def m Inr, simplified]
    note simps = post_exchange_action_def hl_method_defs actions_sent_call map_filter_simps quiet(1)
    show ?thesis
    proof (cases "order_action_hash E (hw_native w0) r entry ioc reduce_only ?nonce")
      case (Inl e)
      then show ?thesis using sent by (auto simp: simps)
    next
      case (Inr h)
      then show ?thesis
        using sent quiet(2) [OF \<open>res0 = Inr entry\<close>]
        by (cases "sign_l1_action E (hw_native w0) h"; cases "nh_action_transport (hw_native w0)"; auto simp: simps; blast)
    qed
  qed
qed

text \<open>C34: A maker order that is not a dry run sends one action or none: exactly one when an
  acknowledgement is returned, built from this order for the asset of its coin, with the nonce
  that was hashed and the signature of that hash; none when an exception is thrown (an unknown
  coin, a malformed key or vault address, a missing transport, a failing signature or query).
  The acknowledgement is good exactly when the venue's answer names a resting or a filled order.\<close>

theorem hl_order_signed_and_sent_once:
  assumes "\<not> hlr_dry_run r" and "hl_native_place_limit E r w = (res, w')"
  shows "case res of
      Inl e \<Rightarrow> actions_sent w' = actions_sent w
    | Inr ack \<Rightarrow> (\<exists>m nonce h sig. map_of (nh_meta (hw_native w')) (hlr_coin r) = Some m
        \<and> order_action_hash E (hw_native w') r m False False nonce = Inr h
        \<and> sign_l1_action E (hw_native w') h = Inr sig
        \<and> actions_sent w' = actions_sent w
            @ [action_request (hw_native w') (order_action_json E r m False False) nonce sig])
      \<and> (let body = ar_body (he_action E (hw_calls w')) in
           hla_ok ack = (resting_oid body \<noteq> None \<or> filled_oid body \<noteq> None)
           \<and> (hla_ok ack \<longrightarrow> Some (hla_oid ack) \<in> {resting_oid body, filled_oid body}))"
proof -
  obtain res0 w0 where s: "send_order E r False False w = (res0, w0)" by fastforce
  with assms have w': "w' = w0"
    by (auto simp: hl_native_place_limit_def after_def returns_def Let_def split: sum.splits prod.splits)
  show ?thesis
  proof (cases res0)
    case (Inl e)
    then have "res = Inl e"
      using assms s by (simp add: hl_native_place_limit_def after_def)
    then show ?thesis using send_order_result [OF s] Inl w' by auto
  next
    case (Inr t)
    then obtain ack where ack: "res = Inr ack"
      "hla_ok ack = (resting_oid (ar_body (fst t)) \<noteq> None \<or> filled_oid (ar_body (fst t)) \<noteq> None)"
      "hla_ok ack \<longrightarrow> Some (hla_oid ack) \<in> {resting_oid (ar_body (fst t)), filled_oid (ar_body (fst t))}"
      using assms s
      by (cases t) (auto simp: hl_native_place_limit_def after_def returns_def Let_def split: option.splits)
    then show ?thesis using send_order_result [OF s] Inr w' unfolding ack(1) by (auto simp: Let_def; blast)
  qed
qed

text \<open>A run that reaches the venue.\<close>

definition demo_key :: string where
  "demo_key = ''0x'' @ replicate 64 (CHR ''1'')"

definition demo_hl_native :: native_hl where
  "demo_hl_native = \<lparr>nh_api_url = [], nh_private_key = demo_key, nh_vault_address = None, nh_action_transport = True,
     nh_meta = [(''HYPE'', \<lparr>me_asset = 159, me_sz_decimals = 2\<rparr>)]\<rparr>"

definition demo_hl_env :: "string \<Rightarrow> hl_env" where
  "demo_hl_env body = \<lparr>he_http = (\<lambda>_. Inl ''unused''),
     he_action = (\<lambda>_. \<lparr>ar_body = body, ar_send_call_latency_ms = 0, ar_send_to_response_rx_latency_ms = 0,
       ar_response_rx_to_unblock_latency_ms = 0\<rparr>),
     he_epoch_ms = (\<lambda>_. 1700000000000), he_perf_ns = (\<lambda>_. 0), he_log10 = (\<lambda>_. 1),
     he_sign = (\<lambda>_ _. Some (replicate 64 7, 0))\<rparr>"

definition demo_hl_order :: hl_limit_order_request where
  "demo_hl_order = \<lparr>hlr_coin = ''HYPE'', hlr_is_buy = True, hlr_price = Fin (43 / 2), hlr_size = Fin 1,
     hlr_post_only = True, hlr_dry_run = False\<rparr>"

lemma demo_key_bytes: "hex_to_bytes demo_key = Inr (replicate 32 17)"
  unfolding demo_key_def by code_simp

definition demo_signature :: string where
  "demo_signature = ''{\"r\":\"'' @ bytes_to_hex (replicate 32 7) True @ ''\",\"s\":\"''
     @ bytes_to_hex (replicate 32 7) True @ ''\",\"v\":'' @ int_string 27 @ ''}''"

lemma demo_signs: "sign_l1_action (demo_hl_env body) demo_hl_native h = Inr demo_signature"
  by (simp add: sign_l1_action_def demo_key_bytes demo_hl_native_def demo_hl_env_def demo_signature_def)

lemma demo_hl_env_simps:
  "he_action (demo_hl_env body) cs = \<lparr>ar_body = body, ar_send_call_latency_ms = 0, ar_send_to_response_rx_latency_ms = 0,
     ar_response_rx_to_unblock_latency_ms = 0\<rparr>"
  "nh_meta demo_hl_native = [(''HYPE'', \<lparr>me_asset = 159, me_sz_decimals = 2\<rparr>)]" "nh_action_transport demo_hl_native"
  "nh_vault_address demo_hl_native = None" "hlr_coin demo_hl_order = ''HYPE''" "\<not> hlr_dry_run demo_hl_order"
  by (simp_all add: demo_hl_env_def demo_hl_native_def demo_hl_order_def)

lemma demo_hash: "\<exists>h. order_action_hash E demo_hl_native r m ioc reduce_only nonce = Inr h"
  by (simp add: order_action_hash_def append_vault_and_nonce_def demo_hl_env_simps)

lemma demo_hl_place:
  "\<exists>ack w'. hl_native_place_limit (demo_hl_env body) demo_hl_order \<lparr>hw_native = demo_hl_native, hw_calls = []\<rparr> = (Inr ack, w')
     \<and> actions_sent \<lparr>hw_native = demo_hl_native, hw_calls = []\<rparr> = []"
proof -
  obtain h where "order_action_hash (demo_hl_env body) demo_hl_native demo_hl_order \<lparr>me_asset = 159, me_sz_decimals = 2\<rparr>
      False False (he_epoch_ms (demo_hl_env body) [HlClock]) = Inr h"
    using demo_hash by blast
  then show ?thesis
    by (simp add: hl_native_place_limit_def send_order_def meta_for_coin_def ensure_meta_def post_exchange_action_def
        hl_method_defs demo_hl_env_simps demo_signs actions_sent_def map_filter_simps)
qed

theorem hl_order_signed_and_sent_once_witness:
  "\<exists>ack w'. hl_native_place_limit (demo_hl_env []) demo_hl_order \<lparr>hw_native = demo_hl_native, hw_calls = []\<rparr> = (Inr ack, w')
     \<and> length (actions_sent w') = 1"
proof -
  obtain ack w' where run: "hl_native_place_limit (demo_hl_env []) demo_hl_order \<lparr>hw_native = demo_hl_native, hw_calls = []\<rparr>
      = (Inr ack, w')" and none: "actions_sent \<lparr>hw_native = demo_hl_native, hw_calls = []\<rparr> = []"
    using demo_hl_place by blast
  show ?thesis
    using hl_order_signed_and_sent_once [OF demo_hl_env_simps(6) run] run none by auto
qed

section \<open>Cancels\<close>

text \<open>The venue's answer to a cancel it refuses.\<close>

definition refused_cancel :: string where
  "refused_cancel = ''{\"status\":\"ok\",\"response\":{\"type\":\"cancel\",\"data\":{\"statuses\":[{\"error\":\"Order was never placed, already canceled, or filled.\"}]}}}''"

text \<open>A cancel is acknowledged by the status of the request alone: when the venue refuses it,
  because the order has been filled, the acknowledgement is good all the same, and the engine
  takes a filled order for a cancelled one.\<close>

theorem refused_cancel_is_acknowledged:
  assumes "\<forall>cs. ar_body (he_action E cs) = refused_cancel" and "hl_native_cancel E coin oid False w = (Inr ack, w')"
  shows "hca_ok ack \<and> hca_oid ack = oid"
proof -
  have ok: "status_ok refused_cancel"
    by (simp add: status_ok_def refused_cancel_def contains_def find_from_zero)
  have answer: "ar_body t = refused_cancel" if "post_exchange_action E json h n u = (Inr (t, ms), u')" for json h n u t ms u'
    using that assms(1)
    by (auto simp: post_exchange_action_def hl_method_defs split: if_splits sum.splits)
  have "hca_ok ack = status_ok refused_cancel \<and> hca_oid ack = oid"
    using assms(2) unfolding hl_native_cancel_def
    by (auto simp: after_def returns_def split: sum.splits prod.splits dest!: answer)
  with ok show ?thesis by simp
qed

theorem refused_cancel_is_acknowledged_witness:
  "\<exists>ack w'. hl_native_cancel (demo_hl_env refused_cancel) ''HYPE'' ''77'' False \<lparr>hw_native = demo_hl_native, hw_calls = []\<rparr>
       = (Inr ack, w') \<and> hca_ok ack \<and> hca_oid ack = ''77''"
proof -
  have "dec_string 77 = ''77''" by code_simp
  then have "stoull ''77'' = Inr 77" using stoull_dec_string [of "[]" 77] by simp
  then have "\<exists>h. cancel_action_hash demo_hl_native \<lparr>me_asset = 159, me_sz_decimals = 2\<rparr> ''77'' n = Inr h" for n
    by (simp add: cancel_action_hash_def append_vault_and_nonce_def demo_hl_env_simps)
  then obtain h where "cancel_action_hash demo_hl_native \<lparr>me_asset = 159, me_sz_decimals = 2\<rparr> ''77''
      (he_epoch_ms (demo_hl_env refused_cancel) [HlClock]) = Inr h" by blast
  then have "\<exists>ack w'. hl_native_cancel (demo_hl_env refused_cancel) ''HYPE'' ''77'' False
      \<lparr>hw_native = demo_hl_native, hw_calls = []\<rparr> = (Inr ack, w')"
    by (simp add: hl_native_cancel_def meta_for_coin_def ensure_meta_def post_exchange_action_def
        hl_method_defs demo_hl_env_simps demo_signs)
  then obtain ack w' where run: "hl_native_cancel (demo_hl_env refused_cancel) ''HYPE'' ''77'' False
      \<lparr>hw_native = demo_hl_native, hw_calls = []\<rparr> = (Inr ack, w')" by blast
  then show ?thesis
    using refused_cancel_is_acknowledged [OF _ run] by (auto simp: demo_hl_env_simps)
qed

end
