(* ===== verification/Main_Loop.thy ===== *)
theory Main_Loop
  imports Engine_Hl_Run Engine_Lighter Risk Text Native_Lighter Native_Hl
begin

text \<open>
  \<open>src/main_live.cpp\<close>: the configuration from the environment, the callbacks that the feeds run
  on their threads, and one turn of the strategy loop, which drains the queues, supervises the
  connections with the kill switch, and runs the engine on the market data.  A turn is a
  function of what it reads from outside (\<open>tick_input\<close>); the queues' locks make a callback fall
  before or after the draining of a queue.  The console output is left out.
\<close>

section \<open>Configuration\<close>

datatype execution_policy = HlMakerLtTaker | LtMakerHlTaker

type_synonym environment = "string \<Rightarrow> string option"

definition env_or :: "environment \<Rightarrow> string \<Rightarrow> string \<Rightarrow> string" where
  "env_or V name fallback = (case V name of Some x \<Rightarrow> x | None \<Rightarrow> fallback)"

text \<open>Without the variable the program exits; the message is the first component.\<close>

definition env_required :: "environment \<Rightarrow> string \<Rightarrow> string + string" where
  "env_required V name = (case V name of
     Some x \<Rightarrow> if x = [] then Inl (''ERROR: '' @ name @ '' environment variable required'') else Inr x
   | None \<Rightarrow> Inl (''ERROR: '' @ name @ '' environment variable required''))"

definition env_double :: "environment \<Rightarrow> string \<Rightarrow> double \<Rightarrow> double" where
  "env_double V name fallback = (case V name of
     None \<Rightarrow> fallback
   | Some x \<Rightarrow> (case stod x of Inr d \<Rightarrow> d | Inl _ \<Rightarrow> fallback))"

definition env_int :: "environment \<Rightarrow> string \<Rightarrow> int \<Rightarrow> int" where
  "env_int V name fallback = (case V name of
     None \<Rightarrow> fallback
   | Some x \<Rightarrow> (case stoi x of Inr i \<Rightarrow> i | Inl _ \<Rightarrow> fallback))"

definition execution_policy_from_env :: "string \<Rightarrow> execution_policy" where
  "execution_policy_from_env x = (if x = ''lt_maker_hl_taker'' then LtMakerHlTaker else HlMakerLtTaker)"

text \<open>The four settings read with \<open>stod\<close> alone end the program when they are not numbers.\<close>

definition engine_config_from_env :: "environment \<Rightarrow> string + engine_config" where
  "engine_config_from_env V =
     (let strategy = \<lparr>spread_bps = env_double V ''SPREAD_BPS'' (D 2),
            close_spread_bps = env_double V ''CLOSE_SPREAD_BPS'' 0,
            cancel_band_bps = env_double V ''CANCEL_BAND_BPS'' (D (1 / 2)),
            pair_size_usd = env_double V ''PAIR_SIZE_USD'' (D 25),
            max_position_usd = env_double V ''MAX_POSITION_USD'' (D 100),
            max_quote_age_ms = 3000, min_rearm_ms = 500\<rparr>
      in case stod (env_or V ''HL_ORDER_INTERVAL_MS'' ''200'') of Inl e \<Rightarrow> Inl e
       | Inr hl_interval \<Rightarrow> (case stod (env_or V ''LIGHTER_ORDER_INTERVAL_MS'' ''500'') of Inl e \<Rightarrow> Inl e
       | Inr lighter_interval \<Rightarrow> (case stod (env_or V ''SPEC_HEDGE_MIN_CROSS_BPS'' ''1.0'') of Inl e \<Rightarrow> Inl e
       | Inr min_cross \<Rightarrow> (case stod (env_or V ''SPEC_HEDGE_MIN_TRADE_RATIO'' ''0.5'') of Inl e \<Rightarrow> Inl e
       | Inr min_ratio \<Rightarrow> Inr \<lparr>ec_strategy = strategy, hl_coin = ''HYPE'', lighter_market_id = 24,
           dry_run = (env_or V ''DRY_RUN'' ''true'' = ''true''), hl_order_interval_ms = trunc_dbl hl_interval,
           lighter_order_interval_ms = trunc_dbl lighter_interval,
           spec_hedge_min_cross_bps = min_cross, spec_hedge_min_trade_ratio = min_ratio\<rparr>))))"

definition risk_config_from_env :: "environment \<Rightarrow> risk_config" where
  "risk_config_from_env V =
     \<lparr>max_exposure_usd = env_double V ''MAX_POSITION_USD'' (D 100) * D 2, stale_quote_kill_ms = 5000,
      max_consecutive_hedge_failures = 3,
      max_single_trade_usd = env_double V ''PAIR_SIZE_USD'' (D 25) * D 2\<rparr>"

section \<open>The position query\<close>

text \<open>The answer is an exception, or a status and a body.\<close>

definition szi_of :: "string \<Rightarrow> string \<Rightarrow> string + double" where
  "szi_of coin body = (case find_from body (''\"coin\":\"'' @ coin @ ''\"'') 0 of
     None \<Rightarrow> Inr 0
   | Some p \<Rightarrow> (case find_from body ''\"szi\":\"'' p of
       None \<Rightarrow> Inr 0
     | Some q \<Rightarrow> (case find_from body ''\"'' (q + 7) of
         None \<Rightarrow> Inr 0
       | Some r \<Rightarrow> stod (substr body (q + 7) (r - (q + 7))))))"

definition query_hl_position :: "string \<Rightarrow> string + int \<times> string \<Rightarrow> double" where
  "query_hl_position coin answer = (case answer of
     Inl _ \<Rightarrow> 0
   | Inr (status, body) \<Rightarrow>
       (if status \<noteq> 200 then 0 else case szi_of coin body of Inl _ \<Rightarrow> 0 | Inr x \<Rightarrow> x))"

section \<open>The state of the program\<close>

record fill_event =
  fe_coin :: string
  fe_price :: double
  fe_size :: double
  fe_is_buy :: bool
  fe_oid :: string
  fe_fee :: double
  fe_local_rx_ns :: u64

record lighter_fill_event =
  lfe_price :: double
  lfe_size :: double
  lfe_is_ask :: bool
  lfe_order_index :: i64
  lfe_client_order_index :: i64
  lfe_tx_hash :: string
  lfe_local_rx_ns :: u64

text \<open>Exactly one of the two engines exists, as the policy says.\<close>

datatype live_engine = HlMaker engine | LtMaker lighter_engine

record main_state =
  ms_engine :: live_engine
  ms_risk :: risk_guard
  ms_fill_feed :: bool                  \<comment> \<open>whether it exists\<close>
  ms_fills :: "fill_event list"         \<comment> \<open>the queues, oldest first\<close>
  ms_lighter_fills :: "lighter_fill_event list"
  ms_trades :: "trade_event list"
  ms_tick_count :: u64
  ms_trade_count :: u64
  ms_last_log_tick :: u64
  ms_file :: csv_file

text \<open>The journal: the constructor's header, or else, when the file is still empty, the short one.\<close>

definition short_header :: message where
  "short_header = [Txt ''timestamp_us,type,hl_side,hl_px,hl_sz,lt_px,lt_sz,spread_bps,hl_oid,lt_tx'']"

definition open_journal :: "bool \<Rightarrow> bool \<Rightarrow> string \<Rightarrow> csv_file \<Rightarrow> trade_journal \<times> csv_file" where
  "open_journal opens opens_again path file =
     (let (j, f) = journal_new opens path file
      in (j, if (f = None \<or> f = Some []) \<and> opens_again then Some [short_header] else f))"

definition hl_native_start :: "string \<Rightarrow> native_hl" where
  "hl_native_start key = \<lparr>nh_api_url = ''https://api.hyperliquid.xyz'', nh_private_key = key,
     nh_vault_address = None, nh_action_transport = True, nh_meta = []\<rparr>"

definition lighter_config_from_env :: "environment \<Rightarrow> string \<Rightarrow> lighter_config" where
  "lighter_config_from_env V key = \<lparr>lc_api_url = ''https://mainnet.zklighter.elliot.ai'', lc_api_private_key = key,
     lc_account_index = env_int V ''LIGHTER_ACCOUNT_INDEX'' 0, lc_api_key_index = env_int V ''LIGHTER_API_KEY_INDEX'' 0,
     lc_market_index = 24\<rparr>"

definition lighter_native_new :: "lighter_config \<Rightarrow> native_lighter" where
  "lighter_native_new c = \<lparr>nl_config = c, nl_tx_transport = False, nl_position_waiter = False, nl_order_waiter = False,
     nl_cancel_waiter = False, nl_signer_loaded = False, nl_client_ready = False, nl_price_decimals = 4,
     nl_size_decimals = 2, nl_min_base_amount = 0, nl_nonce_cache = 0\<rparr>"

text \<open>Which feeds confirm orders, by the policy and by what connects in time.\<close>

definition wire_lighter :: "execution_policy \<Rightarrow> bool \<Rightarrow> bool \<Rightarrow> bool \<Rightarrow> native_lighter \<Rightarrow> native_lighter" where
  "wire_lighter policy position_feed_up account_feed_up sendtx_up n =
     (let n = (case policy of
            HlMakerLtTaker \<Rightarrow> if position_feed_up then n\<lparr>nl_position_waiter := True\<rparr> else n
          | LtMakerHlTaker \<Rightarrow> if account_feed_up then n\<lparr>nl_order_waiter := True, nl_cancel_waiter := True\<rparr> else n)
      in if sendtx_up then n\<lparr>nl_tx_transport := True\<rparr> else n)"

text \<open>
  The start of the program: what it is told from outside are whether the transport of the
  orders connects in time, the authorisation token (or an exception of the signer), the
  answer to the query of the position, and whether the journal can be opened.
\<close>

record start_input =
  si_post_connected :: bool
  si_auth_token :: "lighter_config \<Rightarrow> string + string"
  si_position_answer :: "string + int \<times> string"
  si_journal_opens :: bool
  si_journal_opens_again :: bool
  si_file :: csv_file

definition no_transport :: string where
  "no_transport = ''ERROR: hl ws_post transport unavailable; refusing to fall back to HTTP''"

definition start_engine :: "execution_policy \<Rightarrow> engine_config \<Rightarrow> string + live_engine" where
  "start_engine policy c = (case policy of
     HlMakerLtTaker \<Rightarrow> map_sum (\<lambda>e. e) HlMaker (engine_new c)
   | LtMakerHlTaker \<Rightarrow> map_sum (\<lambda>e. e) LtMaker (lighter_engine_new c))"

definition sync_position :: "string + int \<times> string \<Rightarrow> live_engine \<Rightarrow> live_engine" where
  "sync_position answer en = (case en of
     LtMaker _ \<Rightarrow> en
   | HlMaker e \<Rightarrow> (let init_pos = query_hl_position (hl_coin (en_config e)) answer
       in if deq init_pos 0 then en else HlMaker (set_hl_position init_pos e)))"

definition main_start :: "environment \<Rightarrow> start_input \<Rightarrow> string + main_state \<times> world" where
  "main_start V si =
     (case env_required V ''HL_PRIVATE_KEY'' of Inl e \<Rightarrow> Inl e | Inr hl_key \<Rightarrow>
     (case env_required V ''LIGHTER_API_PRIVATE_KEY'' of Inl e \<Rightarrow> Inl e | Inr lighter_key \<Rightarrow>
     (let policy = execution_policy_from_env (env_or V ''EXECUTION_POLICY'' ''hl_maker_lt_taker'') in
      if \<not> si_post_connected si then Inl no_transport
      else (case si_auth_token si (lighter_config_from_env V lighter_key) of Inl e \<Rightarrow> Inl e | Inr token \<Rightarrow>
     (case engine_config_from_env V of Inl e \<Rightarrow> Inl e | Inr c \<Rightarrow>
     (let (j, file) = open_journal (si_journal_opens si) (si_journal_opens_again si)
            (env_or V ''JOURNAL_PATH'' ''/home/ubuntu/lighter-hl-arb-cpp/trades.csv'') (si_file si) in
     (case start_engine policy c of Inl e \<Rightarrow> Inl e | Inr en \<Rightarrow>
       Inr (\<lparr>ms_engine = sync_position (si_position_answer si) en, ms_risk = risk_guard_new (risk_config_from_env V),
              ms_fill_feed = (policy = HlMakerLtTaker \<and> env_or V ''HL_USER_ADDRESS'' [] \<noteq> []),
              ms_fills = [], ms_lighter_fills = [], ms_trades = [], ms_tick_count = 0, ms_trade_count = 0,
              ms_last_log_tick = 0, ms_file = file\<rparr>,
            \<lparr>trace = [], perf = empty_collector, journal = Some j\<rparr>))))))))"

section \<open>Callbacks\<close>

definition fill_pushed :: "fill_event \<Rightarrow> main_state \<Rightarrow> main_state" where
  "fill_pushed f s = (if fe_coin f \<noteq> ''HYPE'' then s else s\<lparr>ms_fills := ms_fills s @ [f]\<rparr>)"

definition lighter_fill_pushed :: "lighter_trade_fill \<Rightarrow> u64 \<Rightarrow> main_state \<Rightarrow> main_state" where
  "lighter_fill_pushed f now s = s\<lparr>ms_lighter_fills := ms_lighter_fills s @
     [\<lparr>lfe_price = ltf_price f, lfe_size = ltf_size f, lfe_is_ask = ltf_is_ask f, lfe_order_index = ltf_order_index f,
       lfe_client_order_index = ltf_client_order_index f, lfe_tx_hash = ltf_tx_hash f, lfe_local_rx_ns = now\<rparr>]\<rparr>"

definition trade_pushed :: "trade_event \<Rightarrow> main_state \<Rightarrow> main_state" where
  "trade_pushed t s = (if te_coin t \<noteq> ''HYPE'' then s else s\<lparr>ms_trades := ms_trades s @ [t]\<rparr>)"

text \<open>Activating the kill switch cancels the maker order, without telling the engine.\<close>

definition cancel_active :: "env \<Rightarrow> main_state \<Rightarrow> world \<Rightarrow> world" where
  "cancel_active E s w = (case ms_engine s of
     HlMaker e \<Rightarrow> (case active_hl_oid e of
         Some oid \<Rightarrow> snd (hl_cancel E ''HYPE'' oid (dry_run (en_config e)) w)
       | None \<Rightarrow> w)
   | LtMaker _ \<Rightarrow> w)"

definition fills_lost_reason :: "string \<Rightarrow> string" where
  "fills_lost_reason reason = ''fill feed disconnected: '' @ reason"

definition not_subscribed :: string where
  "not_subscribed = ''fill feed not subscribed''"

definition stale_quotes :: string where
  "stale_quotes = ''stale quotes detected''"

definition fill_feed_lost :: "env \<Rightarrow> string \<Rightarrow> main_state \<Rightarrow> world \<Rightarrow> main_state \<times> world" where
  "fill_feed_lost E reason s w =
     (if kill_switch (ms_risk s) then (s, w)
      else (s\<lparr>ms_risk := activate_kill_switch (fills_lost_reason reason) (ms_risk s)\<rparr>, cancel_active E s w))"

section \<open>The queues\<close>

text \<open>The count goes up for every event that is logged; \<open>snaps i\<close> is the snapshot at the \<open>i\<close>-th fill.\<close>

definition counted :: "message list \<Rightarrow> u64 \<Rightarrow> u64" where
  "counted logs n = (if logs = [] then n else n + 1)"

fun process_fills ::
  "env \<Rightarrow> (nat \<Rightarrow> spread_snapshot) \<Rightarrow> fill_event list \<Rightarrow> engine \<times> u64 \<times> world \<Rightarrow> engine \<times> u64 \<times> world" where
  "process_fills E snaps [] st = st"
| "process_fills E snaps (f # fs) (e, n, w) =
     (let (logs, e, w) = on_hl_fill E (fe_price f) (fe_size f) (snaps 0) (fe_oid f) (fe_local_rx_ns f) (fe_fee f) e w
      in process_fills E (snaps \<circ> Suc) fs (e, counted logs n, w))"

fun process_trades :: "env \<Rightarrow> trade_event list \<Rightarrow> engine \<times> u64 \<times> world \<Rightarrow> engine \<times> u64 \<times> world" where
  "process_trades E [] st = st"
| "process_trades E (t # ts) (e, n, w) =
     (let (logs, e, w) = on_trade_event E t e w in process_trades E ts (e, counted logs n, w))"

fun process_lighter_fills ::
  "env \<Rightarrow> (nat \<Rightarrow> spread_snapshot) \<Rightarrow> lighter_fill_event list \<Rightarrow> lighter_engine \<times> u64 \<times> world
   \<Rightarrow> lighter_engine \<times> u64 \<times> world" where
  "process_lighter_fills E snaps [] st = st"
| "process_lighter_fills E snaps (f # fs) (e, n, w) =
     (let (logs, e, w) = on_lighter_fill E (lfe_price f) (lfe_size f) (snaps 0) (lfe_order_index f)
            (lfe_client_order_index f) (lfe_local_rx_ns f) e w
      in process_lighter_fills E (snaps \<circ> Suc) fs (e, counted logs n, w))"

definition drain_queues :: "env \<Rightarrow> (nat \<Rightarrow> spread_snapshot) \<Rightarrow> main_state \<Rightarrow> world \<Rightarrow> main_state \<times> world" where
  "drain_queues E snaps s w = (case ms_engine s of
     HlMaker e \<Rightarrow>
       (let (e, n, w) = process_fills E snaps (ms_fills s) (e, ms_trade_count s, w);
            (e, n, w) = process_trades E (ms_trades s) (e, n, w)
        in (s\<lparr>ms_engine := HlMaker e, ms_trade_count := n, ms_fills := [], ms_trades := []\<rparr>, w))
   | LtMaker e \<Rightarrow>
       (let (e, n, w) = process_lighter_fills E snaps (ms_lighter_fills s) (e, ms_trade_count s, w)
        in (s\<lparr>ms_engine := LtMaker e, ms_trade_count := n, ms_lighter_fills := []\<rparr>, w)))"

section \<open>Supervision\<close>

record tick_input =
  ti_fill_snapshots :: "nat \<Rightarrow> spread_snapshot"
  ti_snapshot :: spread_snapshot
  ti_now_ms :: i64
  ti_fills_subscribed :: bool                \<comment> \<open>\<open>fill_feed->is_subscribed()\<close>\<close>
  ti_position_answer :: "string + int \<times> string"
  ti_journal_opens :: bool

definition fills_subscribed :: "tick_input \<Rightarrow> main_state \<Rightarrow> bool" where
  "fills_subscribed ti s \<longleftrightarrow> (\<exists>e. ms_engine s = LtMaker e) \<or> \<not> ms_fill_feed s \<or> ti_fills_subscribed ti"

definition fills_reason :: "string \<Rightarrow> bool" where
  "fills_reason reason \<longleftrightarrow> reason = not_subscribed \<or> contains reason ''fill feed disconnected''"

text \<open>The fill feed: the switch goes on without a subscription, and off with it, after the
  engine's position has been compared with the venue's.\<close>

definition reconcile_position :: "double \<Rightarrow> engine \<Rightarrow> engine" where
  "reconcile_position actual_pos e =
     (if D (1 / 1000) < \<bar>actual_pos - hl_position_base e\<bar> then set_hl_position actual_pos e else e)"

definition supervise_fills :: "env \<Rightarrow> tick_input \<Rightarrow> main_state \<Rightarrow> world \<Rightarrow> main_state \<times> world" where
  "supervise_fills E ti s w = (case ms_engine s of
     LtMaker _ \<Rightarrow> (s, w)
   | HlMaker e \<Rightarrow>
       (if \<not> fills_subscribed ti s \<and> \<not> kill_switch (ms_risk s) then
          (s\<lparr>ms_risk := activate_kill_switch not_subscribed (ms_risk s)\<rparr>, cancel_active E s w)
        else if fills_subscribed ti s \<and> kill_switch (ms_risk s) \<and> fills_reason (kill_switch_reason (ms_risk s)) then
          (s\<lparr>ms_engine := HlMaker (reconcile_position (query_hl_position (hl_coin (en_config e)) (ti_position_answer ti)) e),
             ms_risk := reset_kill_switch (ms_risk s)\<rparr>, w)
        else (s, w)))"

definition quotes_stale :: "spread_snapshot \<Rightarrow> bool" where
  "quotes_stale snap \<longleftrightarrow> 5000 < quote_age_ms (lighter snap) \<or> 5000 < quote_age_ms (hl snap)"

definition supervise_quotes :: "spread_snapshot \<Rightarrow> main_state \<Rightarrow> main_state" where
  "supervise_quotes snap s =
     (if quotes_stale snap then
        (if kill_switch (ms_risk s) then s else s\<lparr>ms_risk := activate_kill_switch stale_quotes (ms_risk s)\<rparr>)
      else if kill_switch (ms_risk s) \<and> kill_switch_reason (ms_risk s) = stale_quotes then
        s\<lparr>ms_risk := reset_kill_switch (ms_risk s)\<rparr>
      else s)"

section \<open>A turn of the loop\<close>

definition quote_ages :: "spread_snapshot \<Rightarrow> world \<Rightarrow> world" where
  "quote_ages snap w =
     hot_path LighterQuoteAgeMs (word_of_int (max (quote_age_ms (lighter snap)) 0))
       (hot_path HlQuoteAgeMs (word_of_int (max (quote_age_ms (hl snap)) 0)) w)"

definition run_engine_on_market :: "env \<Rightarrow> i64 \<Rightarrow> main_state \<Rightarrow> world \<Rightarrow> main_state \<times> world" where
  "run_engine_on_market E now_ms s w = (case ms_engine s of
     HlMaker e \<Rightarrow> (let (_, e, w) = on_market_data E now_ms e w in (s\<lparr>ms_engine := HlMaker e\<rparr>, w))
   | LtMaker e \<Rightarrow> (let (_, e, w) = lighter_on_market_data E now_ms e w in (s\<lparr>ms_engine := LtMaker e\<rparr>, w)))"

definition flush_journal :: "bool \<Rightarrow> main_state \<Rightarrow> world \<Rightarrow> main_state \<times> world" where
  "flush_journal opens s w = (case journal w of
     None \<Rightarrow> (s, w)
   | Some j \<Rightarrow> (let (j, file) = journal_flush opens (j, ms_file s) in (s\<lparr>ms_file := file\<rparr>, w\<lparr>journal := Some j\<rparr>)))"

definition flush_telemetry :: "bool \<Rightarrow> main_state \<Rightarrow> world \<Rightarrow> main_state \<times> world" where
  "flush_telemetry opens s w =
     (if ms_tick_count s - ms_last_log_tick s < 500 then (s, w)
      else
        let (s, w) = flush_journal opens s w
        in (s\<lparr>ms_last_log_tick := ms_tick_count s\<rparr>, w\<lparr>perf := snd (drain_summary_lines (perf w))\<rparr>))"

definition main_tick :: "env \<Rightarrow> tick_input \<Rightarrow> main_state \<Rightarrow> world \<Rightarrow> main_state \<times> world" where
  "main_tick E ti s w =
     (let (s, w) = drain_queues E (ti_fill_snapshots ti) s w;
          snap = ti_snapshot ti;
          s = s\<lparr>ms_tick_count := ms_tick_count s + 1\<rparr>;
          w = quote_ages snap w
      in if bid (hl snap) \<le> 0 \<or> bid (lighter snap) \<le> 0 then (s, w)
         else
           let (s, w) = supervise_fills E ti s w;
               s = supervise_quotes snap s
           in if quotes_stale snap \<or> kill_switch (ms_risk s) then (s, w)
              else
                let (s, w) = run_engine_on_market E (ti_now_ms ti) s w
                in flush_telemetry (ti_journal_opens ti) s w)"

text \<open>Everything that happens to the state, in the order of the locks.\<close>

datatype main_event =
    FillPushed fill_event
  | LighterFillPushed lighter_trade_fill u64
  | TradePushed trade_event
  | FillFeedLost string
  | Tick tick_input

fun main_step :: "env \<Rightarrow> main_event \<Rightarrow> main_state \<times> world \<Rightarrow> main_state \<times> world" where
  "main_step E (FillPushed f) (s, w) = (fill_pushed f s, w)"
| "main_step E (LighterFillPushed f now) (s, w) = (lighter_fill_pushed f now s, w)"
| "main_step E (TradePushed t) (s, w) = (trade_pushed t s, w)"
| "main_step E (FillFeedLost reason) (s, w) = (if ms_fill_feed s then fill_feed_lost E reason s w else (s, w))"
| "main_step E (Tick ti) (s, w) = main_tick E ti s w"

text \<open>When the strategy thread wakes without an event.\<close>

definition wake_deadline :: "i64 \<Rightarrow> i64 option \<Rightarrow> i64" where
  "wake_deadline next_housekeeping retry_ms = (case retry_ms of
     None \<Rightarrow> next_housekeeping | Some r \<Rightarrow> min next_housekeeping (r * 1000000))"

definition next_housekeeping :: "i64 \<Rightarrow> i64 \<Rightarrow> i64" where
  "next_housekeeping now next = (if next \<le> now then now + 1000000000 else next)"

end
