(* ===== verification/Main_Loop_Safety.thy ===== *)
theory Main_Loop_Safety
  imports Main_Loop Engine_Hl_Safety
begin

text \<open>
  What the strategy loop guarantees and what it does not: market data makes the engine act only
  under supervision, the kill switch never latches, the limits of the risk guard are never
  consulted, and a failed query of the position wipes the engine's.
\<close>

section \<open>A concrete program\<close>

definition demo_main :: "engine \<Rightarrow> string option \<Rightarrow> main_state" where
  "demo_main e reason = \<lparr>ms_engine = HlMaker e,
     ms_risk = (case reason of None \<Rightarrow> id | Some r \<Rightarrow> activate_kill_switch r)
       (risk_guard_new \<lparr>max_exposure_usd = D 200, stale_quote_kill_ms = 5000,
         max_consecutive_hedge_failures = 3, max_single_trade_usd = D 50\<rparr>),
     ms_fill_feed = True, ms_fills = [], ms_lighter_fills = [], ms_trades = [], ms_tick_count = 0,
     ms_trade_count = 0, ms_last_log_tick = 0, ms_file = None\<rparr>"

definition demo_turn :: "bool \<Rightarrow> tick_input" where
  "demo_turn subscribed = \<lparr>ti_fill_snapshots = (\<lambda>_. demo_wide), ti_snapshot = demo_wide, ti_now_ms = 1000,
     ti_fills_subscribed = subscribed, ti_position_answer = Inl ''timeout'', ti_journal_opens = True\<rparr>"

lemma demo_drain: "drain_queues E snaps (demo_main e reason) w = (demo_main e reason, w)"
  by (simp add: drain_queues_def demo_main_def)

lemma demo_fresh:
  "\<not> bid (hl demo_wide) \<le> 0" "\<not> bid (lighter demo_wide) \<le> 0" "\<not> quotes_stale demo_wide"
  by (simp_all add: demo_wide_def quotes_stale_def double_eval)

section \<open>The parts of a turn\<close>

lemma drain_queues_frame:
  assumes "drain_queues E snaps s w = (s1, w1)"
  shows "ms_risk s1 = ms_risk s" "ms_fill_feed s1 = ms_fill_feed s" "ms_file s1 = ms_file s"
    "(\<exists>e. ms_engine s1 = LtMaker e) \<longleftrightarrow> (\<exists>e. ms_engine s = LtMaker e)"
  using assms by (auto simp: drain_queues_def split: live_engine.splits prod.splits)

definition only_cancels :: "venue_event list \<Rightarrow> bool" where
  "only_cancels evs \<longleftrightarrow> (\<forall>ev \<in> set evs. \<exists>coin oid dry ack. ev = HlCancel coin oid dry ack)"

lemma cancel_active_trace: "\<exists>evs. trace (cancel_active E s w) = trace w @ evs \<and> only_cancels evs"
  by (auto simp: cancel_active_def only_cancels_def hl_cancel_def Let_def split: live_engine.splits option.splits)

lemma supervise_fills_trace:
  assumes "supervise_fills E ti s w = (s', w')"
  shows "\<exists>evs. trace w' = trace w @ evs \<and> only_cancels evs"
  using assms cancel_active_trace [of E s w]
  by (auto simp: supervise_fills_def only_cancels_def split: live_engine.splits if_splits)

lemma quote_ages_trace [simp]: "trace (quote_ages snap w) = trace w"
  by (simp add: quote_ages_def)

text \<open>When the engine may be run on the market data of a turn.\<close>

definition may_trade :: "tick_input \<Rightarrow> main_state \<Rightarrow> bool" where
  "may_trade ti s \<longleftrightarrow>
     \<not> bid (hl (ti_snapshot ti)) \<le> 0 \<and> \<not> bid (lighter (ti_snapshot ti)) \<le> 0
     \<and> quote_age_ms (hl (ti_snapshot ti)) \<le> 5000 \<and> quote_age_ms (lighter (ti_snapshot ti)) \<le> 5000
     \<and> (if kill_switch (ms_risk s) then kill_switch_reason (ms_risk s) = stale_quotes
            \<or> fills_subscribed ti s \<and> fills_reason (kill_switch_reason (ms_risk s))
          else fills_subscribed ti s)"

lemma supervised_or_stopped:
  assumes "supervise_fills E ti s w = (s1, w1)" and "\<not> quotes_stale (ti_snapshot ti)"
    and "\<not> kill_switch (ms_risk (supervise_quotes (ti_snapshot ti) s1))"
  shows "if kill_switch (ms_risk s) then kill_switch_reason (ms_risk s) = stale_quotes
      \<or> fills_subscribed ti s \<and> fills_reason (kill_switch_reason (ms_risk s))
    else fills_subscribed ti s"
  using assms
  by (auto simp: supervise_fills_def supervise_quotes_def fills_subscribed_def activate_kill_switch_def
      reset_kill_switch_def stale_quotes_def not_subscribed_def split: live_engine.splits if_splits)

text \<open>C24: After the queues are drained, a turn of the loop sends nothing but cancels unless both
  books have a bid, no quote is older than five seconds, and the kill switch is off with the fill
  feed subscribed (or absent, or not needed, under the Lighter-maker policy), or was on for a reason
  that has just gone.\<close>

theorem market_orders_only_supervised:
  assumes "drain_queues E (ti_fill_snapshots ti) s w = (s1, w1)" and "main_tick E ti s w = (s', w')"
    and "\<not> may_trade ti s"
  shows "\<exists>evs. trace w' = trace w1 @ evs \<and> only_cancels evs"
proof -
  note frame = drain_queues_frame [OF assms(1)]
  let ?snap = "ti_snapshot ti" and ?s = "s1\<lparr>ms_tick_count := ms_tick_count s1 + 1\<rparr>"
  obtain s2 w2 where sup: "supervise_fills E ti ?s (quote_ages ?snap w1) = (s2, w2)" by fastforce
  have same: "fills_subscribed ti ?s \<longleftrightarrow> fills_subscribed ti s" using frame by (simp add: fills_subscribed_def)
  have none: "only_cancels []" by (simp add: only_cancels_def)
  show ?thesis
  proof (cases "bid (hl ?snap) \<le> 0 \<or> bid (lighter ?snap) \<le> 0")
    case True
    then show ?thesis using assms(1,2) none by (auto simp: main_tick_def Let_def)
  next
    case False
    have "quotes_stale ?snap \<or> kill_switch (ms_risk (supervise_quotes ?snap s2))"
    proof (rule ccontr)
      assume running: "\<not> ?thesis"
      with supervised_or_stopped [OF sup] same frame(1) have "may_trade ti s"
        using False by (auto simp: may_trade_def quotes_stale_def)
      with assms(3) show False by simp
    qed
    then have "w' = w2" using assms(1,2) sup False by (auto simp: main_tick_def Let_def)
    then show ?thesis using supervise_fills_trace [OF sup] by simp
  qed
qed

theorem market_orders_only_supervised_witness:
  "only_cancels (trace (snd (main_tick demo_env (demo_turn False) (demo_main demo_resting None) demo_world)))"
proof -
  have "\<not> may_trade (demo_turn False) (demo_main demo_resting None)"
    by (simp add: may_trade_def fills_subscribed_def demo_turn_def demo_main_def risk_guard_new_def)
  from market_orders_only_supervised [of demo_env, OF demo_drain surjective_pairing this, of demo_world]
  show ?thesis by (auto simp: demo_world_def)
qed

text \<open>The recovery of stale quotes hides a lost fill feed: while the kill switch is on for stale
  quotes, the check of the fill feed does nothing, and in the turn that finds the quotes fresh
  again the switch goes off and the engine runs although no fill can be reported.\<close>

theorem stale_recovery_skips_fill_check:
  assumes "drain_queues E (ti_fill_snapshots ti) s w = (s1, w1)" and "ms_engine s1 = HlMaker e"
    and "ms_fill_feed s" and "\<not> ti_fills_subscribed ti"
    and "kill_switch (ms_risk s)" and "kill_switch_reason (ms_risk s) = stale_quotes"
    and "\<not> bid (hl (ti_snapshot ti)) \<le> 0" and "\<not> bid (lighter (ti_snapshot ti)) \<le> 0"
    and "\<not> quotes_stale (ti_snapshot ti)" and "main_tick E ti s w = (s', w')"
    and "on_market_data E (ti_now_ms ti) e (quote_ages (ti_snapshot ti) w1) = (logs, e', w2)"
  shows "ms_engine s' = HlMaker e' \<and> trace w' = trace w2 \<and> \<not> kill_switch (ms_risk s')"
proof -
  note frame = drain_queues_frame [OF assms(1)]
  have "\<not> fills_reason stale_quotes"
    by (simp add: fills_reason_def stale_quotes_def not_subscribed_def contains_def find_from_zero)
  then show ?thesis
    using assms frame
    by (auto simp: main_tick_def Let_def supervise_fills_def fills_subscribed_def supervise_quotes_def
        reset_kill_switch_def run_engine_on_market_def flush_telemetry_def flush_journal_def split: prod.splits if_splits option.splits)
qed

theorem stale_recovery_skips_fill_check_witness:
  "let s = fst (main_tick demo_env (demo_turn False) (demo_main demo_engine (Some stale_quotes)) demo_world)
   in ms_engine s = HlMaker (fst (snd (on_market_data demo_env 1000 demo_engine (quote_ages demo_wide demo_world))))
    \<and> \<not> kill_switch (ms_risk s)"
proof -
  let ?s = "demo_main demo_engine (Some stale_quotes)"
  obtain logs e' w2 where run: "on_market_data demo_env 1000 demo_engine (quote_ages demo_wide demo_world) = (logs, e', w2)"
    by (rule prod_cases3)
  have s: "ms_engine ?s = HlMaker demo_engine" "ms_fill_feed ?s" "kill_switch (ms_risk ?s)"
    "kill_switch_reason (ms_risk ?s) = stale_quotes"
    by (simp_all add: demo_main_def activate_kill_switch_def)
  have t: "\<not> ti_fills_subscribed (demo_turn False)" "ti_snapshot (demo_turn False) = demo_wide" "ti_now_ms (demo_turn False) = 1000"
    by (simp_all add: demo_turn_def)
  from stale_recovery_skips_fill_check [OF demo_drain s(1,2) t(1) s(3,4) _ _ _ surjective_pairing, unfolded t(2,3), OF demo_fresh run] run
  show ?thesis by (simp add: Let_def)
qed

section \<open>The kill switch\<close>

definition known_reason :: "string \<Rightarrow> bool" where
  "known_reason reason \<longleftrightarrow> reason = stale_quotes \<or> reason = not_subscribed \<or> (\<exists>r. reason = fills_lost_reason r)"

definition risk_unused :: "main_state \<Rightarrow> bool" where
  "risk_unused s \<longleftrightarrow> consecutive_hedge_failures (ms_risk s) = 0 \<and> current_exposure_usd (ms_risk s) = 0
     \<and> (kill_switch (ms_risk s) \<longrightarrow> known_reason (kill_switch_reason (ms_risk s)))
     \<and> ((\<exists>e. ms_engine s = LtMaker e) \<longrightarrow> \<not> ms_fill_feed s
          \<and> (kill_switch (ms_risk s) \<longrightarrow> kill_switch_reason (ms_risk s) = stale_quotes))"

lemmas supervision_defs = supervise_fills_def supervise_quotes_def activate_kill_switch_def reset_kill_switch_def
  fill_feed_lost_def known_reason_def

lemma risk_unused_drain: "risk_unused s \<Longrightarrow> drain_queues E snaps s w = (s1, w1) \<Longrightarrow> risk_unused s1"
  using drain_queues_frame [of E snaps s w s1 w1] unfolding risk_unused_def by simp

lemma risk_unused_fills: "risk_unused s \<Longrightarrow> supervise_fills E ti s w = (s1, w1) \<Longrightarrow> risk_unused s1"
  by (auto simp: risk_unused_def supervision_defs split: live_engine.splits if_splits)

lemma risk_unused_quotes: "risk_unused s \<Longrightarrow> risk_unused (supervise_quotes snap s)"
  by (auto simp: risk_unused_def supervision_defs)

lemma risk_unused_market: "risk_unused s \<Longrightarrow> run_engine_on_market E now s w = (s1, w1) \<Longrightarrow> risk_unused s1"
  by (auto simp: risk_unused_def run_engine_on_market_def split: live_engine.splits prod.splits)

lemma risk_unused_flush: "risk_unused s \<Longrightarrow> flush_telemetry opens s w = (s1, w1) \<Longrightarrow> risk_unused s1"
  by (auto simp: risk_unused_def flush_telemetry_def flush_journal_def Let_def split: if_splits option.splits prod.splits)

lemma risk_unused_tick: "risk_unused s \<Longrightarrow> main_tick E ti s w = (s', w') \<Longrightarrow> risk_unused s'"
proof -
  assume inv: "risk_unused s" and tick: "main_tick E ti s w = (s', w')"
  obtain s1 w1 where d: "drain_queues E (ti_fill_snapshots ti) s w = (s1, w1)" by fastforce
  let ?s = "s1\<lparr>ms_tick_count := ms_tick_count s1 + 1\<rparr>" and ?w = "quote_ages (ti_snapshot ti) w1"
  have s1: "risk_unused ?s" using risk_unused_drain [OF inv d] by (simp add: risk_unused_def)
  obtain s2 w2 where f: "supervise_fills E ti ?s ?w = (s2, w2)" by fastforce
  let ?t = "supervise_quotes (ti_snapshot ti) s2"
  have s2: "risk_unused ?t" by (rule risk_unused_quotes [OF risk_unused_fills [OF s1 f]])
  obtain s3 w3 where m: "run_engine_on_market E (ti_now_ms ti) ?t w2 = (s3, w3)" by fastforce
  note s3 = risk_unused_market [OF s2 m]
  show ?thesis
    using tick s1 s2 risk_unused_flush [OF s3, of "ti_journal_opens ti" w3 s' w']
    by (auto simp: main_tick_def d f m Let_def split: if_splits)
qed

lemma risk_unused_step: "risk_unused s \<Longrightarrow> main_step E ev (s, w) = (s', w') \<Longrightarrow> risk_unused s'"
  by (cases ev)
    (auto simp: fill_pushed_def lighter_fill_pushed_def trade_pushed_def risk_unused_tick split: if_splits,
     auto simp: risk_unused_def fill_feed_lost_def activate_kill_switch_def known_reason_def split: if_splits)

lemma start_engine_hl: "start_engine HlMakerLtTaker c = Inr en \<Longrightarrow> sync_position answer en \<noteq> LtMaker e"
  by (cases "engine_new c") (auto simp: start_engine_def sync_position_def Let_def split: if_splits)

lemma risk_unused_start: "main_start V si = Inr (s, w) \<Longrightarrow> risk_unused s"
  by (auto simp: main_start_def risk_unused_def risk_guard_new_def Let_def dest: start_engine_hl
      split: sum.splits prod.splits if_splits)

lemma risk_unused_run: "fold (main_step E) evs (s, w) = (s', w') \<Longrightarrow> risk_unused s \<Longrightarrow> risk_unused s'"
proof (induction evs arbitrary: s w)
  case (Cons ev evs)
  obtain s1 w1 where st: "main_step E ev (s, w) = (s1, w1)" by fastforce
  with Cons risk_unused_step [OF Cons.prems(2) st] show ?case by simp
qed simp

text \<open>With fresh quotes and a subscribed fill feed every known reason goes away.\<close>

lemma known_reason_recovers:
  assumes "risk_unused s" and "fills_subscribed ti s" and "\<not> quotes_stale snap" and "supervise_fills E ti s w = (s1, w1)"
  shows "\<not> kill_switch (ms_risk (supervise_quotes snap s1))"
proof -
  have "fills_reason (fills_lost_reason r)" "fills_reason not_subscribed" for r
    by (simp_all add: fills_reason_def fills_lost_reason_def contains_def find_from_zero)
  then show ?thesis
    using assms by (auto simp: risk_unused_def supervision_defs split: live_engine.splits if_splits)
qed

lemma market_keeps_risk: "run_engine_on_market E now s w = (s1, w1) \<Longrightarrow> ms_risk s1 = ms_risk s"
  by (auto simp: run_engine_on_market_def split: live_engine.splits prod.splits)

lemma flush_keeps_risk: "flush_telemetry opens s w = (s1, w1) \<Longrightarrow> ms_risk s1 = ms_risk s"
  by (auto simp: flush_telemetry_def flush_journal_def Let_def split: if_splits option.splits prod.splits)

lemma tick_clears_kill_switch:
  assumes "risk_unused s" and "main_tick E ti s w = (s', w')" and "\<not> quotes_stale (ti_snapshot ti)"
    and "\<not> bid (hl (ti_snapshot ti)) \<le> 0" and "\<not> bid (lighter (ti_snapshot ti)) \<le> 0" and "fills_subscribed ti s"
  shows "\<not> kill_switch (ms_risk s')"
proof -
  obtain s1 w1 where d: "drain_queues E (ti_fill_snapshots ti) s w = (s1, w1)" by fastforce
  let ?s = "s1\<lparr>ms_tick_count := ms_tick_count s1 + 1\<rparr>" and ?w = "quote_ages (ti_snapshot ti) w1"
  have s1: "risk_unused ?s" using risk_unused_drain [OF assms(1) d] by (simp add: risk_unused_def)
  have "fills_subscribed ti ?s" using assms(6) drain_queues_frame [OF d] by (simp add: fills_subscribed_def)
  obtain s2 w2 where f: "supervise_fills E ti ?s ?w = (s2, w2)" by fastforce
  let ?t = "supervise_quotes (ti_snapshot ti) s2"
  have off: "\<not> kill_switch (ms_risk ?t)" by (rule known_reason_recovers [OF s1 \<open>fills_subscribed ti ?s\<close> assms(3) f])
  obtain s3 w3 where m: "run_engine_on_market E (ti_now_ms ti) ?t w2 = (s3, w3)" by fastforce
  show ?thesis
    using assms(2-5) off market_keeps_risk [OF m] flush_keeps_risk [of "ti_journal_opens ti" s3 w3 s' w']
    by (auto simp: main_tick_def d f m Let_def split: if_splits)
qed

text \<open>C25: The limits of the risk guard are never consulted: over any run of the program the counter of
  hedge failures and the exposure stay 0, so however many hedges fail the kill switch never
  goes on for it; its only reasons are stale quotes and the fill feed, and any turn with a bid in both
  books, fresh quotes and a subscribed fill feed switches it off.\<close>

theorem risk_limits_never_enforced:
  assumes "main_start V si = Inr (s0, w0)" and "fold (main_step E) evs (s0, w0) = (s, w)"
  shows "consecutive_hedge_failures (ms_risk s) = 0 \<and> current_exposure_usd (ms_risk s) = 0
    \<and> (kill_switch (ms_risk s) \<longrightarrow> known_reason (kill_switch_reason (ms_risk s)))
    \<and> (\<forall>ti s' w'. main_tick E ti s w = (s', w') \<longrightarrow> \<not> quotes_stale (ti_snapshot ti)
         \<longrightarrow> \<not> bid (hl (ti_snapshot ti)) \<le> 0 \<longrightarrow> \<not> bid (lighter (ti_snapshot ti)) \<le> 0
         \<longrightarrow> fills_subscribed ti s \<longrightarrow> \<not> kill_switch (ms_risk s'))"
proof -
  have inv: "risk_unused s" by (rule risk_unused_run [OF assms(2) risk_unused_start [OF assms(1)]])
  then show ?thesis using tick_clears_kill_switch [OF inv] unfolding risk_unused_def by blast
qed

definition demo_environment :: environment where
  "demo_environment name = (if name = ''HL_PRIVATE_KEY'' \<or> name = ''LIGHTER_API_PRIVATE_KEY'' then Some ''01'' else None)"

definition demo_start :: start_input where
  "demo_start = \<lparr>si_post_connected = True, si_auth_token = (\<lambda>_. Inr ''token''), si_position_answer = Inl ''timeout'',
     si_journal_opens = True, si_journal_opens_again = True, si_file = None\<rparr>"

lemma demo_main_start: "\<exists>s0 w0. main_start demo_environment demo_start = Inr (s0, w0)"
proof -
  have n: "stod ''200'' = Inr (D 200)" "stod ''500'' = Inr (D 500)" "stod ''1.0'' = Inr (D 1)" "stod ''0.5'' = Inr (D (1 / 2))"
    by (simp_all add: stod_eval)
  obtain c where c: "engine_config_from_env demo_environment = Inr c"
    "ec_strategy c = \<lparr>spread_bps = D 2, close_spread_bps = 0, cancel_band_bps = D (1 / 2), pair_size_usd = D 25,
       max_position_usd = D 100, max_quote_age_ms = 3000, min_rearm_ms = 500\<rparr>"
    by (simp add: engine_config_from_env_def env_double_def env_or_def demo_environment_def n)
  obtain e where "engine_new c = Inr e"
    by (simp add: engine_new_def c(2) hl_hedger_new_def double_eval)
  then show ?thesis
    by (simp add: main_start_def start_engine_def env_required_def env_or_def execution_policy_from_env_def c(1)
        demo_environment_def demo_start_def Let_def split: prod.splits)
qed

theorem risk_limits_never_enforced_witness:
  "\<exists>s0 w0 s w. main_start demo_environment demo_start = Inr (s0, w0)
     \<and> fold (main_step demo_env) [FillFeedLost ''closed'', Tick (demo_turn False), Tick (demo_turn True)] (s0, w0) = (s, w)
     \<and> consecutive_hedge_failures (ms_risk s) = 0 \<and> current_exposure_usd (ms_risk s) = 0"
proof -
  obtain s0 w0 where s0: "main_start demo_environment demo_start = Inr (s0, w0)" using demo_main_start by blast
  obtain s w where run: "fold (main_step demo_env) [FillFeedLost ''closed'', Tick (demo_turn False), Tick (demo_turn True)] (s0, w0)
    = (s, w)" by (meson prod.exhaust)
  from risk_limits_never_enforced [OF s0 run] s0 run show ?thesis by blast
qed

section \<open>The position query\<close>

lemma distance_from_zero:
  assumes "dbl_ok (Fin x)" "1 / 500 < \<bar>x\<bar>"
  shows "D (1 / 1000) < \<bar>0 - Fin x\<bar>"
proof -
  have "(0 :: double) - Fin x = Fin (- x)"
    using assms(1) rnd_uminus [of x] by (simp add: zero_double_def minus_double_def)
  moreover have "D (1 / 1000) \<le> Fin (1 / 500)" by (simp add: double_eval)
  ultimately show ?thesis using assms(2) by (cases "D (1 / 1000)") auto
qed

text \<open>When the position cannot be read (the query throws, or answers with another status than
  200) the venue's position counts as 0: after a reconnection of the fill feed the engine
  forgets a position of more than 0.001, so its position limit no longer holds, and the kill
  switch goes off.\<close>

theorem failed_query_forgets_position:
  assumes "ms_engine s = HlMaker e" and "hl_position_base e = Fin x" and "1 / 500 < \<bar>x\<bar>" and "dbl_ok (Fin x)"
    and "fills_subscribed ti s" and "kill_switch (ms_risk s)" and "fills_reason (kill_switch_reason (ms_risk s))"
    and "(\<exists>what. ti_position_answer ti = Inl what) \<or> (\<exists>status body. ti_position_answer ti = Inr (status, body) \<and> status \<noteq> 200)"
    and "supervise_fills E ti s w = (s', w')"
  shows "(\<exists>e'. ms_engine s' = HlMaker e' \<and> hl_position_base e' = 0) \<and> \<not> kill_switch (ms_risk s')"
proof -
  have q: "query_hl_position coin (ti_position_answer ti) = 0" for coin
    using assms(8) by (auto simp: query_hl_position_def)
  show ?thesis
    using distance_from_zero [OF assms(4,3)] assms(1,2,5-7,9) by (auto simp: supervise_fills_def reconcile_position_def q set_hl_position_def reset_kill_switch_def)
qed

theorem failed_query_forgets_position_witness:
  "let s = fst (supervise_fills demo_env (demo_turn True)
     (demo_main (demo_engine\<lparr>hl_position_base := D 5\<rparr>) (Some not_subscribed)) demo_world)
   in (\<exists>e'. ms_engine s = HlMaker e' \<and> hl_position_base e' = 0) \<and> \<not> kill_switch (ms_risk s)"
proof -
  let ?e = "demo_engine\<lparr>hl_position_base := D 5\<rparr>"
  let ?s = "demo_main ?e (Some not_subscribed)"
  have s: "ms_engine ?s = HlMaker ?e" "hl_position_base ?e = Fin 5" "fills_subscribed (demo_turn True) ?s"
    "kill_switch (ms_risk ?s)" "fills_reason (kill_switch_reason (ms_risk ?s))"
    by (simp_all add: demo_main_def activate_kill_switch_def fills_subscribed_def demo_turn_def fills_reason_def double_eval)
  have x: "1 / 500 < \<bar>5 :: rat\<bar>" "dbl_ok (Fin 5)" by (simp_all add: double_eval)
  have q: "(\<exists>what. ti_position_answer (demo_turn True) = Inl what) \<or> (\<exists>status body. ti_position_answer (demo_turn True) = Inr (status, body) \<and> status \<noteq> 200)"
    by (simp add: demo_turn_def)
  from failed_query_forgets_position [OF s(1,2) x s(3-5) q surjective_pairing] show ?thesis by (simp add: Let_def)
qed

end
