(* ===== verification/Ws_Client.thy ===== *)
theory Ws_Client
  imports Systems
begin

text \<open>
  \<open>src/ws_client.cpp\<close>: one websocket connection with its own IO thread.  The chain of asynchronous
  operations (resolve, connect, the two handshakes, read, the reconnect timer) has at most one
  outstanding; beside it run the writes and the ping timer.  A handler is a function of the
  state; \<open>client_step\<close> lets any handler run whose operation is outstanding, with any outcome.
  Sockets and their contents are Boost's; what remains of a write is the text given to it.  A callback
  for messages may throw, which ends the thread; that the callback for lost connections throws (in
  \<open>on_read\<close> or when the attempts are used up), which would end it too, is not modelled.
\<close>

section \<open>The client\<close>

record client_config =
  cc_host :: string
  cc_port :: string
  cc_path :: string
  cc_ping_interval_sec :: int
  cc_reconnect_delay_ms :: int
  cc_max_reconnect_attempts :: int      \<comment> \<open>0 is unlimited\<close>

datatype chain =
    Unstarted
  | Resolving
  | Connecting
  | TlsHandshake
  | WsHandshake
  | Reading
  | Backoff int                  \<comment> \<open>the reconnect timer, with its delay\<close>
  | GaveUp
  | Ended

datatype ping =
    PingOff
  | PingWait
  | Pinging

text \<open>The calls of the two callbacks, and the handshakes between them.\<close>

datatype client_call =
    Opened
  | Heard string
  | Lost string
  | Abandoned                    \<comment> \<open>\<open>on_disconnect_\<close> with ``max reconnect attempts''\<close>

record ws_client =
  wc_on_message :: bool          \<comment> \<open>whether the callback is set\<close>
  wc_on_disconnect :: bool
  wc_connected :: bool
  wc_closing :: bool
  wc_reconnect_count :: int
  wc_pending_sends :: "string list"
  wc_chain :: chain
  wc_ping :: ping
  wc_running :: bool             \<comment> \<open>the IO thread is in \<open>ioc_.run()\<close>\<close>
  wc_stopped :: bool             \<comment> \<open>\<open>ioc_\<close> was stopped, or ran out of work\<close>
  wc_posted :: "string list"     \<comment> \<open>the handlers of \<open>send\<close> that have not run, oldest first\<close>
  wc_close_posted :: bool
  wc_flushing :: "string list"   \<comment> \<open>what \<open>flush_pending\<close> still has, the first being written\<close>
  wc_writing :: nat              \<comment> \<open>writes of \<open>send\<close> outstanding\<close>
  wc_sent :: "string list"       \<comment> \<open>the messages given to \<open>send\<close>, oldest first\<close>
  wc_wire :: "string list"       \<comment> \<open>the messages whose write was started, oldest first\<close>
  wc_calls :: "client_call list" \<comment> \<open>oldest first\<close>

text \<open>A client whose callbacks were set, as every class of the program does before \<open>connect\<close>.\<close>

definition new_client :: ws_client where
  "new_client = \<lparr>wc_on_message = True, wc_on_disconnect = True, wc_connected = False, wc_closing = False,
     wc_reconnect_count = 0, wc_pending_sends = [], wc_chain = Unstarted, wc_ping = PingOff, wc_running = False,
     wc_stopped = False, wc_posted = [], wc_close_posted = False, wc_flushing = [], wc_writing = 0, wc_sent = [],
     wc_wire = [], wc_calls = []\<rparr>"

section \<open>Calls from other threads\<close>

definition do_resolve :: "ws_client \<Rightarrow> ws_client" where
  "do_resolve s = s\<lparr>wc_chain := Resolving\<rparr>"

definition do_close :: "ws_client \<Rightarrow> ws_client" where
  "do_close s = s\<lparr>wc_ping := PingOff, wc_connected := False, wc_chain := Ended, wc_close_posted := False,
     wc_running := False, wc_stopped := True\<rparr>"

text \<open>A stopped context runs nothing, and a posted \<open>do_close\<close> runs before the new \<open>do_resolve\<close>.\<close>

definition client_connect :: "ws_client \<Rightarrow> ws_client" where
  "client_connect s =
     (let s = s\<lparr>wc_closing := False, wc_reconnect_count := 0\<rparr>
      in if wc_stopped s then s
         else if wc_close_posted s then do_close s
         else do_resolve (s\<lparr>wc_running := True\<rparr>))"

definition client_send :: "string \<Rightarrow> ws_client \<Rightarrow> ws_client" where
  "client_send msg s = s\<lparr>wc_posted := wc_posted s @ [msg], wc_sent := wc_sent s @ [msg]\<rparr>"

definition client_close :: "ws_client \<Rightarrow> ws_client" where
  "client_close s = (if wc_closing s then s else s\<lparr>wc_closing := True, wc_close_posted := True\<rparr>)"

section \<open>Handlers\<close>

definition run_posted_send :: "ws_client \<Rightarrow> ws_client" where
  "run_posted_send s = (case wc_posted s of
     [] \<Rightarrow> s
   | msg # rest \<Rightarrow>
       (let s = s\<lparr>wc_posted := rest\<rparr>
        in if \<not> wc_connected s then s\<lparr>wc_pending_sends := wc_pending_sends s @ [msg]\<rparr>
           else s\<lparr>wc_writing := wc_writing s + 1, wc_wire := wc_wire s @ [msg]\<rparr>))"

definition calls_back :: "bool \<Rightarrow> client_call \<Rightarrow> ws_client \<Rightarrow> ws_client" where
  "calls_back installed c s = (if installed then s\<lparr>wc_calls := wc_calls s @ [c]\<rparr> else s)"

definition schedule_reconnect :: "client_config \<Rightarrow> ws_client \<Rightarrow> ws_client" where
  "schedule_reconnect cfg s =
     (if wc_closing s then s\<lparr>wc_chain := Ended\<rparr>
      else if 0 < cc_max_reconnect_attempts cfg \<and> cc_max_reconnect_attempts cfg \<le> wc_reconnect_count s then
        calls_back (wc_on_disconnect s) Abandoned (s\<lparr>wc_chain := GaveUp\<rparr>)
      else s\<lparr>wc_reconnect_count := wc_reconnect_count s + 1,
        wc_chain := Backoff (cc_reconnect_delay_ms cfg * (wc_reconnect_count s + 1))\<rparr>)"

text \<open>A new stream replaces the old one, whose writes and pings are aborted.\<close>

definition on_resolve :: "client_config \<Rightarrow> bool \<Rightarrow> ws_client \<Rightarrow> ws_client" where
  "on_resolve cfg ok s =
     (if \<not> ok then schedule_reconnect cfg s
      else s\<lparr>wc_chain := Connecting, wc_flushing := [], wc_writing := 0,
        wc_ping := (if wc_ping s = Pinging then PingOff else wc_ping s)\<rparr>)"

definition on_connect :: "client_config \<Rightarrow> bool \<Rightarrow> bool \<Rightarrow> ws_client \<Rightarrow> ws_client" where
  "on_connect cfg ok sni s =
     (if \<not> ok then schedule_reconnect cfg s
      else if \<not> sni then schedule_reconnect cfg s
      else s\<lparr>wc_chain := TlsHandshake\<rparr>)"

definition on_ssl_handshake :: "client_config \<Rightarrow> bool \<Rightarrow> ws_client \<Rightarrow> ws_client" where
  "on_ssl_handshake cfg ok s = (if \<not> ok then schedule_reconnect cfg s else s\<lparr>wc_chain := WsHandshake\<rparr>)"

text \<open>The list is what \<open>msgs\<close> has from \<open>idx\<close> on.\<close>

definition flush_pending :: "string list \<Rightarrow> ws_client \<Rightarrow> ws_client" where
  "flush_pending msgs s =
     (if msgs = [] \<or> \<not> wc_connected s then s\<lparr>wc_flushing := []\<rparr>
      else s\<lparr>wc_flushing := msgs, wc_wire := wc_wire s @ [hd msgs]\<rparr>)"

definition do_ping :: "ws_client \<Rightarrow> ws_client" where
  "do_ping s = (if wc_closing s \<or> \<not> wc_connected s then s else s\<lparr>wc_ping := PingWait\<rparr>)"

definition do_read :: "ws_client \<Rightarrow> ws_client" where
  "do_read s = s\<lparr>wc_chain := Reading\<rparr>"

definition on_ws_handshake :: "client_config \<Rightarrow> bool \<Rightarrow> ws_client \<Rightarrow> ws_client" where
  "on_ws_handshake cfg ok s =
     (if \<not> ok then schedule_reconnect cfg s
      else
        let s = s\<lparr>wc_connected := True, wc_reconnect_count := 0, wc_calls := wc_calls s @ [Opened]\<rparr>;
            pending = wc_pending_sends s;
            s = flush_pending pending (s\<lparr>wc_pending_sends := []\<rparr>)
        in do_ping (do_read s))"

text \<open>When the callback throws, the exception leaves \<open>ioc_.run()\<close> and the thread ends.\<close>

definition on_read_message :: "string \<Rightarrow> bool \<Rightarrow> ws_client \<Rightarrow> ws_client" where
  "on_read_message msg throws s =
     (let s = calls_back (wc_on_message s) (Heard msg) s
      in if wc_on_message s \<and> throws then s\<lparr>wc_running := False\<rparr> else do_read s)"

definition on_read_error :: "client_config \<Rightarrow> string \<Rightarrow> ws_client \<Rightarrow> ws_client" where
  "on_read_error cfg reason s =
     (let s = s\<lparr>wc_connected := False\<rparr>
      in if wc_closing s then s\<lparr>wc_chain := Ended\<rparr>
         else schedule_reconnect cfg (calls_back (wc_on_disconnect s) (Lost reason) s))"

definition on_pending_written :: "bool \<Rightarrow> ws_client \<Rightarrow> ws_client" where
  "on_pending_written ok s = (if \<not> ok then s\<lparr>wc_flushing := []\<rparr> else flush_pending (tl (wc_flushing s)) s)"

definition on_reconnect_timer :: "ws_client \<Rightarrow> ws_client" where
  "on_reconnect_timer s = (if wc_closing s then s\<lparr>wc_chain := Ended\<rparr> else do_resolve s)"

definition on_ping_timer :: "ws_client \<Rightarrow> ws_client" where
  "on_ping_timer s = s\<lparr>wc_ping := (if wc_closing s then PingOff else Pinging)\<rparr>"

definition on_ping :: "bool \<Rightarrow> ws_client \<Rightarrow> ws_client" where
  "on_ping ok s = (let s = s\<lparr>wc_ping := PingOff\<rparr> in if \<not> ok then s else do_ping s)"

section \<open>Steps\<close>

datatype client_event =
    CallConnect
  | CallSend string
  | CallClose
  | PostedSend
  | PostedClose
  | Resolved bool
  | Connected bool bool
  | TlsDone bool
  | WsDone bool
  | ReadMessage string bool
  | ReadError string
  | PendingWritten bool
  | Written
  | ReconnectTimer
  | PingTimer
  | PingDone bool
  | OutOfWork

text \<open>A second \<open>connect\<close> needs a \<open>close\<close> that has joined the thread.\<close>

fun possible :: "ws_client \<Rightarrow> client_event \<Rightarrow> bool" where
  "possible s CallConnect = (\<not> wc_running s \<and> (wc_chain s = Unstarted \<or> wc_closing s))"
| "possible s (CallSend msg) = True"
| "possible s CallClose = True"
| "possible s PostedSend = (wc_running s \<and> wc_posted s \<noteq> [])"
| "possible s PostedClose = (wc_running s \<and> wc_close_posted s)"
| "possible s (Resolved ok) = (wc_running s \<and> wc_chain s = Resolving)"
| "possible s (Connected ok sni) = (wc_running s \<and> wc_chain s = Connecting)"
| "possible s (TlsDone ok) = (wc_running s \<and> wc_chain s = TlsHandshake)"
| "possible s (WsDone ok) = (wc_running s \<and> wc_chain s = WsHandshake)"
| "possible s (ReadMessage msg throws) = (wc_running s \<and> wc_chain s = Reading)"
| "possible s (ReadError reason) = (wc_running s \<and> wc_chain s = Reading)"
| "possible s (PendingWritten ok) = (wc_running s \<and> wc_flushing s \<noteq> [])"
| "possible s Written = (wc_running s \<and> 0 < wc_writing s)"
| "possible s ReconnectTimer = (wc_running s \<and> (\<exists>delay. wc_chain s = Backoff delay))"
| "possible s PingTimer = (wc_running s \<and> wc_ping s = PingWait)"
| "possible s (PingDone ok) = (wc_running s \<and> wc_ping s = Pinging)"
| "possible s OutOfWork = (wc_running s \<and> (wc_chain s = GaveUp \<or> wc_chain s = Ended) \<and> wc_posted s = []
     \<and> \<not> wc_close_posted s \<and> wc_flushing s = [] \<and> wc_writing s = 0 \<and> wc_ping s = PingOff)"

fun handle :: "client_config \<Rightarrow> client_event \<Rightarrow> ws_client \<Rightarrow> ws_client" where
  "handle cfg CallConnect s = client_connect s"
| "handle cfg (CallSend msg) s = client_send msg s"
| "handle cfg CallClose s = client_close s"
| "handle cfg PostedSend s = run_posted_send s"
| "handle cfg PostedClose s = do_close s"
| "handle cfg (Resolved ok) s = on_resolve cfg ok s"
| "handle cfg (Connected ok sni) s = on_connect cfg ok sni s"
| "handle cfg (TlsDone ok) s = on_ssl_handshake cfg ok s"
| "handle cfg (WsDone ok) s = on_ws_handshake cfg ok s"
| "handle cfg (ReadMessage msg throws) s = on_read_message msg throws s"
| "handle cfg (ReadError reason) s = on_read_error cfg reason s"
| "handle cfg (PendingWritten ok) s = on_pending_written ok s"
| "handle cfg Written s = s\<lparr>wc_writing := wc_writing s - 1\<rparr>"
| "handle cfg ReconnectTimer s = on_reconnect_timer s"
| "handle cfg PingTimer s = on_ping_timer s"
| "handle cfg (PingDone ok) s = on_ping ok s"
| "handle cfg OutOfWork s = s\<lparr>wc_running := False, wc_stopped := True\<rparr>"

text \<open>A run is a list of events, each possible when it happens.\<close>

fun runs :: "client_config \<Rightarrow> client_event list \<Rightarrow> ws_client \<Rightarrow> ws_client \<Rightarrow> bool" where
  "runs cfg [] s t \<longleftrightarrow> t = s"
| "runs cfg (ev # evs) s t \<longleftrightarrow> possible s ev \<and> runs cfg evs (handle cfg ev s) t"

definition client_step :: "client_config \<Rightarrow> ws_client \<Rightarrow> ws_client \<Rightarrow> bool" where
  "client_step cfg s t \<longleftrightarrow> (\<exists>ev. possible s ev \<and> t = handle cfg ev s)"

definition client_is_new :: "ws_client \<Rightarrow> bool" where
  "client_is_new s \<longleftrightarrow> s = new_client"

lemma runs_append: "runs cfg (evs @ evs') s u \<longleftrightarrow> (\<exists>t. runs cfg evs s t \<and> runs cfg evs' t u)"
  by (induction evs arbitrary: s) auto

lemma runs_steps: "runs cfg evs s t \<Longrightarrow> (client_step cfg)\<^sup>*\<^sup>* s t"
proof (induction evs arbitrary: s)
  case (Cons ev evs)
  then have "client_step cfg s (handle cfg ev s)" by (auto simp: client_step_def)
  with Cons show ?case by (auto intro: converse_rtranclp_into_rtranclp)
qed simp

lemmas client_defs = do_resolve_def do_close_def client_connect_def client_send_def client_close_def
  run_posted_send_def calls_back_def schedule_reconnect_def on_resolve_def on_connect_def on_ssl_handshake_def
  flush_pending_def do_ping_def do_read_def on_ws_handshake_def on_read_message_def on_read_error_def
  on_pending_written_def on_reconnect_timer_def on_ping_timer_def on_ping_def Let_def

end
