(* ===== verification/Feed_Sessions.thy ===== *)
theory Feed_Sessions
  imports Ws_Client Feeds
begin

text \<open>
  The feeds of \<open>src/market_feed.cpp\<close> on their connections (\<open>src/ws_client.cpp\<close>): \<open>start\<close> installs the
  handlers of the feed as callbacks of a client, queues the subscription and connects.  A
  callback runs inside the handler of the client that calls it; what it sends is posted, so
  the client's handler does not see it, and it is appended after the handler here.
\<close>

section \<open>A feed on a connection\<close>

record 'f feed_ops =
  fo_hear :: "string \<Rightarrow> 'f \<Rightarrow> bool \<times> string list \<times> 'f"   \<comment> \<open>throws, sends, the feed\<close>
  fo_lose :: "string \<Rightarrow> 'f \<Rightarrow> string list \<times> 'f"
  fo_start :: "'f \<Rightarrow> string list"

record 'f feed_session =
  fs_client :: ws_client
  fs_feed :: 'f

definition max_attempts_text :: string where
  "max_attempts_text = ''max reconnect attempts''"

fun call_feed :: "'f feed_ops \<Rightarrow> client_call \<Rightarrow> 'f \<Rightarrow> string list \<times> 'f" where
  "call_feed ops Opened f = ([], f)"
| "call_feed ops (Heard msg) f = snd (fo_hear ops msg f)"
| "call_feed ops (Lost reason) f = fo_lose ops reason f"
| "call_feed ops Abandoned f = fo_lose ops max_attempts_text f"

fun call_feeds :: "'f feed_ops \<Rightarrow> client_call list \<Rightarrow> 'f \<Rightarrow> string list \<times> 'f" where
  "call_feeds ops [] f = ([], f)"
| "call_feeds ops (c # cs) f =
     (let (out, f) = call_feed ops c f; (out', f) = call_feeds ops cs f in (out @ out', f))"

definition send_all :: "string list \<Rightarrow> ws_client \<Rightarrow> ws_client" where
  "send_all msgs c = fold client_send msgs c"

definition session_start :: "'f feed_ops \<Rightarrow> 'f \<Rightarrow> 'f feed_session" where
  "session_start ops f = \<lparr>fs_client = client_connect (send_all (fo_start ops f) new_client), fs_feed = f\<rparr>"

text \<open>The calls that the client's handler makes are those it adds to its record of them.\<close>

definition session_handle :: "'f feed_ops \<Rightarrow> client_config \<Rightarrow> client_event \<Rightarrow> 'f feed_session \<Rightarrow> 'f feed_session" where
  "session_handle ops cfg ev s =
     (let c = handle cfg ev (fs_client s);
          calls = drop (length (wc_calls (fs_client s))) (wc_calls c);
          (out, f) = call_feeds ops calls (fs_feed s)
      in \<lparr>fs_client = send_all out c, fs_feed = f\<rparr>)"

text \<open>Only the feed sends on its connection, it connects once, and a message throws when its handler does.\<close>

definition session_possible :: "'f feed_ops \<Rightarrow> 'f feed_session \<Rightarrow> client_event \<Rightarrow> bool" where
  "session_possible ops s ev \<longleftrightarrow> possible (fs_client s) ev \<and>
     (case ev of
        CallConnect \<Rightarrow> False
      | CallSend msg \<Rightarrow> False
      | ReadMessage msg throws \<Rightarrow> throws = fst (fo_hear ops msg (fs_feed s))
      | _ \<Rightarrow> True)"

fun session_runs :: "'f feed_ops \<Rightarrow> client_config \<Rightarrow> client_event list \<Rightarrow> 'f feed_session \<Rightarrow> 'f feed_session \<Rightarrow> bool" where
  "session_runs ops cfg [] s t \<longleftrightarrow> t = s"
| "session_runs ops cfg (ev # evs) s t \<longleftrightarrow>
     session_possible ops s ev \<and> session_runs ops cfg evs (session_handle ops cfg ev s) t"

definition session_stop :: "'f feed_session \<Rightarrow> 'f feed_session" where
  "session_stop s = s\<lparr>fs_client := client_close (fs_client s)\<rparr>"

definition feed_client_config :: "string \<Rightarrow> string \<Rightarrow> int \<Rightarrow> client_config" where
  "feed_client_config host path ping_interval_sec =
     \<lparr>cc_host = host, cc_port = ''443'', cc_path = path, cc_ping_interval_sec = ping_interval_sec,
      cc_reconnect_delay_ms = 1000, cc_max_reconnect_attempts = 0\<rparr>"

text \<open>The polls of \<open>wait_until_connected\<close>, every 20 ms until the deadline, and the last reading.\<close>

fun wait_until_connected :: "ws_client list \<Rightarrow> ws_client \<Rightarrow> bool" where
  "wait_until_connected [] final = wc_connected final"
| "wait_until_connected (c # cs) final = (if wc_connected c then True else wait_until_connected cs final)"

section \<open>The feeds\<close>

text \<open>The fill feed; its handlers do not throw.\<close>

fun fills_out :: "fill_effect list \<Rightarrow> string list" where
  "fills_out [] = []"
| "fills_out (SendFills msg # es) = msg # fills_out es"
| "fills_out (_ # es) = fills_out es"

definition fill_ops :: "hl_fill_feed feed_ops" where
  "fill_ops = \<lparr>
     fo_hear = (\<lambda>msg f. let (es, f) = fills_on_message msg f in (False, fills_out es, f)),
     fo_lose = (\<lambda>reason f. let (es, f) = fills_on_disconnect reason f in (fills_out es, f)),
     fo_start = (\<lambda>f. fills_out (fills_subscribe f))\<rparr>"

definition fills_is_subscribed :: "hl_fill_feed feed_session \<Rightarrow> bool" where
  "fills_is_subscribed s \<longleftrightarrow> wc_connected (fs_client s) \<and> hf_subscribed (fs_feed s)"

text \<open>The position feed and the account feed.\<close>

definition position_ops :: "position_feed feed_ops" where
  "position_ops = \<lparr>
     fo_hear = (\<lambda>msg f. let (e, out, f) = positions_on_message msg f in (e \<noteq> None, out, f)),
     fo_lose = (\<lambda>reason f. positions_on_disconnect f),
     fo_start = positions_subscribe\<rparr>"

definition positions_is_subscribed :: "position_feed feed_session \<Rightarrow> bool" where
  "positions_is_subscribed s \<longleftrightarrow> wc_connected (fs_client s) \<and> pz_subscribed (fs_feed s)"

fun account_out :: "account_effect list \<Rightarrow> string list" where
  "account_out [] = []"
| "account_out (SendAccount msg # es) = msg # account_out es"
| "account_out (AccountFilled x # es) = account_out es"

definition account_ops :: "account_feed feed_ops" where
  "account_ops = \<lparr>
     fo_hear = (\<lambda>msg f. let (e, es, f) = account_on_message msg f in (e \<noteq> None, account_out es, f)),
     fo_lose = (\<lambda>reason f. let (es, f) = account_on_disconnect f in (account_out es, f)),
     fo_start = (\<lambda>f. account_out (account_subscribe f))\<rparr>"

definition account_is_subscribed :: "account_feed feed_session \<Rightarrow> bool" where
  "account_is_subscribed s \<longleftrightarrow>
     wc_connected (fs_client s) \<and> af_orders_subscribed (fs_feed s) \<and> af_trades_subscribed (fs_feed s)"

text \<open>
  The two connections of the market feed, each with the fields it writes.  The clock of a
  message is that of its number.
\<close>

record market_side =
  mk_feed :: market_feed
  mk_perf :: perf_collector
  mk_heard :: nat

fun market_out :: "market_effect list \<Rightarrow> string list" where
  "market_out [] = []"
| "market_out (SendHl msg # es) = msg # market_out es"
| "market_out (SendLighter msg # es) = msg # market_out es"
| "market_out (_ # es) = market_out es"

definition market_heard ::
  "(market_feed \<Rightarrow> perf_collector \<Rightarrow> market_effect list \<times> market_feed \<times> perf_collector) \<Rightarrow> market_side
     \<Rightarrow> bool \<times> string list \<times> market_side" where
  "market_heard h s =
     (let (es, f, p) = h (mk_feed s) (mk_perf s)
      in (False, market_out es, \<lparr>mk_feed = f, mk_perf = p, mk_heard = mk_heard s + 1\<rparr>))"

definition market_lost :: "(market_feed \<Rightarrow> market_effect list \<times> market_feed) \<Rightarrow> market_side \<Rightarrow> string list \<times> market_side" where
  "market_lost h s = (let (es, f) = h (mk_feed s) in (market_out es, s\<lparr>mk_feed := f\<rparr>))"

definition hl_market_ops :: "(nat \<Rightarrow> nat \<Rightarrow> u64) \<Rightarrow> market_side feed_ops" where
  "hl_market_ops clock = \<lparr>
     fo_hear = (\<lambda>msg s. market_heard (on_hl_message (clock (mk_heard s)) msg) s),
     fo_lose = (\<lambda>reason. market_lost on_hl_disconnect),
     fo_start = (\<lambda>s. market_out (subscribe_hl (mk_feed s)))\<rparr>"

definition lighter_market_ops :: "(nat \<Rightarrow> nat \<Rightarrow> u64) \<Rightarrow> market_side feed_ops" where
  "lighter_market_ops clock = \<lparr>
     fo_hear = (\<lambda>msg s. market_heard (on_lighter_message (clock (mk_heard s)) msg) s),
     fo_lose = (\<lambda>reason. market_lost on_lighter_disconnect),
     fo_start = (\<lambda>s. [])\<rparr>"

lemmas feed_ops_defs = fill_ops_def position_ops_def account_ops_def hl_market_ops_def lighter_market_ops_def
  market_heard_def market_lost_def

end
