(* ===== verification/Ws_Client_Safety.thy ===== *)
theory Ws_Client_Safety
  imports Ws_Client
begin

text \<open>
  The connection of \<open>ws_client.cpp\<close>: the callbacks tell its sessions truly, reconnecting ends
  after the allowed number of attempts, and messages are written in order as long as nothing is
  sent while the pending ones are flushed.
\<close>

section \<open>Sessions\<close>

text \<open>Whether the calls tell of an open connection at their end; \<open>None\<close> when they make no sense.\<close>

fun session_of :: "bool \<Rightarrow> client_call list \<Rightarrow> bool option" where
  "session_of up [] = Some up"
| "session_of up (Opened # cs) = (if up then None else session_of True cs)"
| "session_of up (Heard msg # cs) = (if up then session_of True cs else None)"
| "session_of up (Lost reason # cs) = (if up then session_of False cs else None)"
| "session_of up (Abandoned # cs) = (if up then None else session_of False cs)"

lemma session_of_append:
  "session_of up (cs @ ds) = (case session_of up cs of None \<Rightarrow> None | Some u \<Rightarrow> session_of u ds)"
  by (induction up cs rule: session_of.induct) auto

definition attempts_inv :: "client_config \<Rightarrow> ws_client \<Rightarrow> bool" where
  "attempts_inv cfg s \<longleftrightarrow> 0 \<le> wc_reconnect_count s
     \<and> (0 < cc_max_reconnect_attempts cfg \<longrightarrow> wc_reconnect_count s \<le> cc_max_reconnect_attempts cfg)
     \<and> (wc_chain s = Reading \<longrightarrow> wc_reconnect_count s = 0)
     \<and> (\<forall>delay. wc_chain s = Backoff delay \<longrightarrow> 1 \<le> wc_reconnect_count s
          \<and> delay = cc_reconnect_delay_ms cfg * wc_reconnect_count s)
     \<and> (Abandoned \<in> set (wc_calls s) \<longrightarrow> 0 < cc_max_reconnect_attempts cfg)"

definition thread_inv :: "ws_client \<Rightarrow> bool" where
  "thread_inv s \<longleftrightarrow> wc_on_message s \<and> wc_on_disconnect s
     \<and> (wc_connected s \<longrightarrow> wc_chain s = Reading)
     \<and> (wc_running s \<and> wc_chain s = Reading \<longrightarrow> wc_connected s)
     \<and> (wc_stopped s \<longrightarrow> \<not> wc_running s \<and> (wc_chain s = Ended \<or> wc_chain s = GaveUp))
     \<and> (\<not> wc_stopped s \<and> \<not> wc_running s \<longrightarrow> wc_chain s = Unstarted \<or> wc_chain s = Reading)
     \<and> (wc_running s \<longrightarrow> wc_chain s \<noteq> Unstarted)
     \<and> (wc_closing s \<and> \<not> wc_stopped s \<longrightarrow> wc_close_posted s)
     \<and> (wc_chain s = Unstarted \<and> \<not> wc_stopped s \<longrightarrow> wc_calls s = [])"

definition session_inv :: "ws_client \<Rightarrow> bool" where
  "session_inv s \<longleftrightarrow> (\<exists>up. session_of False (wc_calls s) = Some up \<and> (wc_connected s \<longrightarrow> up)
     \<and> (up \<and> \<not> wc_connected s \<longrightarrow> wc_stopped s \<or> wc_closing s \<and> wc_chain s = Ended))"

definition client_inv :: "client_config \<Rightarrow> ws_client \<Rightarrow> bool" where
  "client_inv cfg s \<longleftrightarrow> thread_inv s \<and> attempts_inv cfg s \<and> session_inv s"

lemma thread_inv_step: "thread_inv s \<Longrightarrow> possible s ev \<Longrightarrow> thread_inv (handle cfg ev s)"
  by (cases ev) (auto simp: thread_inv_def client_defs split: if_splits list.splits)

lemma connect_cases:
  assumes "thread_inv s" and "possible s CallConnect"
  obtains (stopped) "wc_stopped s" "\<forall>delay. wc_chain s \<noteq> Backoff delay"
        "client_connect s = s\<lparr>wc_closing := False, wc_reconnect_count := 0\<rparr>"
    | (ends) "client_connect s = do_close (s\<lparr>wc_closing := False, wc_reconnect_count := 0\<rparr>)"
    | (starts) "wc_calls s = []" "\<not> wc_connected s"
        "client_connect s = do_resolve (s\<lparr>wc_closing := False, wc_reconnect_count := 0, wc_running := True\<rparr>)"
proof (cases "wc_stopped s")
  case True
  with assms(1) show ?thesis by (intro stopped) (auto simp: client_connect_def thread_inv_def)
next
  case running: False
  show ?thesis
  proof (cases "wc_close_posted s")
    case True
    with running show ?thesis by (intro ends) (simp add: client_connect_def Let_def)
  next
    case False
    with running assms have "wc_calls s = []" "\<not> wc_connected s" by (auto simp: thread_inv_def)
    with running False show ?thesis by (intro starts) (simp_all add: client_connect_def Let_def)
  qed
qed

lemma attempts_inv_step:
  assumes "thread_inv s" and "attempts_inv cfg s" and "possible s ev"
  shows "attempts_inv cfg (handle cfg ev s)"
proof (cases ev)
  case CallConnect
  with assms(3) have "possible s CallConnect" by simp
  then show ?thesis
    by (rule connect_cases [OF assms(1)]) (use assms(2) CallConnect in \<open>auto simp: attempts_inv_def do_close_def do_resolve_def\<close>)
qed (use assms in \<open>auto simp: thread_inv_def attempts_inv_def client_defs split: if_splits list.splits\<close>)

lemma session_inv_step:
  assumes "thread_inv s" and "session_inv s" and "possible s ev"
  shows "session_inv (handle cfg ev s)"
proof (cases ev)
  case CallConnect
  with assms(3) have "possible s CallConnect" by simp
  then show ?thesis
    by (rule connect_cases [OF assms(1)]) (use assms(2) CallConnect in \<open>auto simp: session_inv_def do_close_def do_resolve_def\<close>)
next
  case CallClose
  with assms show ?thesis by (cases "wc_closing s") (auto simp: session_inv_def client_close_def)
qed (use assms in \<open>auto simp: thread_inv_def session_inv_def session_of_append client_defs split: if_splits list.splits\<close>)

interpretation client: step_invariant client_is_new "client_step cfg" "client_inv cfg" for cfg
  by unfold_locales
    (auto simp: client_is_new_def client_step_def client_inv_def thread_inv_step attempts_inv_step session_inv_step,
     auto simp: thread_inv_def attempts_inv_def session_inv_def new_client_def)

lemma client_run_inv: "runs cfg evs new_client s \<Longrightarrow> client_inv cfg s"
  by (rule client.inv_reachable [OF _ runs_steps]) (simp_all add: client_is_new_def)

text \<open>C35: The callbacks of a connection tell of its sessions: over any run (any errors, calls of
  \<open>send\<close>, \<open>close\<close> and \<open>connect\<close> in any order) a message is reported only while the connection is
  open, each loss is reported exactly once before the next opening, and while the client is
  neither closed nor closing \<open>is_connected\<close> says whether the last report was of an open one.  Giving
  up is reported only when the number of attempts is limited, and the delay before an attempt
  is the configured one times the number of the attempt.\<close>

theorem each_loss_reported_once:
  assumes "runs cfg evs new_client s"
  shows "(\<exists>up. session_of False (wc_calls s) = Some up \<and> (wc_connected s \<longrightarrow> up)
      \<and> (\<not> wc_closing s \<and> \<not> wc_stopped s \<longrightarrow> wc_connected s = up))
    \<and> (wc_connected s \<longrightarrow> wc_chain s = Reading)
    \<and> (Abandoned \<in> set (wc_calls s) \<longrightarrow> 0 < cc_max_reconnect_attempts cfg)
    \<and> (\<forall>delay. wc_chain s = Backoff delay \<longrightarrow> delay = cc_reconnect_delay_ms cfg * wc_reconnect_count s
         \<and> (0 < cc_max_reconnect_attempts cfg \<longrightarrow> wc_reconnect_count s \<le> cc_max_reconnect_attempts cfg))"
proof -
  have inv: "thread_inv s" "attempts_inv cfg s" "session_inv s" using client_run_inv [OF assms] by (simp_all add: client_inv_def)
  then obtain up where "session_of False (wc_calls s) = Some up" "wc_connected s \<longrightarrow> up"
    "up \<and> \<not> wc_connected s \<longrightarrow> wc_stopped s \<or> wc_closing s" by (auto simp: session_inv_def)
  then have "\<exists>up. session_of False (wc_calls s) = Some up \<and> (wc_connected s \<longrightarrow> up)
      \<and> (\<not> wc_closing s \<and> \<not> wc_stopped s \<longrightarrow> wc_connected s = up)" by blast
  then show ?thesis using inv(1,2) unfolding thread_inv_def attempts_inv_def by simp
qed

section \<open>Reconnecting\<close>

text \<open>The ways in which an attempt can fail.\<close>

datatype stage = AtResolve | AtConnect | AtSni | AtTls | AtHandshake

fun failed_attempt :: "stage \<Rightarrow> client_event list" where
  "failed_attempt AtResolve = [ReconnectTimer, Resolved False]"
| "failed_attempt AtConnect = [ReconnectTimer, Resolved True, Connected False True]"
| "failed_attempt AtSni = [ReconnectTimer, Resolved True, Connected True False]"
| "failed_attempt AtTls = [ReconnectTimer, Resolved True, Connected True True, TlsDone False]"
| "failed_attempt AtHandshake = [ReconnectTimer, Resolved True, Connected True True, TlsDone True, WsDone False]"

definition live :: "ws_client \<Rightarrow> bool" where
  "live s \<longleftrightarrow> wc_running s \<and> \<not> wc_closing s \<and> wc_on_disconnect s"

text \<open>What \<open>schedule_reconnect\<close> leaves when \<open>k\<close> attempts have been made.\<close>

definition scheduled :: "client_config \<Rightarrow> int \<Rightarrow> client_call list \<Rightarrow> ws_client \<Rightarrow> bool" where
  "scheduled cfg k calls t \<longleftrightarrow> live t \<and>
     (if 0 < cc_max_reconnect_attempts cfg \<and> cc_max_reconnect_attempts cfg \<le> k
      then wc_chain t = GaveUp \<and> wc_calls t = calls @ [Abandoned]
      else wc_chain t = Backoff (cc_reconnect_delay_ms cfg * (k + 1)) \<and> wc_reconnect_count t = k + 1
        \<and> wc_calls t = calls)"

lemma failed_attempt_scheduled:
  assumes "live s" and "wc_chain s = Backoff delay"
  shows "\<exists>t. runs cfg (failed_attempt st) s t \<and> scheduled cfg (wc_reconnect_count s) (wc_calls s) t"
  using assms by (cases st) (auto simp: live_def scheduled_def client_defs)

lemma failed_attempts_scheduled:
  assumes "scheduled cfg (k - 1) calls s" and "1 \<le> k" and "0 < cc_max_reconnect_attempts cfg \<Longrightarrow> k - 1 + int (length stages) \<le> cc_max_reconnect_attempts cfg"
  shows "\<exists>t. runs cfg (concat (map failed_attempt stages)) s t \<and> scheduled cfg (k - 1 + int (length stages)) calls t"
  using assms
proof (induction stages arbitrary: k s)
  case (Cons st stages)
  then have s: "live s" "wc_chain s = Backoff (cc_reconnect_delay_ms cfg * k)" "wc_reconnect_count s = k" "wc_calls s = calls"
    by (auto simp: scheduled_def split: if_splits)
  from failed_attempt_scheduled [OF s(1,2)] obtain u
    where u: "runs cfg (failed_attempt st) s u" "scheduled cfg (k + 1 - 1) calls u" by (auto simp: s)
  from Cons.IH [OF u(2)] Cons.prems(2,3) obtain t
    where "runs cfg (concat (map failed_attempt stages)) u t" "scheduled cfg (k + int (length stages)) calls t" by fastforce
  with u(1) show ?case by (auto simp: runs_append algebra_simps)
qed auto

text \<open>C36: Reconnecting ends: when an open connection is lost and every attempt to reconnect fails, at
  whatever stage, the client makes exactly the allowed number of attempts, the \<open>k\<close>-th after \<open>k\<close>
  times the configured delay, then gives up and reports it once.  With unlimited attempts it
  never stops trying.\<close>

theorem reconnecting_gives_up:
  assumes "runs cfg evs new_client s" and "wc_running s" and "wc_chain s = Reading" and "\<not> wc_closing s"
    and "0 < cc_max_reconnect_attempts cfg \<Longrightarrow> int (length stages) \<le> cc_max_reconnect_attempts cfg"
  shows "\<exists>t. runs cfg (ReadError reason # concat (map failed_attempt stages)) s t
    \<and> (if 0 < cc_max_reconnect_attempts cfg \<and> int (length stages) = cc_max_reconnect_attempts cfg
       then wc_chain t = GaveUp \<and> wc_calls t = wc_calls s @ [Lost reason, Abandoned]
       else wc_chain t = Backoff (cc_reconnect_delay_ms cfg * (int (length stages) + 1))
         \<and> wc_calls t = wc_calls s @ [Lost reason])"
proof -
  have inv: "wc_reconnect_count s = 0" "wc_on_disconnect s"
    using client_run_inv [OF assms(1)] assms(3) by (simp_all add: client_inv_def attempts_inv_def thread_inv_def)
  let ?u = "on_read_error cfg reason s"
  have "scheduled cfg (1 - 1) (wc_calls s @ [Lost reason]) ?u"
    using inv assms(2,4) by (auto simp: scheduled_def live_def client_defs)
  from failed_attempts_scheduled [OF this _, of stages] assms(5) obtain t
    where "runs cfg (concat (map failed_attempt stages)) ?u t" "scheduled cfg (int (length stages)) (wc_calls s @ [Lost reason]) t"
    by auto
  then show ?thesis using assms(2,3,5) by (intro exI [of _ t]) (auto simp: scheduled_def split: if_splits)
qed

section \<open>The order of messages\<close>

text \<open>A calm run: no handler of \<open>send\<close> runs on the open connection while pending messages are being
  flushed, every write of a flush succeeds, and the connection is not lost during a flush.\<close>

fun calm :: "ws_client \<Rightarrow> client_event \<Rightarrow> bool" where
  "calm s PostedSend = (wc_connected s \<longrightarrow> wc_flushing s = [])"
| "calm s (PendingWritten ok) = ok"
| "calm s (ReadError reason) = (wc_flushing s = [])"
| "calm s _ = True"

fun calm_runs :: "client_config \<Rightarrow> client_event list \<Rightarrow> ws_client \<Rightarrow> ws_client \<Rightarrow> bool" where
  "calm_runs cfg [] s t \<longleftrightarrow> t = s"
| "calm_runs cfg (ev # evs) s t \<longleftrightarrow> possible s ev \<and> calm s ev \<and> calm_runs cfg evs (handle cfg ev s) t"

definition order_inv :: "ws_client \<Rightarrow> bool" where
  "order_inv s \<longleftrightarrow> wc_sent s = wc_wire s @ tl (wc_flushing s) @ wc_pending_sends s @ wc_posted s
     \<and> (wc_running s \<and> \<not> wc_connected s \<longrightarrow> wc_flushing s = [])
     \<and> (wc_connected s \<longrightarrow> wc_pending_sends s = [])
     \<and> (wc_chain s = Unstarted \<longrightarrow> wc_flushing s = [])"

lemma order_inv_step: "thread_inv s \<Longrightarrow> order_inv s \<Longrightarrow> possible s ev \<Longrightarrow> calm s ev \<Longrightarrow> order_inv (handle cfg ev s)"
proof (cases ev)
  case PostedSend
  assume "thread_inv s" "order_inv s" "possible s ev" "calm s ev"
  with PostedSend show ?thesis
    by (cases "wc_posted s") (auto simp: order_inv_def run_posted_send_def Let_def)
qed (auto simp: thread_inv_def order_inv_def client_defs split: if_splits; fail)+

lemma order_inv_runs: "calm_runs cfg evs s t \<Longrightarrow> thread_inv s \<Longrightarrow> order_inv s \<Longrightarrow> order_inv t"
  by (induction evs arbitrary: s) (auto dest: order_inv_step thread_inv_step)

text \<open>C37: In a calm run, that is, if nothing is sent on the open connection during a flush of the pending
  messages, every write of a flush succeeds and no connection is lost during one, the messages given to
  \<open>send\<close>, before or after the connection is opened, are written in their order and none is lost: those
  whose write was started, those left of the flush, those pending and those still posted are together
  exactly the messages sent.  (Without these assumptions messages overtake others or are dropped, as the
  two runs below show; that a write of an open connection fails is not told to anybody.)\<close>

theorem messages_written_in_order:
  assumes "calm_runs cfg evs new_client s"
  shows "wc_sent s = wc_wire s @ tl (wc_flushing s) @ wc_pending_sends s @ wc_posted s
    \<and> (wc_connected s \<and> wc_posted s = [] \<and> wc_flushing s = [] \<longrightarrow> wc_wire s = wc_sent s)"
proof -
  have "thread_inv new_client" "order_inv new_client" by (simp_all add: thread_inv_def order_inv_def new_client_def)
  with assms have "order_inv s" by (blast intro: order_inv_runs)
  then show ?thesis by (simp add: order_inv_def)
qed

text \<open>Without calm the order is lost: a message sent during the flush overtakes the pending ones,
  and two writes are outstanding at once, which the comment in \<open>on_ws_handshake\<close> rules out.\<close>

definition connects :: "client_event list" where
  "connects = [CallConnect, Resolved True, Connected True True, TlsDone True, WsDone True]"

lemma send_overtakes_pending:
  "\<exists>s. runs cfg ([CallSend a, CallSend b, CallConnect, PostedSend, PostedSend] @ tl connects
      @ [CallSend c, PostedSend]) new_client s
    \<and> wc_flushing s = [a, b] \<and> wc_writing s = 1 \<and> wc_wire s = [a, c] \<and> wc_sent s = [a, b, c]"
  by (simp add: connects_def new_client_def client_defs)

text \<open>When a write of the flush fails, the code forgets the messages after it, although the connection
  stays open.\<close>

lemma failed_flush_drops_rest:
  "\<exists>s. runs cfg ([CallSend a, CallSend b, CallConnect, PostedSend, PostedSend] @ tl connects
      @ [PendingWritten False]) new_client s
    \<and> wc_connected s \<and> wc_wire s = [a] \<and> wc_flushing s = [] \<and> wc_pending_sends s = [] \<and> wc_posted s = []
    \<and> wc_sent s = [a, b]"
  by (simp add: connects_def new_client_def client_defs)

section \<open>Ends\<close>

text \<open>A client that was stopped stays so: \<open>connect\<close> after \<open>close\<close> has no effect.\<close>

lemma stopped_step:
  "thread_inv s \<Longrightarrow> wc_stopped s \<Longrightarrow> possible s ev \<Longrightarrow>
     wc_stopped (handle cfg ev s) \<and> wc_calls (handle cfg ev s) = wc_calls s \<and> wc_wire (handle cfg ev s) = wc_wire s"
  by (cases ev) (auto simp: thread_inv_def client_connect_def client_send_def client_close_def Let_def)

lemma stopped_runs:
  "runs cfg evs s t \<Longrightarrow> thread_inv s \<Longrightarrow> wc_stopped s \<Longrightarrow>
     wc_stopped t \<and> wc_calls t = wc_calls s \<and> wc_wire t = wc_wire s \<and> \<not> wc_connected t"
proof (induction evs arbitrary: s)
  case (Cons ev evs)
  then show ?case using stopped_step [of s ev cfg] thread_inv_step [of s ev cfg] by auto
qed (auto simp: thread_inv_def)

text \<open>When the message callback throws, nothing is read or written any more, but \<open>is_connected\<close>
  stays true until \<open>connect\<close> is called after a \<open>close\<close>.\<close>

definition dead :: "ws_client \<Rightarrow> bool" where
  "dead s \<longleftrightarrow> thread_inv s \<and> \<not> wc_running s \<and> (wc_stopped s \<or> wc_chain s = Reading)"

lemma dead_step:
  assumes "dead s" and "possible s ev"
  shows "dead (handle cfg ev s) \<and> wc_calls (handle cfg ev s) = wc_calls s \<and> wc_wire (handle cfg ev s) = wc_wire s
    \<and> (ev \<noteq> CallConnect \<longrightarrow> wc_connected (handle cfg ev s) = wc_connected s)"
proof (cases ev)
  case CallConnect
  have inv: "thread_inv (client_connect s)" using thread_inv_step [of s ev] assms CallConnect by (simp add: dead_def)
  have "wc_stopped s \<or> wc_close_posted s" using assms CallConnect by (auto simp: dead_def thread_inv_def)
  then have "wc_stopped (client_connect s) \<and> wc_calls (client_connect s) = wc_calls s \<and> wc_wire (client_connect s) = wc_wire s"
    by (auto simp: client_connect_def do_close_def Let_def)
  with inv CallConnect show ?thesis by (auto simp: dead_def thread_inv_def)
qed (use assms thread_inv_step [of s ev cfg] in \<open>auto simp: dead_def client_send_def client_close_def\<close>)

lemma dead_runs:
  "runs cfg evs s t \<Longrightarrow> dead s \<Longrightarrow> \<not> wc_running t \<and> wc_calls t = wc_calls s \<and> wc_wire t = wc_wire s
     \<and> (CallConnect \<notin> set evs \<longrightarrow> wc_connected t = wc_connected s)"
proof (induction evs arbitrary: s)
  case (Cons ev evs)
  then show ?case using dead_step [of s ev cfg] by auto
qed (simp add: dead_def)

text \<open>An exception of the message callback (a number parser of a feed, say) ends the IO thread
  silently: the client goes on saying that it is connected, \<open>on_disconnect\<close> is never called, no
  message is reported or written again, and closing and connecting again does not help.\<close>

theorem throwing_callback_kills_connection:
  assumes "runs cfg evs new_client s" and "wc_running s" and "wc_chain s = Reading"
    and "runs cfg later (handle cfg (ReadMessage msg True) s) t"
  shows "wc_calls t = wc_calls s @ [Heard msg] \<and> wc_wire t = wc_wire s
    \<and> (CallConnect \<notin> set later \<longrightarrow> wc_connected t) \<and> \<not> wc_running t"
proof -
  let ?s = "handle cfg (ReadMessage msg True) s"
  have inv: "thread_inv s" using client_run_inv [OF assms(1)] by (simp add: client_inv_def)
  then have s: "wc_calls ?s = wc_calls s @ [Heard msg]" "wc_wire ?s = wc_wire s" "wc_connected ?s" "\<not> wc_running ?s"
    "wc_chain ?s = Reading"
    using assms(2,3) by (simp_all add: thread_inv_def on_read_message_def calls_back_def Let_def)
  then have "dead ?s" using thread_inv_step [OF inv, of "ReadMessage msg True" cfg] assms(2,3) by (simp add: dead_def)
  from dead_runs [OF assms(4) this] s show ?thesis by simp
qed

section \<open>Concrete runs\<close>

definition demo_client_config :: client_config where
  "demo_client_config = \<lparr>cc_host = ''api.hyperliquid.xyz'', cc_port = ''443'', cc_path = ''/ws'',
     cc_ping_interval_sec = 20, cc_reconnect_delay_ms = 1000, cc_max_reconnect_attempts = 2\<rparr>"

definition demo_open :: "string list \<Rightarrow> ws_client" where
  "demo_open msgs = new_client\<lparr>wc_connected := True, wc_chain := Reading, wc_ping := PingWait, wc_running := True,
     wc_flushing := msgs, wc_sent := msgs, wc_wire := take 1 msgs, wc_calls := [Opened]\<rparr>"

lemma demo_opening: "runs cfg connects new_client (demo_open [])"
  by (simp add: connects_def demo_open_def new_client_def client_defs)

theorem each_loss_reported_once_witness:
  "\<exists>up. session_of False (wc_calls (demo_open [])) = Some up \<and> wc_connected (demo_open []) = up"
  using each_loss_reported_once [OF demo_opening] by (auto simp: demo_open_def new_client_def)

theorem reconnecting_gives_up_witness:
  "\<exists>t. runs demo_client_config (ReadError ''eof'' # concat (map failed_attempt [AtResolve, AtTls])) (demo_open []) t
     \<and> wc_chain t = GaveUp \<and> wc_calls t = [Opened, Lost ''eof'', Abandoned]"
proof -
  have "wc_running (demo_open [])" "wc_chain (demo_open []) = Reading" "\<not> wc_closing (demo_open [])"
    by (simp_all add: demo_open_def new_client_def)
  from reconnecting_gives_up [OF demo_opening [of demo_client_config] this, of "[AtResolve, AtTls]" "''eof''"]
  show ?thesis by (auto simp: demo_client_config_def demo_open_def)
qed

theorem throwing_callback_kills_connection_witness:
  "wc_connected (handle demo_client_config (ReadMessage ''{}'' True) (demo_open []))"
proof -
  have s: "wc_running (demo_open [])" "wc_chain (demo_open []) = Reading"
    by (simp_all add: demo_open_def new_client_def)
  have "runs demo_client_config [] t t" for t by simp
  from throwing_callback_kills_connection [OF demo_opening s this] show ?thesis by simp
qed

text \<open>A message sent before \<open>connect\<close>, and one after its flush.\<close>

definition demo_early :: "string \<Rightarrow> client_event list" where
  "demo_early a = [CallSend a, CallConnect, PostedSend] @ tl connects"

definition demo_late :: "string \<Rightarrow> client_event list" where
  "demo_late b = [PendingWritten True, CallSend b, PostedSend]"

lemma calm_runs_append: "calm_runs cfg (evs @ evs') s u \<longleftrightarrow> (\<exists>t. calm_runs cfg evs s t \<and> calm_runs cfg evs' t u)"
  by (induction evs arbitrary: s) auto

lemma demo_early_run: "calm_runs cfg (demo_early a) new_client (demo_open [a])"
  by (simp add: demo_early_def connects_def demo_open_def new_client_def client_defs)

lemma demo_late_run: "\<exists>s. calm_runs cfg (demo_late b) (demo_open [a]) s
    \<and> wc_connected s \<and> wc_posted s = [] \<and> wc_flushing s = [] \<and> wc_sent s = [a, b]"
  by (simp add: demo_late_def demo_open_def new_client_def client_defs)

theorem messages_written_in_order_witness:
  "\<exists>s. calm_runs demo_client_config (demo_early ''a'' @ demo_late ''b'') new_client s \<and> wc_wire s = [''a'', ''b'']"
proof -
  obtain s where late: "calm_runs demo_client_config (demo_late ''b'') (demo_open [''a'']) s"
    and s: "wc_connected s" "wc_posted s = []" "wc_flushing s = []" "wc_sent s = [''a'', ''b'']"
    using demo_late_run by blast
  then have run: "calm_runs demo_client_config (demo_early ''a'' @ demo_late ''b'') new_client s"
    unfolding calm_runs_append using demo_early_run by blast
  have "wc_wire s = wc_sent s" using messages_written_in_order [OF run] s(1-3) by blast
  with run s(4) show ?thesis by auto
qed

end
