(* ===== verification/Feed_Sessions_Safety.thy ===== *)
theory Feed_Sessions_Safety
  imports Feed_Sessions Ws_Client_Safety Feeds_Safety
begin

text \<open>
  What the feeds can say of their sessions: a feed that says it is subscribed has heard the
  acknowledgement on the connection that is open now, and each session is subscribed once.
\<close>

section \<open>A session as a run of its client\<close>

lemma send_all_simps [simp]:
  "wc_calls (send_all out c) = wc_calls c" "wc_chain (send_all out c) = wc_chain c"
  "wc_connected (send_all out c) = wc_connected c" "wc_running (send_all out c) = wc_running c"
  "wc_closing (send_all out c) = wc_closing c" "wc_stopped (send_all out c) = wc_stopped c"
  "wc_flushing (send_all out c) = wc_flushing c" "wc_wire (send_all out c) = wc_wire c"
  "wc_on_message (send_all out c) = wc_on_message c" "wc_on_disconnect (send_all out c) = wc_on_disconnect c"
  "wc_close_posted (send_all out c) = wc_close_posted c"
  "wc_pending_sends (send_all out c) = wc_pending_sends c"
  "wc_posted (send_all out c) = wc_posted c @ out" "wc_sent (send_all out c) = wc_sent c @ out"
  unfolding send_all_def by (induction out arbitrary: c) (simp_all add: client_send_def)

lemma calm_sends: "calm_runs cfg (map CallSend out) c (send_all out c)"
  unfolding send_all_def by (induction out arbitrary: c) auto

lemma runs_sends: "runs cfg (map CallSend out) c (send_all out c)"
  unfolding send_all_def by (induction out arbitrary: c) auto

lemma thread_inv_sends [simp]: "thread_inv (send_all out c) \<longleftrightarrow> thread_inv c"
  by (simp add: thread_inv_def)

text \<open>The client of a session runs as a client does, with the sends of the feed between its events.\<close>

lemma session_client:
  "\<exists>out. fs_client (session_handle ops cfg ev s) = send_all out (handle cfg ev (fs_client s))"
  by (auto simp: session_handle_def Let_def split_beta)

lemma session_client_runs:
  "session_runs ops cfg evs s t \<Longrightarrow> \<exists>evs'. runs cfg evs' (fs_client s) (fs_client t)"
proof (induction evs arbitrary: s)
  case Nil
  have "runs cfg [] (fs_client s) (fs_client s)" by simp
  with Nil show ?case by (metis session_runs.simps(1))
next
  case (Cons ev evs)
  then obtain evs' where evs': "runs cfg evs' (fs_client (session_handle ops cfg ev s)) (fs_client t)" by auto
  obtain out where out: "fs_client (session_handle ops cfg ev s) = send_all out (handle cfg ev (fs_client s))"
    using session_client by blast
  have "possible (fs_client s) ev" using Cons.prems by (simp add: session_possible_def)
  with evs' runs_sends [of cfg out "handle cfg ev (fs_client s)"]
  have "runs cfg (ev # map CallSend out @ evs') (fs_client s) (fs_client t)"
    unfolding out by (auto simp: runs_append)
  then show ?case by blast
qed

lemma start_runs: "runs cfg (map CallSend (fo_start ops f) @ [CallConnect]) new_client (fs_client (session_start ops f))"
  using runs_sends [of cfg "fo_start ops f" new_client]
  by (auto simp: runs_append session_start_def new_client_def)

lemma session_client_inv: "session_runs ops cfg evs (session_start ops f) s \<Longrightarrow> client_inv cfg (fs_client s)"
  using session_client_runs [of ops cfg evs "session_start ops f" s] start_runs [of cfg ops f] client_run_inv
  by (metis runs_append)

section \<open>Subscribed means acknowledged\<close>

text \<open>The messages heard since the connection was last opened.\<close>

fun heard_since :: "string list \<Rightarrow> client_call list \<Rightarrow> string list" where
  "heard_since ms [] = ms"
| "heard_since ms (Heard msg # cs) = heard_since (ms @ [msg]) cs"
| "heard_since ms (_ # cs) = heard_since [] cs"

lemma heard_since_append: "heard_since ms (cs @ ds) = heard_since (heard_since ms cs) ds"
  by (induction ms cs rule: heard_since.induct) auto

definition heard_now :: "'f feed_session \<Rightarrow> string list" where
  "heard_now s = heard_since [] (wc_calls (fs_client s))"

text \<open>What an event of a session adds to the calls.\<close>

lemma session_calls:
  assumes inv: "thread_inv c" and "possible c ev" and "ev \<noteq> CallConnect" and "\<And>msg. ev \<noteq> CallSend msg"
  obtains (quiet) "wc_calls (handle cfg ev c) = wc_calls c" "wc_chain c \<in> {Reading, Ended} \<Longrightarrow> wc_chain (handle cfg ev c) \<in> {Reading, Ended}"
    | (opened) "wc_calls (handle cfg ev c) = wc_calls c @ [Opened]" "wc_chain c = WsHandshake"
    | (heard) msg throws where "ev = ReadMessage msg throws" "wc_calls (handle cfg ev c) = wc_calls c @ [Heard msg]"
        "wc_chain c = Reading" "wc_chain (handle cfg ev c) = Reading"
    | (lost) reason where "wc_calls (handle cfg ev c) = wc_calls c @ [Lost reason]" "wc_chain c = Reading"
    | (lost_abandoned) reason where "wc_calls (handle cfg ev c) = wc_calls c @ [Lost reason, Abandoned]"
        "wc_chain c = Reading" "0 < cc_max_reconnect_attempts cfg"
    | (abandoned) "wc_calls (handle cfg ev c) = wc_calls c @ [Abandoned]" "wc_chain c \<notin> {Reading, Ended}"
        "0 < cc_max_reconnect_attempts cfg"
proof -
  have retry: thesis if "handle cfg ev c = schedule_reconnect cfg c" "wc_chain c \<notin> {Reading, Ended}"
  proof (cases "wc_calls (schedule_reconnect cfg c) = wc_calls c")
    case True
    with that quiet show ?thesis by simp
  next
    case False
    then have "wc_calls (schedule_reconnect cfg c) = wc_calls c @ [Abandoned]" "0 < cc_max_reconnect_attempts cfg"
      using inv by (auto simp: schedule_reconnect_def calls_back_def thread_inv_def split: if_splits)
    with that abandoned show ?thesis by simp
  qed
  show ?thesis
  proof (cases ev)
    case (ReadMessage msg throws)
    with inv assms(2) show ?thesis by (intro heard) (auto simp: client_defs thread_inv_def)
  next
    case (ReadError reason)
    show ?thesis
    proof (cases "wc_closing c")
      case True
      with ReadError show ?thesis by (intro quiet) (simp_all add: client_defs)
    next
      case open': False
      show ?thesis
      proof (cases "0 < cc_max_reconnect_attempts cfg \<and> cc_max_reconnect_attempts cfg \<le> wc_reconnect_count c")
        case True
        with ReadError open' inv assms(2) show ?thesis
          by (intro lost_abandoned [of reason]) (auto simp: client_defs thread_inv_def)
      next
        case False
        with ReadError open' inv assms(2) show ?thesis by (intro lost [of reason]) (auto simp: client_defs thread_inv_def)
      qed
    qed
  next
    case (WsDone ok)
    with assms(2) show ?thesis by (cases ok) (auto simp: on_ws_handshake_def intro: retry, auto simp: client_defs intro: opened)
  next
    case (Resolved ok)
    with assms(2) show ?thesis by (cases ok) (auto simp: on_resolve_def intro: retry quiet)
  next
    case (Connected ok sni)
    with assms(2) show ?thesis by (cases "ok \<and> sni") (auto simp: on_connect_def intro: retry quiet)
  next
    case (TlsDone ok)
    with assms(2) show ?thesis by (cases ok) (auto simp: on_ssl_handshake_def intro: retry quiet)
  qed (use assms(2-4) quiet in \<open>auto simp: client_defs split: if_splits list.splits\<close>)
qed


locale acknowledged_feed =
  fixes ops :: "'f feed_ops"
    and subscribed :: "'f \<Rightarrow> bool"
    and ack :: "string \<Rightarrow> bool"
  assumes hear_ack: "subscribed (snd (snd (fo_hear ops msg f))) \<Longrightarrow> subscribed f \<or> ack msg"
    and lose_clears: "\<not> subscribed (snd (fo_lose ops reason f))"
begin

definition ack_inv :: "'f feed_session \<Rightarrow> bool" where
  "ack_inv s \<longleftrightarrow> thread_inv (fs_client s) \<and> (subscribed (fs_feed s) \<longrightarrow>
     wc_chain (fs_client s) \<in> {Reading, Ended} \<and> (\<exists>msg \<in> set (heard_now s). ack msg))"

lemma ack_inv_step:
  assumes inv: "ack_inv s" and poss: "session_possible ops s ev"
  shows "ack_inv (session_handle ops cfg ev s)"
proof -
  let ?c = "fs_client s" and ?t = "session_handle ops cfg ev s"
  have c: "thread_inv ?c" "possible ?c ev" "ev \<noteq> CallConnect" "\<And>msg. ev \<noteq> CallSend msg"
    using inv poss by (auto simp: ack_inv_def session_possible_def)
  have t: "thread_inv (fs_client ?t)" using thread_inv_step [OF c(1,2)] by (simp add: session_handle_def Let_def split_beta)
  have feed: "fs_feed ?t = snd (call_feeds ops (drop (length (wc_calls ?c)) (wc_calls (handle cfg ev ?c))) (fs_feed s))"
    and chain: "wc_chain (fs_client ?t) = wc_chain (handle cfg ev ?c)"
    and calls: "wc_calls (fs_client ?t) = wc_calls (handle cfg ev ?c)"
    by (simp_all add: session_handle_def Let_def split_beta)
  from c show ?thesis
  proof (cases rule: session_calls [where cfg = cfg])
    case quiet
    with inv t feed chain calls show ?thesis by (simp add: ack_inv_def heard_now_def)
  next
    case opened
    with inv t feed show ?thesis by (auto simp: ack_inv_def)
  next
    case (heard msg throws)
    with inv t feed chain calls show ?thesis
      by (auto simp: ack_inv_def heard_now_def heard_since_append split_beta dest: hear_ack)
  qed (use t feed lose_clears inv in \<open>auto simp: ack_inv_def split_beta\<close>)
qed

lemma ack_inv_runs: "session_runs ops cfg evs s t \<Longrightarrow> ack_inv s \<Longrightarrow> ack_inv t"
  by (induction evs arbitrary: s) (auto simp: ack_inv_step)

lemma acknowledged_now:
  assumes "session_runs ops cfg evs (session_start ops f) s" and "\<not> subscribed f" and "subscribed (fs_feed s)"
  shows "\<exists>msg \<in> set (heard_now s). ack msg"
proof -
  have "session_runs ops cfg [] (session_start ops f) (session_start ops f)" by simp
  then have "client_inv cfg (fs_client (session_start ops f))" by (rule session_client_inv)
  then have "ack_inv (session_start ops f)" using assms(2) by (simp add: ack_inv_def client_inv_def session_start_def)
  from ack_inv_runs [OF assms(1) this] assms(3) show ?thesis by (simp add: ack_inv_def)
qed

end

interpretation fills: acknowledged_feed fill_ops hf_subscribed "\<lambda>msg. contains msg ''subscriptionResponse''"
  by unfold_locales
    (auto simp: fill_ops_def fills_on_message_def fills_on_disconnect_def Let_def split: if_splits)

definition position_ack :: "string \<Rightarrow> bool" where
  "position_ack msg \<longleftrightarrow> contains msg ''\"subscribed/account_all_positions\"''"

interpretation positions: acknowledged_feed position_ops pz_subscribed position_ack
  by unfold_locales
    (auto simp: position_ops_def positions_on_message_def positions_on_disconnect_def position_ack_def Let_def split_beta
      split: if_splits sum.splits option.splits)

lemma order_seen_flags [simp]:
  "af_orders_subscribed (foldl order_seen f us) = af_orders_subscribed f"
  "af_trades_subscribed (foldl order_seen f us) = af_trades_subscribed f"
  by (induction us arbitrary: f) (simp_all add: order_seen_def)

interpretation account_orders: acknowledged_feed account_ops af_orders_subscribed
  "\<lambda>msg. contains msg ''\"subscribed/account_orders\"''"
  by unfold_locales
    (auto simp: account_ops_def account_on_message_def account_on_disconnect_def account_flags_def Let_def split_beta
      split: if_splits sum.splits)

interpretation account_trades: acknowledged_feed account_ops af_trades_subscribed
  "\<lambda>msg. contains msg ''\"subscribed/account_all_trades\"''"
  by unfold_locales
    (auto simp: account_ops_def account_on_message_def account_on_disconnect_def account_flags_def Let_def split_beta
      split: if_splits sum.splits)

definition hl_trades_ack :: "string \<Rightarrow> bool" where
  "hl_trades_ack msg \<longleftrightarrow> contains msg ''subscriptionResponse'' \<and> contains msg ''\"trades\"''"

interpretation hl_trades: acknowledged_feed "hl_market_ops clock" "\<lambda>s. mf_hl_trades_subscribed (mk_feed s)" hl_trades_ack
  for clock
  by unfold_locales
    (auto simp: hl_market_ops_def market_heard_def market_lost_def on_hl_message_def on_hl_disconnect_def
      hl_acknowledged_def hl_trades_ack_def Let_def split_beta split: if_splits option.splits)

interpretation lighter_ticker: acknowledged_feed "lighter_market_ops clock" "\<lambda>s. mf_lighter_subscribed (mk_feed s)"
  "\<lambda>msg. contains msg ''\"ticker\"''" for clock
  by unfold_locales
    (auto simp: lighter_market_ops_def market_heard_def market_lost_def on_lighter_message_def on_lighter_disconnect_def
      Let_def split_beta split: if_splits option.splits)


text \<open>C38: When the fill feed says that it is subscribed, its connection is open and the acknowledgement
  of a subscription was heard on this very connection, not on one that was lost since: over any
  run of the feed on its client, from \<open>start\<close> on, with any errors and reconnections.\<close>

theorem subscribed_means_acknowledged:
  assumes "session_runs fill_ops cfg evs (session_start fill_ops f) s" and "\<not> hf_subscribed f" and "fills_is_subscribed s"
  shows "wc_chain (fs_client s) = Reading
    \<and> (\<exists>msg \<in> set (heard_now s). contains msg ''subscriptionResponse'')"
proof -
  have "thread_inv (fs_client s)" using session_client_inv [OF assms(1)] by (simp add: client_inv_def)
  moreover have "\<exists>msg \<in> set (heard_now s). contains msg ''subscriptionResponse''"
    using assms(3) by (intro fills.acknowledged_now [OF assms(1,2)]) (simp add: fills_is_subscribed_def)
  ultimately show ?thesis using assms(3) by (simp add: fills_is_subscribed_def thread_inv_def)
qed

lemma positions_subscribed_acknowledged:
  assumes "session_runs position_ops cfg evs (session_start position_ops f) s" and "\<not> pz_subscribed f"
    and "positions_is_subscribed s"
  shows "\<exists>msg \<in> set (heard_now s). position_ack msg"
  using assms(3) by (intro positions.acknowledged_now [OF assms(1,2)]) (simp add: positions_is_subscribed_def)

lemma account_subscribed_acknowledged:
  assumes "session_runs account_ops cfg evs (session_start account_ops f) s" and "\<not> af_orders_subscribed f"
    and "\<not> af_trades_subscribed f" and "account_is_subscribed s"
  shows "(\<exists>msg \<in> set (heard_now s). contains msg ''\"subscribed/account_orders\"'')
    \<and> (\<exists>msg \<in> set (heard_now s). contains msg ''\"subscribed/account_all_trades\"'')"
  using assms(4) account_orders.acknowledged_now [OF assms(1,2)] account_trades.acknowledged_now [OF assms(1,3)]
  by (simp add: account_is_subscribed_def)

section \<open>One subscription a session\<close>

fun openings :: "client_call list \<Rightarrow> nat" where
  "openings [] = 0"
| "openings (Opened # cs) = Suc (openings cs)"
| "openings (_ # cs) = openings cs"

fun losses :: "client_call list \<Rightarrow> nat" where
  "losses [] = 0"
| "losses (Lost reason # cs) = Suc (losses cs)"
| "losses (_ # cs) = losses cs"

lemma losses_append [simp]: "losses (cs @ ds) = losses cs + losses ds"
  by (induction cs rule: losses.induct) auto

lemma openings_losses:
  "session_of up cs = Some up' \<Longrightarrow> Abandoned \<notin> set cs \<Longrightarrow> of_bool up + openings cs = losses cs + of_bool up'"
  by (induction up cs rule: session_of.induct) (auto split: if_splits)

fun session_calm_runs :: "'f feed_ops \<Rightarrow> client_config \<Rightarrow> client_event list \<Rightarrow> 'f feed_session \<Rightarrow> 'f feed_session \<Rightarrow> bool" where
  "session_calm_runs ops cfg [] s t \<longleftrightarrow> t = s"
| "session_calm_runs ops cfg (ev # evs) s t \<longleftrightarrow> session_possible ops s ev \<and> calm (fs_client s) ev
     \<and> session_calm_runs ops cfg evs (session_handle ops cfg ev s) t"

lemma session_calm_runs_runs: "session_calm_runs ops cfg evs s t \<Longrightarrow> session_runs ops cfg evs s t"
  by (induction evs arbitrary: s) auto

lemma calm_session_order:
  "session_calm_runs ops cfg evs s t \<Longrightarrow> thread_inv (fs_client s) \<Longrightarrow> order_inv (fs_client s) \<Longrightarrow> order_inv (fs_client t)"
proof (induction evs arbitrary: s)
  case (Cons ev evs)
  let ?u = "session_handle ops cfg ev s"
  obtain out where out: "fs_client ?u = send_all out (handle cfg ev (fs_client s))" using session_client by blast
  have "thread_inv (handle cfg ev (fs_client s))" "order_inv (handle cfg ev (fs_client s))"
    using Cons.prems thread_inv_step [of "fs_client s" ev] order_inv_step [of "fs_client s" ev]
    by (auto simp: session_possible_def)
  then have "thread_inv (fs_client ?u)" "order_inv (fs_client ?u)" using out by (auto simp: order_inv_def)
  with Cons.IH [of ?u] Cons.prems(1) show ?case by simp
qed simp

locale resubscribing_feed =
  fixes ops :: "'f feed_ops"
    and mine :: "'f \<Rightarrow> bool"
    and subs :: "string list"
  assumes starts: "mine f \<Longrightarrow> fo_start ops f = subs"
    and loses: "mine f \<Longrightarrow> fst (fo_lose ops reason f) = subs \<and> mine (snd (fo_lose ops reason f))"
    and hears: "mine f \<Longrightarrow> fst (snd (fo_hear ops msg f)) = [] \<and> mine (snd (snd (fo_hear ops msg f)))"
begin

definition sent_inv :: "'f feed_session \<Rightarrow> bool" where
  "sent_inv s \<longleftrightarrow> thread_inv (fs_client s) \<and> mine (fs_feed s)
     \<and> wc_sent (fs_client s) = concat (replicate (Suc (losses (wc_calls (fs_client s)))) subs)"

lemma handle_sent:
  assumes "possible c ev" and "ev \<noteq> CallConnect" and "\<And>msg. ev \<noteq> CallSend msg"
  shows "wc_sent (handle cfg ev c) = wc_sent c"
  using assms by (cases ev) (auto simp: client_defs split: list.splits)

lemma more_subs: "concat (replicate (Suc n) subs) @ subs = concat (replicate (Suc (Suc n)) subs)"
  by (induction n) simp_all

lemma sent_inv_step:
  assumes inv: "sent_inv s" and poss: "session_possible ops s ev" and unlimited: "cc_max_reconnect_attempts cfg = 0"
  shows "sent_inv (session_handle ops cfg ev s)"
proof -
  let ?c = "fs_client s"
  have c: "thread_inv ?c" "possible ?c ev" "ev \<noteq> CallConnect" "\<And>msg. ev \<noteq> CallSend msg"
    using inv poss by (auto simp: sent_inv_def session_possible_def)
  note sent = handle_sent [OF c(2-4), of cfg]
  have t: "thread_inv (handle cfg ev ?c)" by (rule thread_inv_step [OF c(1,2)])
  have mine: "mine (fs_feed s)" using inv by (simp add: sent_inv_def)
  from c show ?thesis
  proof (cases rule: session_calls [where cfg = cfg])
    case (heard msg throws)
    with inv t sent hears [OF mine, of msg] show ?thesis
      by (simp add: sent_inv_def session_handle_def split_beta)
  next
    case (lost reason)
    with inv t sent loses [OF mine, of reason] more_subs [of "losses (wc_calls ?c)"] show ?thesis
      by (simp add: sent_inv_def session_handle_def split_beta)
  qed (use inv t sent unlimited in \<open>simp_all add: sent_inv_def session_handle_def\<close>)
qed

lemma sent_inv_runs:
  "session_runs ops cfg evs s t \<Longrightarrow> sent_inv s \<Longrightarrow> cc_max_reconnect_attempts cfg = 0 \<Longrightarrow> sent_inv t"
  by (induction evs arbitrary: s) (auto simp: sent_inv_step)

lemma one_subscription_a_session:
  assumes run: "session_calm_runs ops cfg evs (session_start ops f) s" and "mine f"
    and unlimited: "cc_max_reconnect_attempts cfg = 0"
    and settled: "wc_connected (fs_client s)" "wc_posted (fs_client s) = []" "wc_flushing (fs_client s) = []"
  shows "wc_wire (fs_client s) = concat (replicate (openings (wc_calls (fs_client s))) subs)"
proof -
  let ?s0 = "session_start ops f" and ?c = "fs_client s"
  note runs = session_calm_runs_runs [OF run]
  have s0: "thread_inv (fs_client ?s0)" using session_client_inv [of ops cfg "[]" f ?s0] by (simp add: client_inv_def)
  have "order_inv (fs_client ?s0)" "wc_sent (fs_client ?s0) = fo_start ops f" "wc_calls (fs_client ?s0) = []"
    by (simp_all add: session_start_def order_inv_def client_connect_def do_resolve_def new_client_def Let_def)
  with s0 \<open>mine f\<close> starts have "sent_inv ?s0" by (simp add: sent_inv_def session_start_def)
  with sent_inv_runs [OF runs _ unlimited] have sent: "wc_sent ?c = concat (replicate (Suc (losses (wc_calls ?c))) subs)"
    by (simp add: sent_inv_def)
  have inv: "client_inv cfg ?c" by (rule session_client_inv [OF runs])
  with unlimited settled(1) have "session_of False (wc_calls ?c) = Some True" "Abandoned \<notin> set (wc_calls ?c)"
    by (auto simp: client_inv_def session_inv_def attempts_inv_def)
  from openings_losses [OF this] have "openings (wc_calls ?c) = Suc (losses (wc_calls ?c))" by simp
  moreover have "order_inv ?c" using calm_session_order [OF run s0] \<open>order_inv (fs_client ?s0)\<close> by simp
  ultimately show ?thesis using sent settled by (simp add: order_inv_def)
qed

end


definition fills_of :: "string \<Rightarrow> hl_fill_feed \<Rightarrow> bool" where
  "fills_of user f \<longleftrightarrow> hf_user_address f = user"

definition fills_subscription :: "string \<Rightarrow> string" where
  "fills_subscription user =
     ''{\"method\":\"subscribe\",\"subscription\":{\"type\":\"userFills\",\"user\":\"'' @ user @ ''\"}}''"

lemma fills_out_simps [simp]:
  "fills_out (es @ es') = fills_out es @ fills_out es'" "fills_out (map report xs) = []"
  "fills_out (fills_subscribe f) = [fills_subscription (hf_user_address f)]"
proof -
  show "fills_out (es @ es') = fills_out es @ fills_out es'" by (induction es rule: fills_out.induct) auto
  show "fills_out (map report xs) = []" by (induction xs) (simp_all add: report_def)
  show "fills_out (fills_subscribe f) = [fills_subscription (hf_user_address f)]"
    by (simp add: fills_subscribe_def fills_subscription_def)
qed

interpretation fills: resubscribing_feed fill_ops "fills_of user" "[fills_subscription user]" for user
  by unfold_locales
    (auto simp: fill_ops_def fills_of_def fills_on_message_def fills_on_disconnect_def Let_def)

lemma market_out_append [simp]: "market_out (es @ es') = market_out es @ market_out es'"
  by (induction es rule: market_out.induct) auto

lemma market_out_quiet [simp]: "market_out (updated f) = []" "market_out (map Traded ts) = []"
  by (simp add: updated_def) (induction ts, simp_all)

definition quotes_of :: "string \<Rightarrow> bool \<Rightarrow> market_side \<Rightarrow> bool" where
  "quotes_of coin on_trade s \<longleftrightarrow> mf_hl_coin (mk_feed s) = coin \<and> mf_on_trade (mk_feed s) = on_trade"

definition quotes_subscriptions :: "string \<Rightarrow> bool \<Rightarrow> string list" where
  "quotes_subscriptions coin on_trade = market_out (subscribe_hl (market_feed_new coin 0 True on_trade))"

lemma subscribe_hl_of: "quotes_of coin on_trade s \<Longrightarrow> market_out (subscribe_hl (mk_feed s)) = quotes_subscriptions coin on_trade"
  by (simp add: quotes_of_def quotes_subscriptions_def subscribe_hl_def market_feed_new_def)

lemma hl_message_quiet: "market_out (fst (on_hl_message clock msg f p)) = []"
  by (simp add: on_hl_message_def Let_def split_beta split: option.splits)

lemma hl_message_same:
  "mf_hl_coin (fst (snd (on_hl_message clock msg f p))) = mf_hl_coin f"
  "mf_on_trade (fst (snd (on_hl_message clock msg f p))) = mf_on_trade f"
  by (simp_all add: on_hl_message_def hl_acknowledged_def Let_def split_beta split: option.splits)

interpretation hl_quotes: resubscribing_feed "hl_market_ops clock" "quotes_of coin on_trade" "quotes_subscriptions coin on_trade"
  for clock coin on_trade
proof
  fix s :: market_side and reason msg :: string
  assume mine: "quotes_of coin on_trade s"
  show "fo_start (hl_market_ops clock) s = quotes_subscriptions coin on_trade"
    using subscribe_hl_of [OF mine] by (simp add: hl_market_ops_def)
  let ?f = "(mk_feed s)\<lparr>mf_hl_subscribed := False, mf_hl_trades_subscribed := False\<rparr>"
  have "quotes_of coin on_trade (s\<lparr>mk_feed := ?f\<rparr>)" using mine by (simp add: quotes_of_def)
  from subscribe_hl_of [OF this] this
  show "fst (fo_lose (hl_market_ops clock) reason s) = quotes_subscriptions coin on_trade
      \<and> quotes_of coin on_trade (snd (fo_lose (hl_market_ops clock) reason s))"
    by (simp add: hl_market_ops_def market_lost_def on_hl_disconnect_def Let_def)
  show "fst (snd (fo_hear (hl_market_ops clock) msg s)) = [] \<and> quotes_of coin on_trade (snd (snd (fo_hear (hl_market_ops clock) msg s)))"
    using mine by (simp add: hl_market_ops_def market_heard_def split_beta hl_message_quiet hl_message_same quotes_of_def)
qed

text \<open>C39: In a calm run of the fill feed, with any number of losses and reconnections, each session is
  given its subscription exactly once: when the connection is open and everything sent has been
  written, the messages written on all connections so far are one subscription of the user's
  fills for each opening, and nothing else.\<close>

theorem fills_subscribed_once_a_session:
  assumes "session_calm_runs fill_ops (feed_client_config host path 20) evs (session_start fill_ops f) s"
    and "wc_connected (fs_client s)" and "wc_posted (fs_client s) = []" and "wc_flushing (fs_client s) = []"
  shows "wc_wire (fs_client s) = replicate (openings (wc_calls (fs_client s))) (fills_subscription (hf_user_address f))"
proof -
  have "fills_of (hf_user_address f) f" by (simp add: fills_of_def)
  from fills.one_subscription_a_session [OF assms(1) this _ assms(2-4)]
  have "wc_wire (fs_client s)
      = concat (replicate (openings (wc_calls (fs_client s))) [fills_subscription (hf_user_address f)])"
    by (simp add: feed_client_config_def)
  moreover have "concat (replicate n [x]) = replicate n x" for n and x :: string by (induction n) simp_all
  ultimately show ?thesis by simp
qed

lemma quotes_subscribed_once_a_session:
  assumes "session_calm_runs (hl_market_ops clock) (feed_client_config host path 20) evs (session_start (hl_market_ops clock) f) s"
    and "quotes_of coin on_trade f"
    and "wc_connected (fs_client s)" and "wc_posted (fs_client s) = []" and "wc_flushing (fs_client s) = []"
  shows "wc_wire (fs_client s) = concat (replicate (openings (wc_calls (fs_client s))) (quotes_subscriptions coin on_trade))"
  by (rule hl_quotes.one_subscription_a_session [OF assms(1,2) _ assms(3-5)]) (simp add: feed_client_config_def)

section \<open>A message whose handler throws\<close>

lemma dead_sends [simp]: "dead (send_all out c) \<longleftrightarrow> dead c"
  by (simp add: dead_def)

lemma dead_session:
  "session_runs ops cfg evs s t \<Longrightarrow> dead (fs_client s) \<Longrightarrow>
     fs_feed t = fs_feed s \<and> wc_connected (fs_client t) = wc_connected (fs_client s)
     \<and> wc_wire (fs_client t) = wc_wire (fs_client s)"
proof (induction evs arbitrary: s)
  case (Cons ev evs)
  then have ev: "possible (fs_client s) ev" "ev \<noteq> CallConnect" by (auto simp: session_possible_def)
  have "dead (fs_client (session_handle ops cfg ev s))"
    "fs_feed (session_handle ops cfg ev s) = fs_feed s"
    "wc_connected (fs_client (session_handle ops cfg ev s)) = wc_connected (fs_client s)"
    "wc_wire (fs_client (session_handle ops cfg ev s)) = wc_wire (fs_client s)"
    using dead_step [OF Cons.prems(2) ev(1), of cfg] ev(2) by (simp_all add: session_handle_def)
  with Cons.IH [of "session_handle ops cfg ev s"] Cons.prems(1) show ?case by simp
qed simp

text \<open>C40: A message of the account channel with a number that a parser rejects stops the account feed for
  good, silently: whatever happens later short of a new feed, no order update, fill or loss is
  handled any more, nothing is written, and the feed goes on saying that it is connected, and
  subscribed if it was.\<close>

theorem account_exception_freezes_feed:
  assumes run: "session_runs account_ops cfg evs (session_start account_ops f) s"
    and reading: "wc_running (fs_client s)" "wc_chain (fs_client s) = Reading"
    and throws: "account_on_message msg (fs_feed s) = (Some e, es, g)"
    and later: "session_runs account_ops cfg later (session_handle account_ops cfg (ReadMessage msg True) s) t"
  shows "fs_feed t = g \<and> wc_connected (fs_client t) \<and> wc_wire (fs_client t) = wc_wire (fs_client s)
    \<and> account_is_subscribed t = (af_orders_subscribed g \<and> af_trades_subscribed g)"
proof -
  let ?c = "fs_client s" and ?u = "session_handle account_ops cfg (ReadMessage msg True) s"
  have inv: "thread_inv ?c" using session_client_inv [OF run] by (simp add: client_inv_def)
  then have c: "wc_calls (handle cfg (ReadMessage msg True) ?c) = wc_calls ?c @ [Heard msg]"
    "wc_connected (handle cfg (ReadMessage msg True) ?c)" "\<not> wc_running (handle cfg (ReadMessage msg True) ?c)"
    "wc_wire (handle cfg (ReadMessage msg True) ?c) = wc_wire ?c" "wc_chain (handle cfg (ReadMessage msg True) ?c) = Reading"
    using reading by (simp_all add: thread_inv_def on_read_message_def calls_back_def Let_def)
  have "thread_inv (handle cfg (ReadMessage msg True) ?c)" using inv reading by (intro thread_inv_step) simp_all
  with c have "dead (handle cfg (ReadMessage msg True) ?c)" by (simp add: dead_def)
  then have u: "dead (fs_client ?u)" "fs_feed ?u = g" "wc_connected (fs_client ?u)" "wc_wire (fs_client ?u) = wc_wire ?c"
    using c throws by (simp_all add: session_handle_def account_ops_def split_beta)
  from dead_session [OF later u(1)] u show ?thesis by (simp add: account_is_subscribed_def)
qed

section \<open>Concrete runs\<close>

definition demo_fill_feed :: hl_fill_feed where
  "demo_fill_feed = \<lparr>hf_user_address = ''0xab'', hf_subscribed = False\<rparr>"

definition demo_ack :: string where
  "demo_ack = ''{\"channel\":\"subscriptionResponse\"}''"

definition connecting :: "client_event list" where
  "connecting = [Resolved True, Connected True True, TlsDone True, WsDone True]"

definition demo_session :: "client_event list" where
  "demo_session = PostedSend # connecting @ [PendingWritten True, ReadMessage demo_ack False]"

definition demo_two_sessions :: "client_event list" where
  "demo_two_sessions = demo_session @ [ReadError ''eof'', PostedSend, ReconnectTimer] @ connecting
     @ [PendingWritten True, ReadMessage demo_ack False]"

lemma session_runs_append:
  "session_runs ops cfg (evs @ evs') s u \<longleftrightarrow> (\<exists>t. session_runs ops cfg evs s t \<and> session_runs ops cfg evs' t u)"
  by (induction evs arbitrary: s) auto

lemma session_calm_runs_append:
  "session_calm_runs ops cfg (evs @ evs') s u
     \<longleftrightarrow> (\<exists>t. session_calm_runs ops cfg evs s t \<and> session_calm_runs ops cfg evs' t u)"
  by (induction evs arbitrary: s) auto

text \<open>The state after a session was opened, its subscription written and acknowledged.\<close>

definition demo_subscribed :: "nat \<Rightarrow> client_call list \<Rightarrow> hl_fill_feed feed_session" where
  "demo_subscribed n calls =
     (let subs = replicate n (fills_subscription ''0xab'')
      in \<lparr>fs_client = new_client\<lparr>wc_connected := True, wc_chain := Reading, wc_ping := PingWait, wc_running := True,
            wc_sent := subs, wc_wire := subs, wc_calls := calls @ [Opened, Heard demo_ack]\<rparr>,
          fs_feed = demo_fill_feed\<lparr>hf_subscribed := True\<rparr>\<rparr>)"

lemma demo_ack_heard: "contains demo_ack ''subscriptionResponse''"
  by (simp add: demo_ack_def contains_def find_from_zero)

lemmas session_eval = session_handle_def session_possible_def send_all_def fill_ops_def fills_on_message_def
  fills_on_disconnect_def demo_ack_heard new_client_def client_defs

lemma demo_session_runs:
  "session_calm_runs fill_ops cfg demo_session (session_start fill_ops demo_fill_feed) (demo_subscribed 1 [])"
  by (simp add: demo_session_def connecting_def demo_subscribed_def demo_fill_feed_def session_start_def session_eval)

lemma demo_reconnect_runs:
  "session_calm_runs fill_ops (feed_client_config host path 20) (drop (length demo_session) demo_two_sessions)
     (demo_subscribed 1 []) (demo_subscribed 2 [Opened, Heard demo_ack, Lost ''eof''])"
  by (simp add: demo_session_def demo_two_sessions_def connecting_def demo_subscribed_def demo_fill_feed_def session_eval
      feed_client_config_def numeral_2_eq_2)

theorem subscribed_means_acknowledged_witness:
  "\<exists>msg \<in> set (heard_now (demo_subscribed 1 [])). contains msg ''subscriptionResponse''"
proof -
  have "session_runs fill_ops demo_client_config demo_session (session_start fill_ops demo_fill_feed) (demo_subscribed 1 [])"
    by (rule session_calm_runs_runs [OF demo_session_runs])
  from subscribed_means_acknowledged [OF this] show ?thesis
    by (simp add: demo_fill_feed_def fills_is_subscribed_def demo_subscribed_def Let_def)
qed

theorem fills_subscribed_once_a_session_witness:
  "session_calm_runs fill_ops (feed_client_config ''h'' ''/ws'' 20) demo_two_sessions
     (session_start fill_ops demo_fill_feed) (demo_subscribed 2 [Opened, Heard demo_ack, Lost ''eof''])
   \<and> wc_wire (fs_client (demo_subscribed 2 [Opened, Heard demo_ack, Lost ''eof'']))
     = replicate 2 (fills_subscription ''0xab'')"
proof -
  let ?t = "demo_subscribed 2 [Opened, Heard demo_ack, Lost ''eof'']"
  have split: "demo_two_sessions = demo_session @ drop (length demo_session) demo_two_sessions"
    by (simp add: demo_two_sessions_def)
  have run: "session_calm_runs fill_ops (feed_client_config ''h'' ''/ws'' 20) demo_two_sessions
     (session_start fill_ops demo_fill_feed) ?t"
    by (subst split, unfold session_calm_runs_append) (blast intro: demo_session_runs demo_reconnect_runs)
  have "wc_connected (fs_client ?t)" "wc_posted (fs_client ?t) = []" "wc_flushing (fs_client ?t) = []"
    "openings (wc_calls (fs_client ?t)) = 2" "hf_user_address demo_fill_feed = ''0xab''"
    by (simp_all add: demo_subscribed_def new_client_def demo_fill_feed_def Let_def)
  with fills_subscribed_once_a_session [OF run] run show ?thesis by simp
qed


definition demo_bad_order :: string where
  "demo_bad_order = ''{\"channel\":\"account_orders:7\",\"orders\":{\"24\":[{\"order_index\":9,\"price\":\"-\"}]}}''"

lemma demo_bad_order_throws: "account_on_message demo_bad_order demo_account = (Some ''stod'', [], demo_account)"
proof -
  let ?m = demo_bad_order
  have key: "int_string 24 = ''24''" by code_simp
  have c: "contains ?m ''account_orders:''" "contains ?m ''\"orders\"''" "\<not> contains ?m ''\"connected\"''"
    "\<not> contains ?m ''\"ping\"''" "\<not> contains ?m ''\"subscribed/account_orders\"''"
    "\<not> contains ?m ''\"subscribed/account_all_trades\"''" "find_from ?m ''\"24\":['' 0 = Some 40"
    by (simp_all add: contains_def find_from_zero demo_bad_order_def)
  define sec where "sec = ''\"order_index\":9,\"price\":\"-\"}]}}''"
  have i: "find_from ?m ''\"order_index\"'' 40 = Some 47" "find_from ?m ''\"24\":['' 48 = None" "substr ?m 47 1024 = sec"
    by (simp_all add: find_from_def substr_def demo_bad_order_def sec_def)
  have f: "rx_digits ''order_index'' sec = Some ''9''" "rx_digits ''client_order_index'' sec = None"
    "rx_quoted ''price'' sec = Some ''-''"
    by (simp_all add: rx_quoted_def rx_digits_def key_lit_def lit_class_def is_digit_def digit_value_def sec_def)
  have n: "stod ''-'' = Inl ''stod''" "stoll ''9'' = Inr 9"
    by (simp_all add: stod_eval stoll_def signed_in_def parse_dec_def is_digit_def dec_number_def)
  have "order_at ?m 24 40 = Inl ''stod''"
    using i f n by (simp add: order_at_def key order_fields_def field_or_def then_try_def)
  then have "parse_lighter_order_updates ?m 24 = Inl ''stod''"
    by (simp add: parse_lighter_order_updates_def key c orders_from.simps [of _ _ 40])
  moreover have "af_market_index demo_account = 24" by (simp add: demo_account_def)
  ultimately show ?thesis using c by (simp add: account_on_message_def account_flags_def Let_def)
qed

definition demo_account_open :: "account_feed feed_session" where
  "demo_account_open = \<lparr>fs_client = demo_open (account_out (account_subscribe demo_account)), fs_feed = demo_account\<rparr>"

lemma demo_account_runs:
  "session_runs account_ops cfg (PostedSend # PostedSend # connecting) (session_start account_ops demo_account) demo_account_open"
  by (simp add: connecting_def demo_account_open_def demo_open_def session_start_def session_handle_def session_possible_def
      send_all_def account_ops_def account_subscribe_def new_client_def client_defs)

theorem account_exception_freezes_feed_witness:
  "wc_connected (fs_client (session_handle account_ops demo_client_config (ReadMessage demo_bad_order True) demo_account_open))
   \<and> fs_feed (session_handle account_ops demo_client_config (ReadMessage demo_bad_order True) demo_account_open) = demo_account"
proof -
  have s: "wc_running (fs_client demo_account_open)" "wc_chain (fs_client demo_account_open) = Reading"
    "account_on_message demo_bad_order (fs_feed demo_account_open) = (Some ''stod'', [], demo_account)"
    by (simp_all add: demo_account_open_def demo_open_def new_client_def demo_bad_order_throws)
  have "session_runs account_ops cfg [] u u" for cfg u by simp
  from account_exception_freezes_feed [OF demo_account_runs s this] show ?thesis by simp
qed

end
