(* ===== verification/Engine_Requests.thy ===== *)
theory Engine_Requests
  imports Engine_Lighter_Run
begin

text \<open>
  What the engines ask of the venues: every order, cancel and unwind of a run is for the
  configured coin with the configured dry-run flag, and every maker order is post-only.
\<close>

section \<open>Orders as configured\<close>

fun as_configured :: "engine_config \<Rightarrow> venue_event \<Rightarrow> bool" where
  "as_configured c (HlLimit r _) \<longleftrightarrow> hlr_coin r = hl_coin c \<and> hlr_post_only r \<and> hlr_dry_run r = dry_run c"
| "as_configured c (HlIoc r _) \<longleftrightarrow> hir_coin r = hl_coin c \<and> hir_dry_run r = dry_run c"
| "as_configured c (HlCancel coin _ dry _) \<longleftrightarrow> coin = hl_coin c \<and> dry = dry_run c"
| "as_configured c (HlReduce coin _ _ dry _) \<longleftrightarrow> coin = hl_coin c \<and> dry = dry_run c"
| "as_configured c (LighterLimit r _) \<longleftrightarrow> llr_post_only r \<and> llr_dry_run r = dry_run c"
| "as_configured c (LighterCancel _ dry _) \<longleftrightarrow> dry = dry_run c"
| "as_configured c (LighterIoc r _) \<longleftrightarrow> lir_dry_run r = dry_run c"
| "as_configured c _ \<longleftrightarrow> True"

definition obeys :: "engine_config \<Rightarrow> world \<Rightarrow> world \<Rightarrow> bool" where
  "obeys c w w' \<longleftrightarrow> (\<exists>tr. trace w' = trace w @ tr \<and> (\<forall>ev \<in> set tr. as_configured c ev))"

lemma obeysI: "trace w' = trace w @ tr \<Longrightarrow> \<forall>ev \<in> set tr. as_configured c ev \<Longrightarrow> obeys c w w'"
  by (auto simp: obeys_def)

lemma obeys_same: "trace w' = trace w \<Longrightarrow> obeys c w w'"
  by (simp add: obeys_def)

lemma obeys_trans [trans]: "obeys c w w1 \<Longrightarrow> obeys c w1 w' \<Longrightarrow> obeys c w w'"
  by (fastforce simp: obeys_def)

lemma no_orders_as_configured: "orders_of tr = [] \<Longrightarrow> \<forall>ev \<in> set tr. as_configured c ev"
proof
  fix ev
  assume "orders_of tr = []" "ev \<in> set tr"
  then have "\<not> is_order ev" by (auto simp: orders_of_def filter_empty_conv)
  then show "as_configured c ev" by (cases ev) simp_all
qed

section \<open>The Hyperliquid-maker engine\<close>

lemma snapshot_obeys: "collect_snapshot E c' w = (s, w') \<Longrightarrow> obeys c w w'"
  by (rule obeysI, erule collect_snapshot_eq(1)) simp

lemma place_obeys:
  assumes "exec_place_hl_maker E a s e w = (logs, e', w')"
  shows "obeys (en_config e) w w'"
  using assms
proof (cases rule: exec_place_cases)
  case (sent now)
  from sent(3) show ?thesis by (cases rule: send_hl_maker_cases) (auto intro!: obeysI)
qed (auto intro!: obeysI)

lemma cancel_obeys:
  assumes "exec_cancel_hl_maker E a s e w = (logs, e', w')"
  shows "obeys (en_config e) w w'"
  using assms
proof (cases rule: exec_cancel_cases)
  case (sent now oid)
  have u: "\<forall>ev \<in> set (cancel_unwind x s ack'). as_configured (en_config x) ev" for x ack'
    by (simp add: cancel_unwind_def)
  from sent(3) show ?thesis
  proof (cases rule: send_hl_cancel_cases)
    case (cancelled t1 t2 ack ack')
    let ?e = "e\<lparr>last_hl_cancel_ms := now, next_retry_steady_ms := None, deferred_hl_action := None\<rparr>"
    have "trace w' = trace w @ [SteadyMs now, PerfNs t1, HlCancel (hl_coin (en_config e)) oid
        (dry_run (en_config e)) ack, PerfNs t2] @ cancel_unwind ?e s ack'"
      using cancelled(2) by simp
    then show ?thesis using u [of ?e ack'] by (intro obeysI) (assumption, auto)
  qed (auto intro!: obeysI)
qed (auto intro!: obeysI)

lemma execute_obeys:
  assumes "action_ok a \<or> act_type a \<in> {NoAction, UnwindHlPosition}"
    and "execute_action E a s e w = (logs, e', w')"
  shows "obeys (en_config e) w w'"
proof -
  from assms(1) consider "act_type a = PlaceHlMaker" | "act_type a = CancelHlMaker"
    | "act_type a = NoAction" | "act_type a = UnwindHlPosition" by (auto simp: action_ok_def)
  then show ?thesis
  proof cases
    case 4
    with assms(2) have "exec_unwind_hl E e w = (logs, e', w')" by (simp add: execute_action_simps)
    then show ?thesis by (rule exec_unwind_hl_eq) (rule obeysI, auto)
  qed (use assms(2) place_obeys cancel_obeys in \<open>auto simp: execute_action_simps intro: obeys_same\<close>)
qed

lemma decision_obeys:
  assumes "hl_inv (strategy e)" and "on_market_decision E now s e w = (logs, e', w')"
  shows "obeys (en_config e) w w'"
  using assms(2)
proof (cases rule: on_market_decision_cases)
  case (decided a h t1 t2 e2 w2)
  have "obeys (en_config e) w w2" using decided(4) by (auto intro!: obeysI)
  also have "obeys (en_config e) w2 w'"
    using execute_obeys [OF snapshot_action_ok [OF assms(1) decided(1)] decided(6)] decided(2) by (simp add: same_trading_def)
  finally show ?thesis .
qed (auto intro!: obeysI)

lemma market_data_obeys:
  assumes inv: "engine_inv e" and "on_market_data E now e w = (logs, e', w')"
  shows "obeys (en_config e) w w'"
  using assms(2)
proof (cases rule: on_market_data_cases)
  case (deferred s w1 a)
  have ok: "action_ok a \<or> act_type a \<in> {NoAction, UnwindHlPosition}"
    using inv deferred(2) by (simp add: engine_inv_def)
  show ?thesis using obeys_trans [OF snapshot_obeys [OF deferred(1)]] execute_obeys [OF ok deferred(4)] by simp
next
  case (deferred_quiet s w1 a e1 w2)
  have ok: "action_ok a" using inv deferred_quiet(2) by (simp add: engine_inv_def)
  have e1: "engine_inv e1" "en_config e1 = en_config e"
    using engine_inv_execute [OF engine_inv_defer(2) [OF inv] disjI1 [OF ok] deferred_quiet(3)] by simp_all
  have "obeys (en_config e) w w1" by (rule snapshot_obeys [OF deferred_quiet(1)])
  also have "obeys (en_config e) w1 w2" using execute_obeys [OF disjI1 [OF ok] deferred_quiet(3)] by simp
  also have "obeys (en_config e) w2 w'" using decision_obeys [OF _ deferred_quiet(4)] e1 by (simp add: engine_inv_def)
  finally show ?thesis .
next
  case (direct s w1)
  have "obeys (en_config e) w w1" by (rule snapshot_obeys [OF direct(1)])
  also have "obeys (en_config e) w1 w'" using decision_obeys [OF _ direct(2)] inv by (simp add: engine_inv_def)
  finally show ?thesis .
qed

lemma fill_obeys:
  assumes "on_hl_fill E px sz s oid rx fee e w = (logs, e', w')"
  shows "obeys (en_config e) w w'"
proof -
  consider "w' = w" | "reconcile_speculative E s sz oid e w = (logs, e', w')"
    | "hedge_fill E s px sz oid rx fee e w = (logs, e', w')"
    using assms by (auto simp: on_hl_fill_def split: if_splits)
  then show ?thesis
  proof cases
    case 2
    then show ?thesis by (cases rule: reconcile_cases) (auto intro!: obeysI intro: obeys_same)
  next
    case 3
    then show ?thesis
    proof (cases rule: hedge_fill_cases)
      case (confirmed t1 t2 ack clocks)
      with no_orders_as_configured [OF confirmed(3)] show ?thesis by (intro obeysI [OF confirmed(4)]) auto
    next
      case (unwound t1 t2 ack u1 u2 unwind clocks)
      with no_orders_as_configured [OF unwound(2)] show ?thesis by (intro obeysI [OF unwound(3)]) auto
    qed
  qed (simp add: obeys_same)
qed

lemma trade_obeys:
  assumes "on_trade_event E tr e w = (logs, e', w')"
  shows "obeys (en_config e) w w'"
  using assms
proof (cases rule: on_trade_event_cases)
  case (hedged oid order s w1 t1 t2 ack)
  have "obeys (en_config e) w w1" by (rule snapshot_obeys [OF hedged(6)])
  also have "obeys (en_config e) w1 w'" by (rule obeysI [OF hedged(8)]) simp
  finally show ?thesis .
qed (auto intro: obeys_same snapshot_obeys)

lemma step_obeys:
  assumes "engine_inv e" and "engine_step E ev e w = (logs, e', w')"
  shows "obeys (en_config e) w w'"
proof (cases ev)
  case LighterHedgeReject
  let ?h = "snd (on_lighter_hedge_reject (strategy e))"
  obtain s w1 where c: "collect_snapshot E (en_config e) w = (s, w1)" by fastforce
  with LighterHedgeReject assms(2) have
    "execute_action E (fst (on_lighter_hedge_reject (strategy e))) s (e\<lparr>strategy := ?h\<rparr>) w1 = (logs, e', w')"
    by (simp add: engine_on_lighter_hedge_reject_def Let_def)
  from obeys_trans [OF snapshot_obeys [OF c] execute_obeys [OF disjI2 [OF reject_action_type] this, simplified]]
  show ?thesis by simp
qed (use assms market_data_obeys fill_obeys trade_obeys in \<open>auto intro: obeys_same\<close>)

lemma run_obeys:
  "engine_inv e \<Longrightarrow> run_engine E evs e w = (e', w') \<Longrightarrow> obeys (en_config e) w w'"
proof (induction evs arbitrary: e w)
  case (Cons ev evs)
  obtain logs e1 w1 where s: "engine_step E ev e w = (logs, e1, w1)" by (rule prod_cases3)
  note e1 = engine_inv_step [OF Cons.prems(1) s]
  have "obeys (en_config e) w w1" by (rule step_obeys [OF Cons.prems(1) s])
  also have "obeys (en_config e) w1 w'" using Cons.IH [of e1 w1] e1 Cons.prems(2) s by simp
  finally show ?case .
qed (simp add: obeys_same)


section \<open>The Lighter-maker engine\<close>

lemma lighter_snapshot_obeys: "lighter_collect_snapshot E c' w = (s, w') \<Longrightarrow> obeys c w w'"
  by (rule obeysI, erule lighter_collect_snapshot_eq(1)) simp

lemma lighter_execute_obeys:
  assumes "a = no_action \<or> lm_action_ok e a" and "lighter_execute_action E a s e w = (logs, e', w')"
  shows "obeys (le_config e) w w'"
proof -
  consider "a = no_action" | "act_type a = PlaceLighterMaker" | "act_type a = CancelLighterMaker"
    using assms(1) by (auto simp: lm_action_ok_def)
  then show ?thesis
  proof cases
    case 1
    with assms(2) show ?thesis by (simp add: lighter_execute_simps obeys_same)
  next
    case 2
    with assms(2) have "exec_place_lighter E a e w = (logs, e', w')" by (simp add: lighter_execute_simps)
    then show ?thesis by (cases rule: exec_place_lighter_cases) (auto intro!: obeysI)
  next
    case 3
    with assms(2) have "exec_cancel_lighter E a e w = (logs, e', w')" by (simp add: lighter_execute_simps)
    then show ?thesis by (cases rule: exec_cancel_lighter_cases) (auto intro!: obeysI)
  qed
qed

lemma lighter_decision_obeys:
  assumes "lighter_engine_inv e" and "lighter_on_market_decision E now s e w = (logs, e', w')"
  shows "obeys (le_config e) w w'"
proof -
  obtain a h t1 t2 w1 pt where d: "lm_on_market_snapshot s now (le_strategy e) = (a, h)"
    "trace w1 = trace w @ [PerfNs t1, PerfNs t2]"
    "lighter_execute_action E a s (e\<lparr>le_strategy := h, le_perf_trace := pt\<rparr>) w1 = (logs, e', w')"
    by (rule lighter_decision_cases [OF assms(2)])
  have "obeys (le_config e) w w1" by (rule obeysI [OF d(2)]) simp
  also have "obeys (le_config e) w1 w'"
    using lighter_execute_obeys [OF lighter_inv_decided(2) [OF assms(1) d(1)] d(3)] by simp
  finally show ?thesis .
qed

lemma lighter_market_data_obeys:
  assumes inv: "lighter_engine_inv e" and "lighter_on_market_data E now e w = (logs, e', w')"
  shows "obeys (le_config e) w w'"
  using assms(2)
proof (cases rule: lighter_market_data_cases)
  case (deferred s w1 a)
  note ok = lighter_inv_forget_deferred(2) [OF inv deferred(2)]
  show ?thesis
    using obeys_trans [OF lighter_snapshot_obeys [OF deferred(1)]] lighter_execute_obeys [OF disjI2 [OF ok] deferred(3)] by simp
next
  case (deferred_quiet s w1 a e1 w2)
  note ok = lighter_inv_forget_deferred(2) [OF inv deferred_quiet(2)]
  have e1: "lighter_engine_inv e1" "le_config e1 = le_config e"
    using lighter_inv_execute [OF lighter_inv_forget_deferred(1) [OF inv] disjI2 [OF ok] deferred_quiet(3)] by simp_all
  have "obeys (le_config e) w w1" by (rule lighter_snapshot_obeys [OF deferred_quiet(1)])
  also have "obeys (le_config e) w1 w2" using lighter_execute_obeys [OF disjI2 [OF ok] deferred_quiet(3)] by simp
  also have "obeys (le_config e) w2 w'" using lighter_decision_obeys [OF e1(1) deferred_quiet(4)] e1(2) by simp
  finally show ?thesis .
next
  case (direct s w1)
  show ?thesis
    by (rule obeys_trans [OF lighter_snapshot_obeys [OF direct(1)] lighter_decision_obeys [OF inv direct(2)]])
qed

lemma lighter_fill_obeys:
  assumes "on_lighter_fill E px sz s i ci rx e w = (logs, e', w')"
  shows "obeys (le_config e) w w'"
  using assms
proof (cases rule: lighter_fill_cases)
  case (hedge order a h w1 pt)
  from hedge(8) show ?thesis
  proof (cases rule: exec_hl_taker_cases)
    case (hedged t1 t2 ack clocks entry)
    have "\<forall>ev \<in> set clocks. as_configured c ev" for c using hedged(5) by (auto simp: clock_reads_def)
    with hedged(4) hedge(6) show ?thesis by (intro obeysI) (simp, auto)
  next
    case (unwound t1 t2 ack unwind)
    with hedge(6) show ?thesis by (intro obeysI) (simp, auto)
  qed
qed (auto intro: obeys_same)

lemma lighter_step_obeys:
  assumes inv: "lighter_engine_inv e" and "lighter_engine_step E ev e w = (logs, e', w')"
  shows "obeys (le_config e) w w'"
proof (cases ev)
  case LHedgeReject
  have "open_position (le_strategy e) = None" using inv by (simp add: lighter_engine_inv_def)
  from lighter_reject_quiet [OF this] LHedgeReject assms(2) obtain s where
    "lighter_collect_snapshot E (le_config e) w = (s, w')" by force
  then show ?thesis by (rule lighter_snapshot_obeys)
qed (use assms lighter_market_data_obeys lighter_fill_obeys in auto)

lemma lighter_run_obeys:
  "lighter_engine_inv e \<Longrightarrow> run_lighter_engine E evs e w = (e', w') \<Longrightarrow> obeys (le_config e) w w'"
proof (induction evs arbitrary: e w)
  case (Cons ev evs)
  obtain logs e1 w1 where s: "lighter_engine_step E ev e w = (logs, e1, w1)" by (rule prod_cases3)
  note e1 = lighter_inv_step [OF Cons.prems(1) s]
  have "obeys (le_config e) w w1" by (rule lighter_step_obeys [OF Cons.prems(1) s])
  also have "obeys (le_config e) w1 w'" using Cons.IH [of e1 w1] e1 Cons.prems(2) s by simp
  finally show ?case .
qed (simp add: obeys_same)

end
