(* ===== verification/Adapters.thy ===== *)
theory Adapters
  imports Engine_Requests Engine_Hl_Safety Native_Hl_Safety Native_Lighter_Safety
begin

text \<open>
  The adapters of \<open>include/arb/ws_exchange.hpp\<close>, through which an engine reaches the native
  clients.  They forward every order; so a run of an engine is served by the native clients
  when each answer in its trace is what the client answers there.
\<close>

section \<open>Forwarding\<close>

text \<open>The world after a method that answered so; \<open>None\<close> when it answered otherwise or threw.\<close>

definition answered :: "'a \<Rightarrow> (string + 'a) \<times> 'w \<Rightarrow> 'w option" where
  "answered ack r = (if fst r = Inr ack then Some (snd r) else None)"

fun serve_hl :: "hl_env \<Rightarrow> venue_event \<Rightarrow> hl_world \<Rightarrow> hl_world option" where
  "serve_hl E (HlLimit request ack) w = answered ack (hl_native_place_limit E request w)"
| "serve_hl E (HlIoc request ack) w = answered ack (hl_native_place_ioc E request w)"
| "serve_hl E (HlCancel coin oid dry ack) w = answered ack (hl_native_cancel E coin oid dry w)"
| "serve_hl E (HlReduce coin is_buy size_base dry ack) w = answered ack (hl_native_reduce E coin is_buy size_base dry w)"
| "serve_hl E _ w = Some w"

fun serve_lighter :: "lighter_env \<Rightarrow> venue_event \<Rightarrow> lighter_world \<Rightarrow> lighter_world option" where
  "serve_lighter E (LighterLimit request ack) w = answered ack (lighter_native_place_limit E request w)"
| "serve_lighter E (LighterCancel order_index dry ack) w = answered ack (lighter_native_cancel E order_index dry w)"
| "serve_lighter E (LighterIoc request ack) w = answered ack (lighter_native_place_ioc E request w)"
| "serve_lighter E _ w = Some w"

fun served :: "(venue_event \<Rightarrow> 'w \<Rightarrow> 'w option) \<Rightarrow> venue_event list \<Rightarrow> 'w \<Rightarrow> 'w option" where
  "served serve [] w = Some w"
| "served serve (ev # tr) w = (case serve ev w of None \<Rightarrow> None | Some w \<Rightarrow> served serve tr w)"

lemma answered_Some: "answered ack r = Some w' \<longleftrightarrow> r = (Inr ack, w')"
  by (cases r) (auto simp: answered_def)

section \<open>What one order posts\<close>

text \<open>A method of the native client only adds to the calls, and of its state changes nothing but
  the asset table, and that only while it is empty.\<close>

definition kept :: "hl_world \<Rightarrow> hl_world \<Rightarrow> bool" where
  "kept w w' \<longleftrightarrow> prefix (hw_calls w) (hw_calls w')
     \<and> (\<exists>table. hw_native w' = (hw_native w)\<lparr>nh_meta := table\<rparr>)
     \<and> (nh_meta (hw_native w) \<noteq> [] \<longrightarrow> hw_native w' = hw_native w)"

lemma kept_refl: "kept w w"
  by (auto simp: kept_def intro!: exI [of _ "nh_meta (hw_native w)"])

lemma kept_trans:
  assumes "kept u v" and "kept v w"
  shows "kept u w"
proof -
  obtain x y where "hw_native v = (hw_native u)\<lparr>nh_meta := x\<rparr>" "hw_native w = (hw_native v)\<lparr>nh_meta := y\<rparr>"
    using assms unfolding kept_def by blast
  then have "hw_native w = (hw_native u)\<lparr>nh_meta := y\<rparr>" by simp
  with assms show ?thesis by (auto simp: kept_def intro: prefix_order.trans)
qed

lemma kept_same: "hw_native w' = hw_native w \<Longrightarrow> prefix (hw_calls w) (hw_calls w') \<Longrightarrow> kept w w'"
  by (auto simp: kept_def intro!: exI [of _ "nh_meta (hw_native w)"])

lemma meta_for_coin_kept:
  assumes "meta_for_coin E coin w = (res, w')"
  shows "kept w w'"
  using assms
  by (auto simp: kept_def meta_for_coin_def ensure_meta_def store_meta_def hl_method_defs
      split: if_splits sum.splits option.splits prod.splits intro: exI [of _ "nh_meta (hw_native w)"])

lemma get_bbo_kept: "hl_native_get_bbo E coin w = (res, w') \<Longrightarrow> kept w w'"
  by (rule kept_same) (auto simp: hl_native_get_bbo_def hl_method_defs split: sum.splits if_splits)

lemma post_exchange_action_posts:
  assumes "post_exchange_action E json h nonce w = (Inr t, w')"
  shows "kept w w' \<and> hw_native w' = hw_native w \<and> (\<exists>sig. sign_l1_action E (hw_native w) h = Inr sig
    \<and> actions_sent w' = actions_sent w @ [action_request (hw_native w) json nonce sig])"
proof -
  obtain sig where "sign_l1_action E (hw_native w) h = Inr sig"
    using assms by (cases "sign_l1_action E (hw_native w) h") (auto simp: post_exchange_action_def hl_method_defs)
  with assms show ?thesis
    by (auto simp: post_exchange_action_def hl_method_defs actions_sent_call map_filter_simps kept_same split: if_splits)
qed

text \<open>The request of an action is signed when its hash could be formed and it carries the signature
  of that hash, under the key and the vault address of the client.\<close>

definition signed_action :: "hl_env \<Rightarrow> native_hl \<Rightarrow> u64 \<Rightarrow> string \<Rightarrow> string + bytes \<Rightarrow> string \<Rightarrow> bool" where
  "signed_action E n nonce json hash body \<longleftrightarrow>
     (\<exists>h sig. hash = Inr h \<and> sign_l1_action E n h = Inr sig \<and> body = action_request n json nonce sig)"

text \<open>The nonce is the time read while the order is being sent.\<close>

definition clock_between :: "hl_env \<Rightarrow> hl_world \<Rightarrow> hl_world \<Rightarrow> u64 \<Rightarrow> bool" where
  "clock_between E w w' nonce \<longleftrightarrow>
     (\<exists>cs. prefix (hw_calls w) cs \<and> prefix (cs @ [HlClock]) (hw_calls w') \<and> nonce = he_epoch_ms E (cs @ [HlClock]))"

lemma clock_between_kept: "clock_between E v w nonce \<Longrightarrow> kept u v \<Longrightarrow> clock_between E u w nonce"
  by (auto simp: clock_between_def kept_def intro: prefix_order.trans)

lemma send_order_posts:
  assumes "send_order E r ioc reduce_only w = (Inr t, w')"
  shows "kept w w' \<and> (\<exists>m nonce body. map_of (nh_meta (hw_native w')) (hlr_coin r) = Some m \<and> clock_between E w w' nonce
    \<and> signed_action E (hw_native w') nonce (order_action_json E r m ioc reduce_only)
        (order_action_hash E (hw_native w') r m ioc reduce_only nonce) body
    \<and> actions_sent w' = actions_sent w @ [body])"
proof -
  obtain m w0 where m: "meta_for_coin E (hlr_coin r) w = (Inr m, w0)"
    using assms by (auto simp: send_order_def after_def split: prod.splits sum.splits)
  let ?w1 = "w0\<lparr>hw_calls := hw_calls w0 @ [HlClock]\<rparr>" and ?nonce = "he_epoch_ms E (hw_calls w0 @ [HlClock])"
  obtain h where h: "order_action_hash E (hw_native w0) r m ioc reduce_only ?nonce = Inr h"
    using assms m by (cases "order_action_hash E (hw_native w0) r m ioc reduce_only ?nonce")
      (auto simp: send_order_def after_def hl_calls_def hl_native_def or_throw_def throws_def Let_def)
  then have p: "post_exchange_action E (order_action_json E r m ioc reduce_only) h ?nonce ?w1 = (Inr t, w')"
    using assms m by (simp add: send_order_def after_def hl_calls_def hl_native_def or_throw_def returns_def Let_def)
  note posted = post_exchange_action_posts [OF p]
  have n: "hw_native w' = hw_native w0" "actions_sent ?w1 = actions_sent w"
    using posted meta_for_coin_result(1) [OF m] by (simp_all add: actions_sent_call map_filter_simps)
  have "kept w0 ?w1" by (rule kept_same) simp_all
  then have k: "kept w ?w1" by (rule kept_trans [OF meta_for_coin_kept [OF m]])
  with posted have k': "kept w w'" by (blast intro: kept_trans)
  have "clock_between E w w' ?nonce"
    using posted meta_for_coin_kept [OF m] unfolding clock_between_def kept_def by auto
  with posted meta_for_coin_result(2) [OF m refl] h n k' show ?thesis
    unfolding signed_action_def by auto
qed

lemma cancel_posts:
  assumes "hl_native_cancel E coin oid False w = (Inr ack, w')"
  shows "kept w w' \<and> (\<exists>m nonce body. map_of (nh_meta (hw_native w')) coin = Some m \<and> clock_between E w w' nonce
    \<and> signed_action E (hw_native w') nonce (cancel_action_json m oid) (cancel_action_hash (hw_native w') m oid nonce) body
    \<and> actions_sent w' = actions_sent w @ [body])"
proof -
  let ?w1 = "w\<lparr>hw_calls := hw_calls w @ [HlClock]\<rparr>" and ?nonce = "he_epoch_ms E (hw_calls w @ [HlClock])"
  obtain m w0 where m: "meta_for_coin E coin ?w1 = (Inr m, w0)"
    using assms by (auto simp: hl_native_cancel_def after_def hl_calls_def Let_def split: prod.splits sum.splits)
  obtain h where h: "cancel_action_hash (hw_native w0) m oid ?nonce = Inr h"
    using assms m by (cases "cancel_action_hash (hw_native w0) m oid ?nonce")
      (auto simp: hl_native_cancel_def after_def hl_calls_def hl_native_def or_throw_def throws_def Let_def)
  then obtain t where p: "post_exchange_action E (cancel_action_json m oid) h ?nonce w0 = (Inr t, w')"
    using assms m by (auto simp: hl_native_cancel_def after_def hl_calls_def hl_native_def or_throw_def returns_def Let_def
        split: prod.splits sum.splits)
  note posted = post_exchange_action_posts [OF p]
  have n: "hw_native w' = hw_native w0" "actions_sent w0 = actions_sent w"
    using posted meta_for_coin_result(1) [OF m] by (simp_all add: actions_sent_call map_filter_simps)
  have k1: "kept ?w1 w0" by (rule meta_for_coin_kept [OF m])
  have "kept w ?w1" by (rule kept_same) simp_all
  with k1 posted have k': "kept w w'" by (blast intro: kept_trans)
  have "prefix (hw_calls ?w1) (hw_calls w')"
    using k1 posted unfolding kept_def by (blast intro: prefix_order.trans)
  then have "clock_between E w w' ?nonce"
    unfolding clock_between_def by auto
  with posted meta_for_coin_result(2) [OF m refl] h n k' show ?thesis
    unfolding signed_action_def by auto
qed

lemma get_bbo_posts_nothing: "hl_native_get_bbo E coin w = (res, w') \<Longrightarrow> actions_sent w' = actions_sent w"
  by (auto simp: hl_native_get_bbo_def hl_method_defs actions_sent_call map_filter_simps split: sum.splits if_splits)

text \<open>What an order of the trace is posted as: the asset entry of its coin in the client's table, the
  JSON and the hash of that very order for this entry, and the nonce, all in one signed request.\<close>

definition ioc_as_limit :: "hl_ioc_order_request \<Rightarrow> hl_limit_order_request" where
  "ioc_as_limit r = \<lparr>hlr_coin = hir_coin r, hlr_is_buy = hir_is_buy r, hlr_price = hir_price r, hlr_size = hir_size r,
     hlr_post_only = False, hlr_dry_run = False\<rparr>"

fun is_hl_order :: "venue_event \<Rightarrow> bool" where
  "is_hl_order (HlLimit r _) = True"
| "is_hl_order (HlIoc r _) = True"
| "is_hl_order (HlCancel _ _ _ _) = True"
| "is_hl_order (HlReduce _ _ _ _ _) = True"
| "is_hl_order _ = False"

fun coin_of :: "venue_event \<Rightarrow> string" where
  "coin_of (HlLimit r _) = hlr_coin r"
| "coin_of (HlIoc r _) = hir_coin r"
| "coin_of (HlCancel coin _ _ _) = coin"
| "coin_of (HlReduce coin _ _ _ _) = coin"
| "coin_of _ = []"

text \<open>The price of a reducing order comes from the book asked for first.\<close>

fun posted_as :: "hl_env \<Rightarrow> native_hl \<Rightarrow> hl_world \<Rightarrow> venue_event \<Rightarrow> meta_entry \<Rightarrow> u64 \<Rightarrow> string \<Rightarrow> bool" where
  "posted_as E n w (HlLimit r _) m nonce body \<longleftrightarrow>
     signed_action E n nonce (order_action_json E r m False False) (order_action_hash E n r m False False nonce) body"
| "posted_as E n w (HlIoc r _) m nonce body \<longleftrightarrow>
     signed_action E n nonce (order_action_json E (ioc_as_limit r) m True False)
       (order_action_hash E n (ioc_as_limit r) m True False nonce) body"
| "posted_as E n w (HlCancel coin oid _ _) m nonce body \<longleftrightarrow>
     signed_action E n nonce (cancel_action_json m oid) (cancel_action_hash n m oid nonce) body"
| "posted_as E n w (HlReduce coin is_buy sz _ _) m nonce body \<longleftrightarrow>
     (\<exists>book v. hl_native_get_bbo E coin w = (Inr book, v)
       \<and> signed_action E n nonce (order_action_json E (reduce_request coin is_buy sz book) m True True)
           (order_action_hash E n (reduce_request coin is_buy sz book) m True True nonce) body)"
| "posted_as E n w _ m nonce body \<longleftrightarrow> False"

definition posted_for :: "hl_env \<Rightarrow> native_hl \<Rightarrow> hl_world \<Rightarrow> hl_world \<Rightarrow> venue_event \<Rightarrow> string \<Rightarrow> bool" where
  "posted_for E n w w' ev body \<longleftrightarrow> serve_hl E ev w = Some w' \<and> actions_sent w' = actions_sent w @ [body]
     \<and> (\<exists>m nonce. map_of (nh_meta n) (coin_of ev) = Some m \<and> clock_between E w w' nonce \<and> posted_as E n w ev m nonce body)"

text \<open>An order is posted in the course of a run from \<open>w\<close> to \<open>w'\<close>, with the client as it is at the end.\<close>

definition posted_within :: "hl_env \<Rightarrow> hl_world \<Rightarrow> hl_world \<Rightarrow> venue_event \<Rightarrow> string \<Rightarrow> bool" where
  "posted_within E w w' ev body \<longleftrightarrow>
     (\<exists>u u'. prefix (hw_calls w) (hw_calls u) \<and> prefix (hw_calls u') (hw_calls w') \<and> posted_for E (hw_native w') u u' ev body)"

fun dry_event :: "venue_event \<Rightarrow> bool" where
  "dry_event (HlLimit r _) = hlr_dry_run r"
| "dry_event (HlIoc r _) = hir_dry_run r"
| "dry_event (HlCancel _ _ dry _) = dry"
| "dry_event (HlReduce _ _ _ dry _) = dry"
| "dry_event (LighterLimit r _) = llr_dry_run r"
| "dry_event (LighterCancel _ dry _) = dry"
| "dry_event (LighterIoc r _) = lir_dry_run r"
| "dry_event _ = True"

lemma dry_serves_nothing:
  assumes "serve_hl E ev w = Some w'" and "dry_event ev"
  shows "actions_sent w' = actions_sent w"
  using assms
proof (cases ev)
  case (HlReduce coin is_buy sz dry ack)
  with assms have "hl_native_reduce E coin is_buy sz True w = (Inr ack, w')" by (simp add: answered_Some)
  then obtain res where "hl_native_get_bbo E coin w = (res, w')"
    by (auto simp: hl_native_reduce_def after_def returns_def split: sum.splits prod.splits)
  then show ?thesis by (rule get_bbo_posts_nothing)
qed (auto simp: answered_Some hl_native_place_limit_def hl_native_place_ioc_def hl_native_cancel_def returns_def)

lemma order_posted:
  assumes "serve_hl E ev w = Some w'" and "is_hl_order ev" and "\<not> dry_event ev"
  shows "kept w w' \<and> (\<exists>body. posted_for E (hw_native w') w w' ev body \<and> actions_sent w' = actions_sent w @ [body])"
  using assms
proof (cases ev)
  case (HlLimit r ack)
  with assms have run: "hl_native_place_limit E r w = (Inr ack, w')" "\<not> hlr_dry_run r" by (simp_all add: answered_Some)
  then obtain t where "send_order E r False False w = (Inr t, w')"
    by (auto simp: hl_native_place_limit_def after_def returns_def Let_def split: sum.splits prod.splits)
  from send_order_posts [OF this] HlLimit assms(1) show ?thesis by (auto simp: posted_for_def)
next
  case (HlIoc r ack)
  with assms have run: "hl_native_place_ioc E r w = (Inr ack, w')" "\<not> hir_dry_run r" by (simp_all add: answered_Some)
  then obtain t where "send_order E (ioc_as_limit r) True False w = (Inr t, w')"
    by (auto simp: hl_native_place_ioc_def ioc_as_limit_def after_def returns_def or_throw_def throws_def Let_def
        split: sum.splits prod.splits)
  moreover have "hlr_coin (ioc_as_limit r) = coin_of ev" using HlIoc by (simp add: ioc_as_limit_def)
  ultimately show ?thesis using send_order_posts HlIoc assms(1) by (fastforce simp: posted_for_def)
next
  case (HlCancel coin oid dry ack)
  with assms have run: "hl_native_cancel E coin oid False w = (Inr ack, w')" by (simp add: answered_Some)
  from cancel_posts [OF run] HlCancel assms(1) show ?thesis by (auto simp: posted_for_def)
next
  case (HlReduce coin is_buy sz dry ack)
  with assms have run: "hl_native_reduce E coin is_buy sz False w = (Inr ack, w')" by (simp add: answered_Some)
  then obtain book w0 t where b: "hl_native_get_bbo E coin w = (Inr book, w0)"
    and s: "send_order E (reduce_request coin is_buy sz book) True True w0 = (Inr t, w')"
    by (auto simp: hl_native_reduce_def after_def returns_def or_throw_def throws_def split: sum.splits prod.splits)
  have k: "kept w w0" "actions_sent w0 = actions_sent w" by (rule get_bbo_kept [OF b], rule get_bbo_posts_nothing [OF b])
  note posted = send_order_posts [OF s]
  moreover have "kept w w'" using posted k(1) kept_trans by blast
  moreover have "hlr_coin (reduce_request coin is_buy sz book) = coin" by (simp add: reduce_request_def)
  moreover note clock_between_kept [OF _ k(1)]
  ultimately show ?thesis using HlReduce assms(1) b k(2) by (auto simp: posted_for_def; blast)
qed simp_all


text \<open>The calls of the native Lighter client but for its clocks.\<close>

definition requests :: "lighter_world \<Rightarrow> lighter_call list" where
  "requests w = filter (\<lambda>c. c \<noteq> ClockRead) (lw_calls w)"

lemma dry_requests_nothing:
  assumes "serve_lighter E ev w = Some w'" and "dry_event ev"
  shows "requests w' = requests w"
  using assms
  by (cases ev) (auto simp: answered_Some lighter_native_place_limit_def lighter_native_cancel_def
      lighter_native_place_ioc_def after_def returns_def reads_def calls_def requests_def Let_def)

section \<open>Runs of the engines on the native clients\<close>

lemma configured_dry:
  "as_configured c ev \<Longrightarrow> dry_run c \<Longrightarrow> dry_event ev"
  "as_configured c ev \<Longrightarrow> \<not> dry_run c \<Longrightarrow> is_order ev \<Longrightarrow> \<not> dry_event ev"
  by (cases ev; simp)+

lemma served_quiet:
  assumes "served serve tr w = Some w'" and "\<And>ev w w'. ev \<in> set tr \<Longrightarrow> serve ev w = Some w' \<Longrightarrow> sent w' = sent w"
  shows "sent w' = sent w"
  using assms
proof (induction tr arbitrary: w)
  case (Cons ev tr)
  then obtain w1 where w1: "serve ev w = Some w1" "served serve tr w1 = Some w'" by (auto split: option.splits)
  have "sent w' = sent w1" by (rule Cons.IH [OF w1(2)]) (use Cons.prems(2) in auto)
  also have "sent w1 = sent w" using Cons.prems(2) [OF _ w1(1)] by simp
  finally show ?case .
qed simp

lemma dry_trace_sends_nothing:
  assumes "\<forall>ev \<in> set tr. as_configured c ev" and "dry_run c"
    and "served (serve_hl EH) tr hw = Some hw'" and "served (serve_lighter EL) tr lw = Some lw'"
  shows "actions_sent hw' = actions_sent hw \<and> requests lw' = requests lw"
proof -
  have dry: "dry_event ev" if "ev \<in> set tr" for ev
    using that assms(1,2) configured_dry(1) by blast
  then show ?thesis
    using served_quiet [OF assms(3), of actions_sent] served_quiet [OF assms(4), of requests]
      dry_serves_nothing dry_requests_nothing by blast
qed

lemma serve_hl_kept:
  assumes "serve_hl E ev w = Some w'"
  shows "kept w w'"
proof (cases "is_hl_order ev \<and> \<not> dry_event ev")
  case True
  with order_posted [OF assms] show ?thesis by simp
next
  case False
  show ?thesis
  proof (cases ev)
    case (HlReduce coin is_buy sz dry ack)
    with False assms have "hl_native_reduce E coin is_buy sz True w = (Inr ack, w')" by (simp add: answered_Some)
    then obtain res where "hl_native_get_bbo E coin w = (res, w')"
      by (auto simp: hl_native_reduce_def after_def returns_def split: sum.splits prod.splits)
    then show ?thesis by (rule get_bbo_kept)
  qed (use assms False in \<open>auto simp: answered_Some hl_native_place_limit_def hl_native_place_ioc_def
      hl_native_cancel_def returns_def kept_refl\<close>)
qed

lemma served_kept: "served (serve_hl E) tr w = Some w' \<Longrightarrow> kept w w'"
proof (induction tr arbitrary: w)
  case (Cons ev tr)
  then obtain w1 where w1: "serve_hl E ev w = Some w1" "served (serve_hl E) tr w1 = Some w'" by (auto split: option.splits)
  show ?case by (rule kept_trans [OF serve_hl_kept [OF w1(1)] Cons.IH [OF w1(2)]])
qed (simp add: kept_refl)

text \<open>Once an order has been posted the asset table is there and the client stays as it is.\<close>

lemma posted_for_later:
  assumes "posted_for E (hw_native v) u v ev body" and "kept v w'"
  shows "posted_for E (hw_native w') u v ev body"
proof -
  have "nh_meta (hw_native v) \<noteq> []" using assms(1) by (auto simp: posted_for_def)
  with assms show ?thesis by (simp add: kept_def)
qed

lemma posted_within_earlier: "posted_within E v w' ev body \<Longrightarrow> kept w v \<Longrightarrow> posted_within E w w' ev body"
  unfolding posted_within_def kept_def by (blast intro: prefix_order.trans)

lemma live_trace_posts:
  assumes "\<forall>ev \<in> set tr. as_configured c ev" and "\<not> dry_run c" and "served (serve_hl EH) tr hw = Some hw'"
  shows "\<exists>bodies. actions_sent hw' = actions_sent hw @ bodies
    \<and> list_all2 (posted_within EH hw hw') (filter is_hl_order tr) bodies"
  using assms(1,3)
proof (induction tr arbitrary: hw)
  case (Cons ev tr)
  then obtain w1 where w1: "serve_hl EH ev hw = Some w1" "served (serve_hl EH) tr w1 = Some hw'"
    by (auto split: option.splits)
  with Cons obtain bodies where rest: "actions_sent hw' = actions_sent w1 @ bodies"
    "list_all2 (posted_within EH w1 hw') (filter is_hl_order tr) bodies" by auto
  have k: "kept hw w1" "kept w1 hw'" by (rule serve_hl_kept [OF w1(1)], rule served_kept [OF w1(2)])
  have rest': "list_all2 (posted_within EH hw hw') (filter is_hl_order tr) bodies"
    using rest(2) by (rule list_all2_mono) (rule posted_within_earlier [OF _ k(1)])
  show ?case
  proof (cases "is_hl_order ev")
    case True
    then have "\<not> dry_event ev" using Cons.prems(1) assms(2) configured_dry(2) [of c ev] by (cases ev) auto
    then obtain body where b: "posted_for EH (hw_native w1) hw w1 ev body" "actions_sent w1 = actions_sent hw @ [body]"
      using order_posted [OF w1(1) True] by blast
    have "posted_within EH hw hw' ev body"
      using posted_for_later [OF b(1) k(2)] k(2) unfolding posted_within_def kept_def by blast
    with b(2) rest rest' True show ?thesis by (auto intro: exI [of _ "_ # bodies"])
  next
    case False
    then have "w1 = hw" using w1(1) by (cases ev) auto
    with rest rest' False show ?thesis by auto
  qed
qed simp

lemma trace_as_configured: "obeys c w w' \<Longrightarrow> trace w = [] \<Longrightarrow> \<forall>ev \<in> set (trace w'). as_configured c ev"
  by (auto simp: obeys_def)

lemma engine_trace_configured:
  "engine_new c = Inr e \<Longrightarrow> run_engine E evs e w = (e', w') \<Longrightarrow> trace w = [] \<Longrightarrow>
     \<forall>ev \<in> set (trace w'). as_configured c ev"
  using engine_inv_new run_obeys by (metis trace_as_configured)

lemma lighter_trace_configured:
  "lighter_engine_new c = Inr e \<Longrightarrow> run_lighter_engine E evs e w = (e', w') \<Longrightarrow> trace w = [] \<Longrightarrow>
     \<forall>ev \<in> set (trace w'). as_configured c ev"
  using lighter_engine_inv_new lighter_run_obeys by (metis trace_as_configured)

text \<open>C11: A dry run sends nothing: whatever the market does, when the Hyperliquid-maker engine is
  configured for a dry run and its orders are answered by the native clients, no action is
  posted to Hyperliquid, and the Lighter client neither signs nor sends a transaction nor asks
  anything over HTTP.\<close>

theorem dry_run_sends_nothing:
  assumes "engine_new c = Inr e" and "dry_run c" and "run_engine E evs e w = (e', w')" and "trace w = []"
    and "served (serve_hl EH) (trace w') hw = Some hw'" and "served (serve_lighter EL) (trace w') lw = Some lw'"
  shows "actions_sent hw' = actions_sent hw \<and> requests lw' = requests lw"
  by (rule dry_trace_sends_nothing [OF engine_trace_configured [OF assms(1,3,4)] assms(2,5,6)])

lemma lighter_dry_run_sends_nothing:
  assumes "lighter_engine_new c = Inr e" and "dry_run c" and "run_lighter_engine E evs e w = (e', w')" and "trace w = []"
    and "served (serve_hl EH) (trace w') hw = Some hw'" and "served (serve_lighter EL) (trace w') lw = Some lw'"
  shows "actions_sent hw' = actions_sent hw \<and> requests lw' = requests lw"
  by (rule dry_trace_sends_nothing [OF lighter_trace_configured [OF assms(1,3,4)] assms(2,5,6)])

text \<open>C10: In a live run on the native client every order, hedge, cancel and unwind that the engine
  sends to Hyperliquid is posted exactly once and in order, and nothing else is posted.  What is
  posted is the JSON of that very order for the entry of its coin in the client's asset table, with
  the time read while it was sent as nonce, the signature that the client's key gives for the
  hash of that order, entry, nonce and vault address, and the vault address; a reducing order has the
  price of the book asked for just before.  The coin is the configured one, the run leaves the client's
  key, vault address and transport as they are, and an asset table that is not empty too.\<close>

theorem every_order_posted_once:
  assumes "engine_new c = Inr e" and "\<not> dry_run c" and "run_engine E evs e w = (e', w')" and "trace w = []"
    and "served (serve_hl EH) (trace w') hw = Some hw'"
  shows "\<exists>bodies. actions_sent hw' = actions_sent hw @ bodies
      \<and> list_all2 (posted_within EH hw hw') (filter is_hl_order (trace w')) bodies
    \<and> (\<forall>ev \<in> set (trace w'). as_configured c ev) \<and> kept hw hw'"
  using engine_trace_configured [OF assms(1,3,4)] served_kept [OF assms(5)]
    live_trace_posts [OF engine_trace_configured [OF assms(1,3,4)] assms(2,5)] by blast

lemma lighter_engine_orders_posted_once:
  assumes "lighter_engine_new c = Inr e" and "\<not> dry_run c" and "run_lighter_engine E evs e w = (e', w')" and "trace w = []"
    and "served (serve_hl EH) (trace w') hw = Some hw'"
  shows "\<exists>bodies. actions_sent hw' = actions_sent hw @ bodies
      \<and> list_all2 (posted_within EH hw hw') (filter is_hl_order (trace w')) bodies"
  by (rule live_trace_posts [OF lighter_trace_configured [OF assms(1,3,4)] assms(2,5)])


section \<open>Concrete runs\<close>

lemma served_orders:
  "served (serve_hl EH) tr hw = served (serve_hl EH) (orders_of tr) hw"
  "served (serve_lighter EL) tr lw = served (serve_lighter EL) (orders_of tr) lw"
proof -
  have "serve_hl EH ev w = Some w" if "\<not> is_order ev" for ev w using that by (cases ev) simp_all
  then show "served (serve_hl EH) tr hw = served (serve_hl EH) (orders_of tr) hw"
    by (induction tr arbitrary: hw) (auto split: option.split)
  have "serve_lighter EL ev w = Some w" if "\<not> is_order ev" for ev w using that by (cases ev) simp_all
  then show "served (serve_lighter EL) tr lw = served (serve_lighter EL) (orders_of tr) lw"
    by (induction tr arbitrary: lw) (auto split: option.split)
qed

text \<open>An environment whose limit orders are answered by the native client in a given state.\<close>

definition native_ack :: "hl_env \<Rightarrow> hl_world \<Rightarrow> hl_limit_order_request \<Rightarrow> hl_limit_order_ack" where
  "native_ack EH hw r = (case fst (hl_native_place_limit EH r hw) of
     Inr ack \<Rightarrow> ack
   | Inl what \<Rightarrow> \<lparr>hla_ok = False, hla_message = what, hla_oid = [], hla_sign_latency_ms = 0, hla_ws_send_call_latency_ms = 0,
       hla_ws_send_to_response_rx_latency_ms = 0, hla_response_rx_to_unblock_latency_ms = 0\<rparr>)"

definition demo_hl_world :: hl_world where
  "demo_hl_world = \<lparr>hw_native = demo_hl_native, hw_calls = []\<rparr>"

definition demo_native_env :: env where
  "demo_native_env = demo_env\<lparr>env_hl_limit := (\<lambda>_. native_ack (demo_hl_env []) demo_hl_world)\<rparr>"

definition demo_config :: "bool \<Rightarrow> engine_config" where
  "demo_config dry = default_engine_config\<lparr>dry_run := dry\<rparr>"

lemma demo_config_engine:
  obtains e where "engine_new (demo_config dry) = Inr e" "strategy e = demo_hedger" "en_config e = demo_config dry"
    "deferred_hl_action e = None" "last_hl_place_ms e = 0" "hl_position_base e = 0"
proof -
  have "hl_hedger_new (ec_strategy (demo_config dry)) = Inr demo_hedger"
    using demo_new by (simp add: demo_config_def default_engine_config_def)
  then have "\<exists>e. engine_new (demo_config dry) = Inr e \<and> strategy e = demo_hedger \<and> en_config e = demo_config dry
    \<and> deferred_hl_action e = None \<and> last_hl_place_ms e = 0 \<and> hl_position_base e = 0"
    by (simp add: engine_new_def)
  with that show ?thesis by blast
qed

lemma demo_native_places:
  assumes "hlr_coin r = ''HYPE''" and "hlr_dry_run r = dry"
  obtains hw' where "hl_native_place_limit (demo_hl_env []) r demo_hl_world = (Inr (native_ack (demo_hl_env []) demo_hl_world r), hw')"
proof (cases dry)
  case True
  with assms(2) show ?thesis by (intro that) (simp add: native_ack_def hl_native_place_limit_def returns_def)
next
  case False
  obtain h where "order_action_hash (demo_hl_env []) demo_hl_native r \<lparr>me_asset = 159, me_sz_decimals = 2\<rparr>
      False False (he_epoch_ms (demo_hl_env []) [HlClock]) = Inr h"
    using demo_hash by blast
  with False assms have "\<exists>ack hw'. hl_native_place_limit (demo_hl_env []) r demo_hl_world = (Inr ack, hw')"
    by (simp add: hl_native_place_limit_def send_order_def meta_for_coin_def ensure_meta_def post_exchange_action_def
        hl_method_defs demo_hl_env_simps demo_signs demo_hl_world_def)
  then obtain ack hw' where "hl_native_place_limit (demo_hl_env []) r demo_hl_world = (Inr ack, hw')" by blast
  then show ?thesis by (intro that [of hw']) (simp add: native_ack_def)
qed

lemma demo_native_run:
  obtains e e' w' r hw' where "engine_new (demo_config dry) = Inr e"
    "run_engine demo_native_env [MarketData 1000] e demo_world = (e', w')"
    "orders_of (trace w') = [HlLimit r (native_ack (demo_hl_env []) demo_hl_world r)]"
    "served (serve_hl (demo_hl_env [])) (trace w') demo_hl_world = Some hw'"
    "\<forall>EL lw. served (serve_lighter EL) (trace w') lw = Some lw"
proof -
  obtain e where e: "engine_new (demo_config dry) = Inr e" "strategy e = demo_hedger"
    "en_config e = default_engine_config\<lparr>dry_run := dry\<rparr>" "deferred_hl_action e = None" "last_hl_place_ms e = 0"
    "hl_position_base e = 0"
    by (rule demo_config_engine [of dry]) (simp add: demo_config_def)
  have env: "env_hl_bbo demo_native_env = env_hl_bbo demo_env" "env_lighter_bbo demo_native_env = env_lighter_bbo demo_env"
    "env_steady_ms demo_native_env = env_steady_ms demo_env" by (simp_all add: demo_native_env_def)
  have lim: "\<not> position_limit_reached e (mid (hl demo_wide))"
    using e(3,6) by (simp add: position_limit_reached_def default_engine_config_def default_strategy_config_def
        demo_wide_def mid_def double_eval)
  obtain logs e' w' r ack tr where run: "on_market_data demo_native_env 1000 e demo_world = (logs, e', w')"
    and new: "new_orders demo_world w' = [HlLimit r ack]" and ack: "ack = env_hl_limit demo_native_env tr r"
    using demo_place_run_with [OF env e(2-5)] lim by blast
  have orders: "orders_of (trace w') = [HlLimit r (native_ack (demo_hl_env []) demo_hl_world r)]"
    using new ack by (simp add: new_orders_def demo_world_def demo_native_env_def)
  have run': "run_engine demo_native_env [MarketData 1000] e demo_world = (e', w')" using run by simp
  have "\<forall>ev \<in> set (trace w'). as_configured (demo_config dry) ev"
    by (rule engine_trace_configured [OF e(1) run']) (simp add: demo_world_def)
  moreover have "HlLimit r (native_ack (demo_hl_env []) demo_hl_world r) \<in> set (orders_of (trace w'))"
    unfolding orders by simp
  ultimately have r: "hlr_coin r = ''HYPE''" "hlr_dry_run r = dry"
    by (auto simp: orders_of_def demo_config_def default_engine_config_def)
  obtain hw' where "hl_native_place_limit (demo_hl_env []) r demo_hl_world
      = (Inr (native_ack (demo_hl_env []) demo_hl_world r), hw')" by (rule demo_native_places [OF r])
  then have "served (serve_hl (demo_hl_env [])) (trace w') demo_hl_world = Some hw'"
    by (simp add: served_orders(1) orders answered_def)
  moreover have "\<forall>EL lw. served (serve_lighter EL) (trace w') lw = Some lw" by (simp add: served_orders(2) orders)
  ultimately show ?thesis by (rule that [OF e(1) run' orders])
qed

theorem dry_run_sends_nothing_witness:
  "\<exists>e e' w' hw'. engine_new (demo_config True) = Inr e \<and> run_engine demo_native_env [MarketData 1000] e demo_world = (e', w')
     \<and> length (orders_of (trace w')) = 1 \<and> served (serve_hl (demo_hl_env [])) (trace w') demo_hl_world = Some hw'
     \<and> actions_sent hw' = []"
proof -
  obtain e e' w' r hw' where run: "engine_new (demo_config True) = Inr e"
    "run_engine demo_native_env [MarketData 1000] e demo_world = (e', w')"
    "orders_of (trace w') = [HlLimit r (native_ack (demo_hl_env []) demo_hl_world r)]"
    "served (serve_hl (demo_hl_env [])) (trace w') demo_hl_world = Some hw'"
    "\<forall>EL lw. served (serve_lighter EL) (trace w') lw = Some lw"
    by (rule demo_native_run [of True])
  have "dry_run (demo_config True)" "trace demo_world = []" "actions_sent demo_hl_world = []"
    by (simp_all add: demo_config_def demo_world_def demo_hl_world_def actions_sent_def map_filter_simps)
  with dry_run_sends_nothing [OF run(1) _ run(2) _ run(4) run(5) [rule_format]] run show ?thesis by auto
qed

theorem every_order_posted_once_witness:
  "\<exists>e e' w' hw'. engine_new (demo_config False) = Inr e \<and> run_engine demo_native_env [MarketData 1000] e demo_world = (e', w')
     \<and> served (serve_hl (demo_hl_env [])) (trace w') demo_hl_world = Some hw' \<and> length (actions_sent hw') = 1"
proof -
  obtain e e' w' r hw' where run: "engine_new (demo_config False) = Inr e"
    "run_engine demo_native_env [MarketData 1000] e demo_world = (e', w')"
    "orders_of (trace w') = [HlLimit r (native_ack (demo_hl_env []) demo_hl_world r)]"
    "served (serve_hl (demo_hl_env [])) (trace w') demo_hl_world = Some hw'"
    by (rule demo_native_run [of False])
  have "\<not> dry_run (demo_config False)" "trace demo_world = []" "actions_sent demo_hl_world = []"
    by (simp_all add: demo_config_def demo_world_def demo_hl_world_def actions_sent_def map_filter_simps)
  then obtain bodies where b: "actions_sent hw' = bodies" "list_all2 (posted_within (demo_hl_env []) demo_hl_world hw') (filter is_hl_order (trace w')) bodies"
    using every_order_posted_once [OF run(1) _ run(2) _ run(4)] by auto
  have "filter is_hl_order (trace w') = filter is_hl_order (orders_of (trace w'))"
    unfolding orders_of_def filter_filter by (rule filter_cong) (auto elim: is_hl_order.elims)
  with run(3) b have "length (actions_sent hw') = 1" by (auto dest: list_all2_lengthD)
  with run show ?thesis by blast
qed

end
