(* ===== verification/Public_Exchange.thy ===== *)
theory Public_Exchange
  imports Exchange Native_Hl Native_Lighter
begin

text \<open>
  \<open>src/public_exchange.cpp\<close>: the exchange classes that only read quotes over HTTP; every order
  throws.  An answer of libcurl (\<open>http.cpp\<close>) is a parameter: a status with a body, or the
  message of the exception.
\<close>

section \<open>Quotes\<close>

record http_response =
  hr_status_code :: int
  hr_body :: string

definition no_field :: string where
  "no_field = ''failed to parse expected field from response''"

definition public_first_match :: "string option \<Rightarrow> string + double" where
  "public_first_match m = (case m of None \<Rightarrow> Inl no_field | Some t \<Rightarrow> stod t)"

definition public_quote :: "string option \<Rightarrow> string option \<Rightarrow> string + bbo" where
  "public_quote b a =
     then_try (public_first_match b) (\<lambda>b.
     then_try (public_first_match a) (\<lambda>a. Inr \<lparr>bid = b, ask = a, quote_age_ms = 0\<rparr>))"

definition l2_book_payload :: "string \<Rightarrow> string" where
  "l2_book_payload coin = ''{\"type\":\"l2Book\",\"coin\":\"'' @ coin @ ''\",\"nSigFigs\":5}''"

definition px_after :: "string \<Rightarrow> string \<Rightarrow> string option" where
  "px_after start = regex_search (lit_class (start @ ''\"px\":\"'') (\<lambda>c. c \<noteq> CHR 0x22) ''\"'')"

text \<open>\<open>post url payload\<close> is what \<open>http_post\<close> answers.\<close>

definition public_hl_get_bbo ::
  "(string \<Rightarrow> string \<Rightarrow> string + http_response) \<Rightarrow> string \<Rightarrow> string \<Rightarrow> string + bbo" where
  "public_hl_get_bbo post api_url coin =
     then_try (post (api_url @ ''/info'') (l2_book_payload coin)) (\<lambda>response.
       if hr_status_code response \<noteq> 200
       then Inl (''HL orderbook request failed with status '' @ int_string (hr_status_code response))
       else public_quote (px_after ''\"levels\":[[{'' (hr_body response)) (px_after ''],[{'' (hr_body response)))"

definition side_price :: "string \<Rightarrow> string \<Rightarrow> string option" where
  "side_price side = regex_search
     (lit_then (''\"'' @ side @ ''\":[{'')
       (star_then (\<lambda>c. c \<noteq> CHR ''}'') (lit_class ''\"price\":\"'' (\<lambda>c. c \<noteq> CHR 0x22) ''\"'')))"

definition public_lighter_get_bbo :: "(string \<Rightarrow> string + http_response) \<Rightarrow> string \<Rightarrow> i64 \<Rightarrow> string + bbo" where
  "public_lighter_get_bbo get api_url market_id =
     then_try (get (api_url @ ''/api/v1/orderBookOrders?market_id='' @ int_string market_id @ ''&limit=5'')) (\<lambda>response.
       if hr_status_code response \<noteq> 200
       then Inl (''Lighter orderbook request failed with status '' @ int_string (hr_status_code response))
       else public_quote (side_price ''bids'' (hr_body response)) (side_price ''asks'' (hr_body response)))"

section \<open>Orders\<close>

definition public_hl_place_limit :: "hl_limit_order_request \<Rightarrow> string + hl_limit_order_ack" where
  "public_hl_place_limit r = Inl ''NativeHyperliquidExchange trading is not implemented yet''"

definition public_hl_place_ioc :: "hl_ioc_order_request \<Rightarrow> string + hl_ioc_order_ack" where
  "public_hl_place_ioc r = Inl ''NativeHyperliquidExchange IOC trading is not implemented yet''"

definition public_hl_cancel :: "string \<Rightarrow> string \<Rightarrow> bool \<Rightarrow> string + hl_cancel_ack" where
  "public_hl_cancel coin oid dry = Inl ''NativeHyperliquidExchange cancel is not implemented yet''"

definition public_hl_reduce :: "string \<Rightarrow> bool \<Rightarrow> double \<Rightarrow> bool \<Rightarrow> string + hl_reduce_ack" where
  "public_hl_reduce coin is_buy sz dry = Inl ''NativeHyperliquidExchange reduce is not implemented yet''"

definition public_lighter_place_ioc :: "lighter_ioc_request \<Rightarrow> string + lighter_ioc_ack" where
  "public_lighter_place_ioc r = Inl ''NativeLighterExchange trading is not implemented yet''"

definition public_lighter_place_limit :: "lighter_limit_order_request \<Rightarrow> string + lighter_limit_order_ack" where
  "public_lighter_place_limit r = Inl ''NativeLighterExchange limit trading is not implemented yet''"

definition public_lighter_cancel :: "i64 \<Rightarrow> bool \<Rightarrow> string + lighter_cancel_ack" where
  "public_lighter_cancel order_index dry = Inl ''NativeLighterExchange cancel is not implemented yet''"

section \<open>The order book of the documentation\<close>

text \<open>A level, with the texts of its price, size and number of orders.\<close>

fun level_text :: "string \<times> string \<times> string \<Rightarrow> string" where
  "level_text (px, sz, n) = ''{\"px\":\"'' @ px @ ''\",\"sz\":\"'' @ sz @ ''\",\"n\":'' @ n @ ''}''"

fun levels_text :: "(string \<times> string \<times> string) list \<Rightarrow> string" where
  "levels_text [] = []"
| "levels_text [l] = level_text l"
| "levels_text (l # ls) = level_text l @ '','' @ levels_text ls"

definition book_text :: "string \<Rightarrow> string \<Rightarrow> (string \<times> string \<times> string) list \<Rightarrow> (string \<times> string \<times> string) list \<Rightarrow> string" where
  "book_text coin time bids asks = ''{\"coin\":\"'' @ coin @ ''\",\"time\":'' @ time @ '',\"levels\":[[''
     @ levels_text bids @ ''],['' @ levels_text asks @ '']]}''"

definition plain :: "string \<Rightarrow> bool" where
  "plain t \<longleftrightarrow> CHR 0x22 \<notin> set t \<and> CHR '']'' \<notin> set t"

fun level_plain :: "string \<times> string \<times> string \<Rightarrow> bool" where
  "level_plain (px, sz, n) \<longleftrightarrow> plain px \<and> plain sz \<and> plain n"

text \<open>A search for a literal passes over text without its first character.\<close>

lemma regex_skip:
  "c \<notin> set x \<Longrightarrow> regex_search (lit_class (c # lit) ok close) (x @ s) = regex_search (lit_class (c # lit) ok close) s"
  by (induction x) (auto simp: lit_class_def)

lemma regex_here: "m s = Some v \<Longrightarrow> regex_search m s = Some v"
  by (cases s) auto

lemma level_no_bracket: "level_plain l \<Longrightarrow> CHR '']'' \<notin> set (level_text l)"
  by (cases l) (auto simp: plain_def)

lemma levels_no_bracket: "\<forall>l \<in> set ls. level_plain l \<Longrightarrow> CHR '']'' \<notin> set (levels_text ls)"
  by (induction ls rule: levels_text.induct) (auto simp: level_no_bracket)

lemma levels_text_Cons: "\<exists>rest. levels_text ((px, sz, n) # ls) = ''{\"px\":\"'' @ px @ CHR 0x22 # rest"
  by (cases ls) auto

lemma quoted_value:
  "CHR 0x22 \<notin> set v \<Longrightarrow> v \<noteq> [] \<Longrightarrow>
     lit_class lit (\<lambda>c. c \<noteq> CHR 0x22) ''\"'' (lit @ v @ CHR 0x22 # rest) = Some v"
proof -
  assume v: "CHR 0x22 \<notin> set v" "v \<noteq> []"
  from v(1) have "takeWhile (\<lambda>c. c \<noteq> CHR 0x22) (v @ CHR 0x22 # rest) = v"
    "dropWhile (\<lambda>c. c \<noteq> CHR 0x22) (v @ CHR 0x22 # rest) = CHR 0x22 # rest"
    by (induction v) auto
  with v show ?thesis by (simp add: lit_class_def Let_def)
qed

lemma regex_step:
  "\<not> prefix lit (c # s) \<Longrightarrow> regex_search (lit_class lit ok close) (c # s) = regex_search (lit_class lit ok close) s"
  by (simp add: lit_class_def)

text \<open>A quoted text that is not followed by a colon is no key.\<close>

lemma not_key:
  "CHR 0x22 \<notin> set x \<Longrightarrow> CHR 0x22 \<notin> set v \<Longrightarrow> c \<noteq> d \<Longrightarrow> \<not> prefix (x @ CHR 0x22 # c # y) (v @ CHR 0x22 # d # z)"
proof (induction x arbitrary: v)
  case (Cons a x)
  then show ?case by (cases v) auto
qed (auto simp: append_eq_Cons_conv prefix_def Cons_eq_append_conv)

lemma asks_found:
  assumes "CHR '']'' \<notin> set bids" and "CHR 0x22 \<notin> set a" and "a \<noteq> []"
  shows "px_after ''],[{'' (bids @ ''],[{\"px\":\"'' @ a @ CHR 0x22 # rest) = Some a"
proof -
  let ?lit = "''],[{\"px\":\"''" and ?m = "\<lambda>lit. lit_class lit (\<lambda>c. c \<noteq> CHR 0x22) ''\"''"
  have "regex_search (?m ?lit) (bids @ ?lit @ a @ CHR 0x22 # rest) = regex_search (?m ?lit) (?lit @ a @ CHR 0x22 # rest)"
    by (rule regex_skip [OF assms(1)])
  also have "\<dots> = Some a" by (rule regex_here, rule quoted_value [OF assms(2,3)])
  finally show ?thesis by (simp add: px_after_def)
qed

lemma bids_found:
  assumes "plain coin" and "plain time" and "CHR 0x22 \<notin> set b" and "b \<noteq> []"
  shows "px_after ''\"levels\":[[{'' (''{\"coin\":\"'' @ coin @ ''\",\"time\":'' @ time @ '',\"levels\":[[{\"px\":\"'' @ b @ CHR 0x22 # rest) = Some b"
proof -
  let ?lit = "''\"levels\":[[{\"px\":\"''"
  let ?m = "lit_class ?lit (\<lambda>c. c \<noteq> CHR 0x22) ''\"''"
  have skip: "regex_search ?m (x @ s) = regex_search ?m s" if "plain x" for x s
    using that by (intro regex_skip) (simp add: plain_def)
  have key: "\<not> prefix ?lit (CHR 0x22 # coin @ CHR 0x22 # CHR '','' # s)" for s
    using not_key [of "''levels''" coin "CHR '':''" "CHR '',''" "''[[{\"px\":\"''" s] assms(1) by (simp add: plain_def)
  have "regex_search ?m (''{\"coin\":\"'' @ coin @ ''\",\"time\":'' @ time @ '','' @ ?lit @ b @ CHR 0x22 # rest)
      = regex_search ?m (CHR 0x22 # coin @ CHR 0x22 # CHR '','' # ''\"time\":'' @ time @ '','' @ ?lit @ b @ CHR 0x22 # rest)"
    by (simp add: regex_step del: regex_search.simps)
  also have "\<dots> = regex_search ?m (coin @ CHR 0x22 # CHR '','' # ''\"time\":'' @ time @ '','' @ ?lit @ b @ CHR 0x22 # rest)"
    by (rule regex_step [OF key])
  also have "\<dots> = regex_search ?m (CHR 0x22 # CHR '','' # ''\"time\":'' @ time @ '','' @ ?lit @ b @ CHR 0x22 # rest)"
    by (rule skip [OF assms(1)])
  also have "\<dots> = regex_search ?m (time @ '','' @ ?lit @ b @ CHR 0x22 # rest)"
    by (simp add: regex_step del: regex_search.simps)
  also have "\<dots> = regex_search ?m ('','' @ ?lit @ b @ CHR 0x22 # rest)" by (rule skip [OF assms(2)])
  also have "\<dots> = regex_search ?m (?lit @ b @ CHR 0x22 # rest)" by (simp add: regex_step del: regex_search.simps)
  also have "\<dots> = Some b" by (rule regex_here, rule quoted_value [OF assms(3,4)])
  finally show ?thesis by (simp add: px_after_def)
qed


text \<open>From an order book of the documented form, with any number of levels on each side, both
  clients that read Hyperliquid's quote over HTTP take the price of the first bid and of the first
  ask, whatever the sizes, the counts and the deeper levels are.\<close>

theorem best_quote_read_back:
  assumes "plain coin" and "plain time"
    and "\<forall>l \<in> set ((b, sz, n) # bids). level_plain l" and "\<forall>l \<in> set ((a, sz', n') # asks). level_plain l"
    and "b \<noteq> []" and "a \<noteq> []" and "stod b = Inr x" and "stod a = Inr y"
    and "body = book_text coin time ((b, sz, n) # bids) ((a, sz', n') # asks)"
    and "\<And>url payload. post url payload = Inr \<lparr>hr_status_code = 200, hr_body = body\<rparr>" and "\<And>cs. he_http E cs = Inr body"
  shows "public_hl_get_bbo post url coin = Inr \<lparr>bid = x, ask = y, quote_age_ms = 0\<rparr>
    \<and> fst (hl_native_get_bbo E coin w) = Inr \<lparr>bid = x, ask = y, quote_age_ms = 0\<rparr>"
proof -
  obtain brest where brest: "levels_text ((b, sz, n) # bids) = ''{\"px\":\"'' @ b @ CHR 0x22 # brest"
    using levels_text_Cons by blast
  obtain arest where arest: "levels_text ((a, sz', n') # asks) = ''{\"px\":\"'' @ a @ CHR 0x22 # arest"
    using levels_text_Cons by blast
  have quotes: "CHR 0x22 \<notin> set b" "CHR 0x22 \<notin> set a" using assms(3,4) by (auto simp: plain_def)
  have "body = ''{\"coin\":\"'' @ coin @ ''\",\"time\":'' @ time @ '',\"levels\":[[{\"px\":\"'' @ b @ CHR 0x22
      # (brest @ ''],['' @ levels_text ((a, sz', n') # asks) @ '']]}'')"
    unfolding assms(9) book_text_def brest by simp
  then have bids: "px_after ''\"levels\":[[{'' body = Some b"
    using bids_found [OF assms(1,2) quotes(1) assms(5)] by metis
  let ?head = "''{\"coin\":\"'' @ coin @ ''\",\"time\":'' @ time @ '',\"levels\":[['' @ levels_text ((b, sz, n) # bids)"
  have "CHR '']'' \<notin> set ?head" using assms(1,2) levels_no_bracket [OF assms(3)] by (auto simp: plain_def)
  moreover have "body = ?head @ ''],[{\"px\":\"'' @ a @ CHR 0x22 # (arest @ '']]}'')"
    unfolding assms(9) book_text_def arest by simp
  ultimately have asks: "px_after ''],[{'' body = Some a"
    using asks_found [OF _ quotes(2) assms(6)] by metis
  from bids asks assms(7,8,10,11) show ?thesis
    by (simp add: public_hl_get_bbo_def public_quote_def public_first_match_def then_try_def px_after_def
        hl_native_get_bbo_def first_match_as_double_def after_def hl_native_def hl_http_post_def hl_calls_def
        or_throw_def returns_def Let_def)
qed

text \<open>An answer with another status throws, as every order does.\<close>

lemma public_refuses:
  "post (api_url @ ''/info'') (l2_book_payload coin) = Inr r \<Longrightarrow> hr_status_code r \<noteq> 200 \<Longrightarrow>
     \<exists>what. public_hl_get_bbo post api_url coin = Inl what"
  by (simp add: public_hl_get_bbo_def then_try_def)

definition demo_book_env :: "string \<Rightarrow> hl_env" where
  "demo_book_env body = \<lparr>he_http = (\<lambda>_. Inr body), he_action = (\<lambda>_. \<lparr>ar_body = [], ar_send_call_latency_ms = 0,
     ar_send_to_response_rx_latency_ms = 0, ar_response_rx_to_unblock_latency_ms = 0\<rparr>),
     he_epoch_ms = (\<lambda>_. 0), he_perf_ns = (\<lambda>_. 0), he_log10 = (\<lambda>_. 1), he_sign = (\<lambda>_ _. None)\<rparr>"

theorem best_quote_read_back_witness:
  "public_hl_get_bbo (\<lambda>_ _. Inr \<lparr>hr_status_code = 200,
      hr_body = book_text ''HYPE'' ''17'' [(''21.5'', ''3'', ''1''), (''21.25'', ''2'', ''1'')] [(''22'', ''1'', ''1'')]\<rparr>) [] ''HYPE''
   = Inr \<lparr>bid = Fin (43 / 2), ask = Fin 22, quote_age_ms = 0\<rparr>"
proof -
  have "stod ''21.5'' = Inr (Fin (43 / 2))" "stod ''22'' = Inr (Fin 22)" by (simp_all add: stod_eval)
  moreover have "\<And>cs. he_http (demo_book_env body) cs = Inr body" for body by (simp add: demo_book_env_def)
  ultimately show ?thesis
    by (intro conjunct1 [OF best_quote_read_back [where ?E = "demo_book_env _"]]) (auto simp: plain_def)
qed

end
