(* ===== verification/Event_Loop.thy ===== *)
theory Event_Loop
  imports Systems Main_Loop
begin

text \<open>
  How the threads of the feeds wake the strategy loop of \<open>src/main_live.cpp\<close>: a callback pushes its
  event into the queue of its kind, then \<open>publish_event\<close> counts it in \<open>g_event_seq\<close> and notifies
  \<open>g_cv\<close>; the loop waits until the counter differs from the one it saw last, with a deadline, and
  drains the queues of its policy one after the other.  \<open>publish_event\<close> does not take \<open>g_cv_mu\<close>, so
  each of its two lines is a step of its own, and the loop's test of the counter and its falling
  asleep are two steps.  The steps of the loop itself are apart from those around it (the
  callbacks, the clock, spurious wake-ups), so that a statement can be about every run in which
  the loop gets to take so many steps.
\<close>

section \<open>The threads\<close>

datatype event_queue = FillQueue | LighterFillQueue | TradeQueue

definition drained_by :: "execution_policy \<Rightarrow> event_queue list" where
  "drained_by policy = (case policy of
     HlMakerLtTaker \<Rightarrow> [FillQueue, TradeQueue]
   | LtMakerHlTaker \<Rightarrow> [LighterFillQueue])"

datatype publisher =
    Away
  | Queued                 \<comment> \<open>has pushed, has not counted\<close>
  | Counted                \<comment> \<open>has counted, has not notified\<close>

datatype waiter =
    Looking                \<comment> \<open>in \<open>wait_until\<close>, about to test the counter\<close>
  | Dozing                 \<comment> \<open>has found nothing new, is not yet asleep\<close>
  | Asleep
  | Woken                  \<comment> \<open>has left \<open>wait_until\<close>\<close>
  | Draining "event_queue list"    \<comment> \<open>has read the counter, these queues are still to be drained\<close>

record 'e event_loop =
  el_event_seq :: nat
  el_last_seen :: nat
  el_queue :: "event_queue \<Rightarrow> 'e list"
  el_publishers :: "nat \<Rightarrow> publisher"
  el_waiter :: waiter
  el_overdue :: bool                            \<comment> \<open>\<open>wake_deadline\<close> of this turn has passed\<close>
  el_pushed :: "event_queue \<Rightarrow> 'e list"         \<comment> \<open>every event so far, oldest first\<close>
  el_handled :: "event_queue \<Rightarrow> 'e list"

definition loop_initial :: "'e event_loop \<Rightarrow> bool" where
  "loop_initial s \<longleftrightarrow> s = \<lparr>el_event_seq = 0, el_last_seen = 0, el_queue = (\<lambda>_. []), el_publishers = (\<lambda>_. Away),
     el_waiter = Looking, el_overdue = False, el_pushed = (\<lambda>_. []), el_handled = (\<lambda>_. [])\<rparr>"

text \<open>A callback; that of a quote has nothing to push.\<close>

definition push_event :: "nat \<Rightarrow> (event_queue \<times> 'e) option \<Rightarrow> 'e event_loop \<Rightarrow> 'e event_loop" where
  "push_event p ev s =
     (let s = (case ev of
          None \<Rightarrow> s
        | Some (q, e) \<Rightarrow> s\<lparr>el_queue := (el_queue s)(q := el_queue s q @ [e]),
                          el_pushed := (el_pushed s)(q := el_pushed s q @ [e])\<rparr>)
      in s\<lparr>el_publishers := (el_publishers s)(p := Queued)\<rparr>)"

definition publish_count :: "nat \<Rightarrow> 'e event_loop \<Rightarrow> 'e event_loop" where
  "publish_count p s = s\<lparr>el_event_seq := el_event_seq s + 1, el_publishers := (el_publishers s)(p := Counted)\<rparr>"

text \<open>Waking inside \<open>wait_until\<close>: after the deadline it returns, before it the predicate is tested
  again.\<close>

definition wake :: "'e event_loop \<Rightarrow> 'e event_loop" where
  "wake s = s\<lparr>el_waiter := (if el_waiter s = Asleep then (if el_overdue s then Woken else Looking) else el_waiter s)\<rparr>"

definition publish_notify :: "nat \<Rightarrow> 'e event_loop \<Rightarrow> 'e event_loop" where
  "publish_notify p s = (wake s)\<lparr>el_publishers := (el_publishers s)(p := Away)\<rparr>"

definition test_counter :: "'e event_loop \<Rightarrow> 'e event_loop" where
  "test_counter s = s\<lparr>el_waiter := (if el_event_seq s \<noteq> el_last_seen s then Woken else Dozing)\<rparr>"

definition fall_asleep :: "'e event_loop \<Rightarrow> 'e event_loop" where
  "fall_asleep s = s\<lparr>el_waiter := Asleep\<rparr>"

definition deadline_passes :: "'e event_loop \<Rightarrow> 'e event_loop" where
  "deadline_passes s = s\<lparr>el_overdue := True\<rparr>"

definition read_counter :: "execution_policy \<Rightarrow> 'e event_loop \<Rightarrow> 'e event_loop" where
  "read_counter policy s = s\<lparr>el_last_seen := el_event_seq s, el_waiter := Draining (drained_by policy)\<rparr>"

definition drain_queue :: "event_queue \<Rightarrow> event_queue list \<Rightarrow> 'e event_loop \<Rightarrow> 'e event_loop" where
  "drain_queue q rest s = s\<lparr>el_handled := (el_handled s)(q := el_handled s q @ el_queue s q),
     el_queue := (el_queue s)(q := []), el_waiter := Draining rest\<rparr>"

text \<open>The next turn computes a deadline of its own.\<close>

definition turn_ends :: "'e event_loop \<Rightarrow> 'e event_loop" where
  "turn_ends s = s\<lparr>el_waiter := Looking, el_overdue := False\<rparr>"

inductive loop_turn :: "execution_policy \<Rightarrow> 'e event_loop \<Rightarrow> 'e event_loop \<Rightarrow> bool" for policy where
  tests: "el_waiter s = Looking \<Longrightarrow> loop_turn policy s (test_counter s)"
| sleeps: "el_waiter s = Dozing \<Longrightarrow> loop_turn policy s (fall_asleep s)"
| times_out: "el_waiter s = Asleep \<Longrightarrow> el_overdue s \<Longrightarrow> loop_turn policy s (wake s)"
| reads: "el_waiter s = Woken \<Longrightarrow> loop_turn policy s (read_counter policy s)"
| drains: "el_waiter s = Draining (q # rest) \<Longrightarrow> loop_turn policy s (drain_queue q rest s)"
| ends: "el_waiter s = Draining [] \<Longrightarrow> loop_turn policy s (turn_ends s)"

text \<open>A condition variable may also wake without a notification.\<close>

inductive around_loop :: "'e event_loop \<Rightarrow> 'e event_loop \<Rightarrow> bool" where
  pushes: "el_publishers s p = Away \<Longrightarrow> around_loop s (push_event p ev s)"
| counts: "el_publishers s p = Queued \<Longrightarrow> around_loop s (publish_count p s)"
| notifies: "el_publishers s p = Counted \<Longrightarrow> around_loop s (publish_notify p s)"
| spurious: "el_waiter s = Asleep \<Longrightarrow> around_loop s (wake s)"
| clock: "around_loop s (deadline_passes s)"

definition loop_step :: "execution_policy \<Rightarrow> 'e event_loop \<Rightarrow> 'e event_loop \<Rightarrow> bool" where
  "loop_step policy s t \<longleftrightarrow> loop_turn policy s t \<or> around_loop s t"

text \<open>A run in which the loop takes \<open>n\<close> steps of its own, with anything else in between.\<close>

inductive loop_runs :: "execution_policy \<Rightarrow> nat \<Rightarrow> 'e event_loop \<Rightarrow> 'e event_loop \<Rightarrow> bool" for policy where
  here: "loop_runs policy 0 s s"
| own: "loop_turn policy s u \<Longrightarrow> loop_runs policy n u t \<Longrightarrow> loop_runs policy (Suc n) s t"
| other: "around_loop s u \<Longrightarrow> loop_runs policy n u t \<Longrightarrow> loop_runs policy n s t"

inductive_cases loop_turnE: "loop_turn policy s t"
inductive_cases around_loopE: "around_loop s t"

lemmas loop_defs = push_event_def publish_count_def wake_def publish_notify_def test_counter_def fall_asleep_def
  deadline_passes_def read_counter_def drain_queue_def turn_ends_def Let_def

section \<open>No event is overlooked\<close>

definition still_drains :: "'e event_loop \<Rightarrow> event_queue \<Rightarrow> bool" where
  "still_drains s q \<longleftrightarrow> (\<exists>qs. el_waiter s = Draining qs \<and> q \<in> set qs)"

definition loop_inv :: "execution_policy \<Rightarrow> 'e event_loop \<Rightarrow> bool" where
  "loop_inv policy s \<longleftrightarrow> (\<forall>q. el_pushed s q = el_handled s q @ el_queue s q) \<and> el_last_seen s \<le> el_event_seq s
     \<and> (\<forall>qs. el_waiter s = Draining qs \<longrightarrow> set qs \<subseteq> set (drained_by policy) \<and> distinct qs)
     \<and> (\<forall>q \<in> set (drained_by policy). el_queue s q \<noteq> [] \<and> \<not> still_drains s q
          \<longrightarrow> (\<exists>p. el_publishers s p = Queued) \<or> el_last_seen s < el_event_seq s)"

lemma distinct_drained: "distinct (drained_by policy)"
  by (cases policy) (simp_all add: drained_by_def)

lemma loop_inv_turn:
  assumes inv: "loop_inv policy s" and "loop_turn policy s t"
  shows "loop_inv policy t"
  using assms(2)
proof cases
  case (drains q rest)
  then show ?thesis using inv by (auto simp: loop_inv_def loop_defs still_drains_def)
next
  case reads
  then show ?thesis using inv distinct_drained [of policy] by (auto simp: loop_inv_def loop_defs still_drains_def)
qed (use inv in \<open>auto simp: loop_inv_def loop_defs still_drains_def\<close>)

lemma loop_inv_around:
  assumes inv: "loop_inv policy s" and "around_loop s t"
  shows "loop_inv policy t"
  using assms(2)
proof cases
  case (pushes p ev)
  then show ?thesis using inv
    by (auto simp: loop_inv_def loop_defs still_drains_def split: option.splits)
next
  case (notifies p)
  then have "\<exists>q. el_publishers s q = Queued \<Longrightarrow> \<exists>q. q \<noteq> p \<and> el_publishers s q = Queued" by force
  with notifies inv show ?thesis by (auto simp: loop_inv_def loop_defs still_drains_def)
qed (use inv in \<open>auto simp: loop_inv_def loop_defs still_drains_def\<close>)

lemma loop_inv_step: "loop_inv policy s \<Longrightarrow> loop_step policy s t \<Longrightarrow> loop_inv policy t"
  unfolding loop_step_def using loop_inv_turn loop_inv_around by blast

interpretation event_loop: step_invariant loop_initial "loop_step policy" "loop_inv policy" for policy
  by unfold_locales (simp add: loop_initial_def loop_inv_def, erule (1) loop_inv_step)

text \<open>The own steps the loop has yet to take until it has drained a queue, when it is due to.\<close>

fun steps_to_drain :: "execution_policy \<Rightarrow> event_queue \<Rightarrow> waiter \<Rightarrow> nat" where
  "steps_to_drain policy q (Draining qs) = length (takeWhile (\<lambda>r. r \<noteq> q) qs) + 1"
| "steps_to_drain policy q Woken = length (takeWhile (\<lambda>r. r \<noteq> q) (drained_by policy)) + 2"
| "steps_to_drain policy q Asleep = length (takeWhile (\<lambda>r. r \<noteq> q) (drained_by policy)) + 3"
| "steps_to_drain policy q Dozing = length (takeWhile (\<lambda>r. r \<noteq> q) (drained_by policy)) + 4"
| "steps_to_drain policy q Looking = length (takeWhile (\<lambda>r. r \<noteq> q) (drained_by policy)) + 5"

definition due :: "'e event_loop \<Rightarrow> event_queue \<Rightarrow> bool" where
  "due s q \<longleftrightarrow> (case el_waiter s of Draining qs \<Rightarrow> q \<in> set qs | Woken \<Rightarrow> True
     | Looking \<Rightarrow> el_overdue s \<or> el_last_seen s < el_event_seq s | _ \<Rightarrow> el_overdue s)"

lemma own_step_drains:
  assumes "loop_turn policy s t" and "due s q" and "q \<in> set (drained_by policy)"
  shows "el_handled t q @ el_queue t q = el_handled s q @ el_queue s q
    \<and> (el_queue t q = [] \<or> due t q \<and> steps_to_drain policy q (el_waiter t) < steps_to_drain policy q (el_waiter s))"
  using assms by cases (auto simp: loop_defs due_def split: waiter.splits)

lemma around_step_keeps:
  assumes "around_loop s t"
  shows "\<exists>es. el_handled t q @ el_queue t q = el_handled s q @ el_queue s q @ es" and "el_handled t q = el_handled s q"
    and "due s q \<Longrightarrow> due t q \<and> steps_to_drain policy q (el_waiter t) \<le> steps_to_drain policy q (el_waiter s)"
  using assms by (cases; auto simp: loop_defs due_def split: waiter.splits option.splits)+

lemma handled_kept:
  assumes "loop_turn policy s t"
  shows "prefix (el_handled s q) (el_handled t q)"
  using assms by cases (auto simp: loop_defs)

lemma handled_kept_run: "loop_runs policy n s t \<Longrightarrow> prefix (el_handled s q) (el_handled t q)"
proof (induction rule: loop_runs.induct)
  case (own s u n t)
  show ?case by (rule prefix_order.trans [OF handled_kept [OF own.hyps(1)] own.IH])
next
  case (other s u n t)
  with around_step_keeps(2) [OF other.hyps(1), of q] show ?case by simp
qed simp

lemma drained_in_time:
  assumes "loop_runs policy n s t" and "due s q" and "q \<in> set (drained_by policy)"
    and "steps_to_drain policy q (el_waiter s) \<le> n"
  shows "prefix (el_handled s q @ el_queue s q) (el_handled t q)"
  using assms(1,2,4)
proof (induction rule: loop_runs.induct)
  case (here s)
  then show ?case by (cases "el_waiter s") simp_all
next
  case (own s u n t)
  note step = own_step_drains [OF own.hyps(1) own.prems(1) assms(3)]
  show ?case
  proof (cases "el_queue u q = []")
    case True
    with step handled_kept_run [OF own.hyps(2), of q] show ?thesis by simp
  next
    case False
    with step own.IH own.prems(2) show ?thesis by simp
  qed
next
  case (other s u n t)
  obtain es where "el_handled u q @ el_queue u q = el_handled s q @ el_queue s q @ es"
    using around_step_keeps(1) [OF other.hyps(1)] by blast
  moreover have "prefix (el_handled u q @ el_queue u q) (el_handled t q)"
    using around_step_keeps(3) [OF other.hyps(1) other.prems(1), of policy] other.prems(2) other.IH by simp
  ultimately show ?case by (simp add: append_prefixD)
qed

lemma steps_to_drain_bound:
  "q \<in> set (drained_by policy) \<Longrightarrow> \<forall>qs. w \<noteq> Draining qs \<Longrightarrow> steps_to_drain policy q w \<le> 6"
  by (cases w) (auto simp: drained_by_def split: execution_policy.splits)

lemma loop_can_step:
  assumes "el_waiter s \<noteq> Asleep \<or> el_overdue s"
  shows "\<exists>t. loop_turn policy s t"
proof (cases "el_waiter s")
  case (Draining qs)
  then show ?thesis by (cases qs) (blast intro: loop_turn.intros)+
qed (use assms in \<open>blast intro: loop_turn.intros\<close>)+

text \<open>C23: Whatever the interleaving of the callbacks' threads with the loop, the events of each queue
  are handled exactly once and in the order in which they were pushed, and none is overlooked.  While
  a queue that the policy drains holds an event and the loop is not draining it, either a publisher has
  yet to count or the counter already differs from what the loop has seen.  Once the deadline of the
  wait has passed, or when the loop is about to test a counter that has moved, everything pushed so far
  is handled in every run in which the loop takes six steps of its own, whatever the callbacks and
  spurious wake-ups do in between; and the loop can always take such a step then, however it sleeps.\<close>

theorem no_event_overlooked:
  assumes "loop_initial s0" and "(loop_step policy)\<^sup>*\<^sup>* s0 s" and "q \<in> set (drained_by policy)"
  shows "el_pushed s q = el_handled s q @ el_queue s q
    \<and> (el_queue s q \<noteq> [] \<and> \<not> still_drains s q \<longrightarrow>
         (\<exists>p. el_publishers s p = Queued) \<or> el_event_seq s \<noteq> el_last_seen s)
    \<and> (el_waiter s \<in> {Looking, Dozing, Asleep} \<and> el_overdue s \<or> el_waiter s = Looking \<and> el_event_seq s \<noteq> el_last_seen s \<longrightarrow>
         (\<forall>n t. 6 \<le> n \<and> loop_runs policy n s t \<longrightarrow> prefix (el_pushed s q) (el_handled t q)))
    \<and> (el_waiter s \<noteq> Asleep \<or> el_overdue s \<longrightarrow> (\<exists>t. loop_turn policy s t))"
proof -
  have inv: "loop_inv policy s" by (rule event_loop.inv_reachable [OF assms(1,2)])
  have "prefix (el_pushed s q) (el_handled t q)"
    if "el_waiter s \<in> {Looking, Dozing, Asleep} \<and> el_overdue s \<or> el_waiter s = Looking \<and> el_event_seq s \<noteq> el_last_seen s"
      and "6 \<le> n" and "loop_runs policy n s t" for n t
  proof -
    have "due s q" using that(1) inv by (auto simp: due_def loop_inv_def)
    moreover have "steps_to_drain policy q (el_waiter s) \<le> n"
      using that(1,2) steps_to_drain_bound [OF assms(3), of "el_waiter s"] by auto
    ultimately show ?thesis using drained_in_time [OF that(3) _ assms(3)] inv by (simp add: loop_inv_def)
  qed
  with inv assms(3) loop_can_step [of s policy] show ?thesis by (auto simp: loop_inv_def)
qed

text \<open>The events of a queue that the policy does not drain stay there: as the Lighter maker the program
  keeps every trade of the feed until it ends.\<close>

lemma undrained_queue_grows:
  assumes "loop_initial s0" and "(loop_step policy)\<^sup>*\<^sup>* s0 s" and "q \<notin> set (drained_by policy)"
  shows "el_queue s q = el_pushed s q"
proof -
  have "el_handled s q = [] \<and> loop_inv policy s"
    using assms(2)
  proof (induction rule: rtranclp_induct)
    case base
    show ?case using assms(1) event_loop.inv_initial [OF assms(1), of policy] by (simp add: loop_initial_def)
  next
    case (step s t)
    have inv: "loop_inv policy t" using event_loop.inv_step [OF _ step.hyps(2)] step.IH by simp
    show ?case
    proof (cases "around_loop s t")
      case True
      with inv step.IH around_step_keeps(2) [OF this, of q] show ?thesis by simp
    next
      case False
      with step.hyps(2) have "loop_turn policy s t" by (simp add: loop_step_def)
      then show ?thesis
      proof cases
        case (drains r rest)
        with step.IH assms(3) have "r \<noteq> q" by (auto simp: loop_inv_def)
        with drains inv step.IH show ?thesis by (simp add: loop_defs)
      qed (use inv step.IH in \<open>auto simp: loop_defs\<close>)
    qed
  qed
  then show ?thesis by (simp add: loop_inv_def)
qed

section \<open>A lost notification\<close>

text \<open>An event that is counted and notified after the loop has tested the counter and before it has
  fallen asleep wakes nobody: the loop sleeps over it.\<close>

definition overslept :: "event_queue \<Rightarrow> 'e \<Rightarrow> 'e event_loop" where
  "overslept q ev = \<lparr>el_event_seq = 1, el_last_seen = 0, el_queue = (\<lambda>_. [])(q := [ev]), el_publishers = (\<lambda>_. Away),
     el_waiter = Asleep, el_overdue = False, el_pushed = (\<lambda>_. [])(q := [ev]), el_handled = (\<lambda>_. [])\<rparr>"

lemma notification_lost:
  assumes "loop_initial s0"
  shows "(loop_step policy)\<^sup>*\<^sup>* s0 (overslept q ev)"
proof -
  let ?s1 = "test_counter s0"
  let ?s2 = "push_event 0 (Some (q, ev)) ?s1"
  let ?s3 = "publish_count 0 ?s2"
  let ?s4 = "publish_notify 0 ?s3"
  note simps = assms [unfolded loop_initial_def] loop_defs
  have "loop_step policy s0 ?s1" unfolding loop_step_def by (rule disjI1, rule tests) (simp add: simps)
  moreover have "loop_step policy ?s1 ?s2" unfolding loop_step_def by (rule disjI2, rule pushes) (simp add: simps)
  moreover have "loop_step policy ?s2 ?s3" unfolding loop_step_def by (rule disjI2, rule counts) (simp add: simps)
  moreover have "loop_step policy ?s3 ?s4" unfolding loop_step_def by (rule disjI2, rule notifies) (simp add: simps)
  moreover have "loop_step policy ?s4 (fall_asleep ?s4)" unfolding loop_step_def by (rule disjI1, rule sleeps) (simp add: simps)
  moreover have "fall_asleep ?s4 = overslept q ev" by (simp add: simps overslept_def fun_eq_iff)
  ultimately show ?thesis by (metis converse_rtranclp_into_rtranclp rtranclp.rtrancl_refl)
qed

text \<open>The loop itself cannot end this sleep before its deadline, and of what is around it only the
  clock, a spurious wake-up or a later notification does.\<close>

lemma sleeps_on:
  assumes "loop_step policy s t" and "el_waiter s = Asleep" and "\<not> el_overdue s" and "\<forall>p. el_publishers s p \<noteq> Counted"
  shows "el_waiter t = Asleep \<and> \<not> el_overdue t \<or> t = deadline_passes s \<or> t = wake s"
  using assms(1) [unfolded loop_step_def]
proof
  assume "loop_turn policy s t"
  then show ?thesis using assms(2-4) by cases auto
next
  assume "around_loop s t"
  then show ?thesis using assms(2-4) by cases (auto simp: loop_defs split: option.splits)
qed

definition demo_loop :: "nat event_loop" where
  "demo_loop = \<lparr>el_event_seq = 0, el_last_seen = 0, el_queue = (\<lambda>_. []), el_publishers = (\<lambda>_. Away),
     el_waiter = Looking, el_overdue = False, el_pushed = (\<lambda>_. []), el_handled = (\<lambda>_. [])\<rparr>"

lemma overslept_run: "\<exists>t. loop_runs HlMakerLtTaker 6 (deadline_passes (overslept FillQueue ev)) t"
proof -
  have "\<exists>t. loop_runs HlMakerLtTaker (Suc n) s t"
    if "loop_turn HlMakerLtTaker s u" and "\<exists>t. loop_runs HlMakerLtTaker n u t" for n and s u :: "'a event_loop"
    using that own by blast
  note own_step = this
  let ?s0 = "deadline_passes (overslept FillQueue ev)"
  let ?s1 = "wake ?s0" let ?s2 = "read_counter HlMakerLtTaker ?s1" let ?s3 = "drain_queue FillQueue [TradeQueue] ?s2"
  let ?s4 = "drain_queue TradeQueue [] ?s3" let ?s5 = "turn_ends ?s4"
  have 1: "loop_turn HlMakerLtTaker ?s0 ?s1" by (rule times_out) (simp_all add: overslept_def loop_defs)
  have 2: "loop_turn HlMakerLtTaker ?s1 ?s2" by (rule reads) (simp add: overslept_def loop_defs)
  have 3: "loop_turn HlMakerLtTaker ?s2 ?s3" by (rule drains) (simp add: loop_defs drained_by_def)
  have 4: "loop_turn HlMakerLtTaker ?s3 ?s4" by (rule drains) (simp add: loop_defs)
  have 5: "loop_turn HlMakerLtTaker ?s4 ?s5" by (rule ends) (simp add: loop_defs)
  have 6: "loop_turn HlMakerLtTaker ?s5 (test_counter ?s5)" by (rule tests) (simp add: loop_defs)
  have "\<exists>t. loop_runs HlMakerLtTaker 0 (test_counter ?s5) t" by (blast intro: here)
  from own_step [OF 1 own_step [OF 2 own_step [OF 3 own_step [OF 4 own_step [OF 5 own_step [OF 6 this]]]]]]
  show ?thesis by (simp add: numeral_eq_Suc)
qed

theorem no_event_overlooked_witness:
  "\<exists>t. loop_runs HlMakerLtTaker 6 (deadline_passes (overslept FillQueue (7 :: nat))) t \<and> prefix [7] (el_handled t FillQueue)"
proof -
  let ?s = "deadline_passes (overslept FillQueue (7 :: nat))"
  have init: "loop_initial demo_loop" by (simp add: loop_initial_def demo_loop_def)
  have "(loop_step HlMakerLtTaker)\<^sup>*\<^sup>* demo_loop ?s"
    using notification_lost [OF init, of HlMakerLtTaker FillQueue 7] clock [of "overslept FillQueue (7 :: nat)"]
    by (simp add: loop_step_def rtranclp.rtrancl_into_rtrancl)
  from no_event_overlooked [OF init this, of FillQueue]
  have "\<forall>n t. 6 \<le> n \<and> loop_runs HlMakerLtTaker n ?s t \<longrightarrow> prefix (el_pushed ?s FillQueue) (el_handled t FillQueue)"
    by (simp add: drained_by_def overslept_def deadline_passes_def)
  moreover obtain t where "loop_runs HlMakerLtTaker 6 ?s t" using overslept_run [of "7 :: nat"] by blast
  ultimately have "loop_runs HlMakerLtTaker 6 ?s t \<and> prefix [7] (el_handled t FillQueue)"
    by (auto simp: overslept_def deadline_passes_def)
  then show ?thesis by blast
qed

end
