(* ===== verification/Spec2Isabelle.thy ===== *)
theory Spec2Isabelle
  imports Risk Engine_Lighter_Safety Msgpack Crypto Feeds_Safety Native_Lighter_Safety Ws_Post_Safety Ws_Post_Answers
    Ws_Sendtx Nonce_Threads Native_Hl_Safety Main_Loop_Safety Feed_Sessions_Safety
    Adapters Public_Exchange Event_Loop
begin

text \<open>
  A model of \<open>hl-maker-lighter-arb-cpp\<close>, a program that quotes a maker order on one venue
  (Hyperliquid or Lighter) and hedges every fill with a taker order on the other.

  \<^bold>\<open>The program and its parts.\<close>  The feeds (\<open>src/market_feed.cpp\<close>) receive messages on the
  threads of their websocket connections, store the best quotes and queue fills and prints.
  The strategy loop (\<open>src/main_live.cpp\<close>) drains the queues into an engine, supervises the
  connections with the kill switch of the risk guard (\<open>src/risk.cpp\<close>) and runs the engine on
  market data.  The engine (\<open>src/engine.cpp\<close>) asks a hedger (\<open>src/strategy.cpp\<close>, a state machine)
  what to do and does it through the exchange interface (\<open>include/arb/exchange.hpp\<close>), under
  rate limits, with a journal (\<open>journal.hpp\<close>) and counters (\<open>perf.cpp\<close>).  Behind the interface
  are the native clients (\<open>src/native_trading.cpp\<close>), which build, sign (\<open>msgpack.cpp\<close>,
  \<open>crypto.cpp\<close>) and post actions over the two websocket transports (\<open>hl_ws_post.cpp\<close>,
  \<open>lighter_ws_sendtx.cpp\<close>).  Feeds and transports own a reconnecting client (\<open>src/ws_client.cpp\<close>).

  \<^bold>\<open>The theories.\<close>
  \<^item> \<open>Prelude\<close>, \<open>Doubles\<close>, \<open>Text\<close>: shared lemmas; IEEE doubles with rounding to nearest, infinities
    and NaN; the standard library's search, number parsers and regular expressions.
  \<^item> \<open>Types\<close> (\<open>types.hpp\<close>), \<open>Perf\<close> (\<open>perf.cpp\<close>), \<open>Journal\<close> (\<open>journal.hpp\<close>), \<open>Risk\<close> (\<open>risk.cpp\<close>): values,
    counters, the journal and the guard, one definition per method.
  \<^item> \<open>Hedger\<close>, \<open>Strategy_Hl\<close>, \<open>Strategy_Lighter\<close> (\<open>strategy.cpp\<close>): the two hedgers over one state, a
    well-formedness kept by every method, exactly when they place, and that they mirror each other.
  \<^item> \<open>Exchange\<close> (\<open>exchange.hpp\<close>): requests, acknowledgements, and the \<open>world\<close> of an engine: the
    calls to the venues so far (its \<open>trace\<close>), the counters and the journal.  A venue and the
    clocks answer as they like, given the calls so far.
  \<^item> \<open>Limiter\<close>: the interface of a rate limiter as a locale, interpreted for the places and the
    cancels of both engines.
  \<^item> \<open>Engine_Hl\<close>, \<open>Engine_Hl_Steps\<close>, \<open>Engine_Hl_Run\<close>, \<open>Engine_Hl_Safety\<close>, and \<open>Engine_Lighter\<close>,
    \<open>Engine_Lighter_Run\<close>, \<open>Engine_Lighter_Safety\<close> (\<open>engine.cpp\<close>): the methods, their invariants over
    any run, the rate limits, the position limit, and what a fill, a print and a cancel send.
  \<^item> \<open>Msgpack\<close>, \<open>Crypto\<close> (\<open>msgpack.cpp\<close>, \<open>crypto.cpp\<close>): a reader for the packed bytes; Keccak-256 is
    the sponge over the padded input; hexadecimal text.
  \<^item> \<open>Market_Parse\<close>, \<open>Market_Parse_Facts\<close>, \<open>Feeds\<close>, \<open>Feeds_Safety\<close> (\<open>market_feed.cpp\<close>): the parsers
    character by character, what they read from documented messages, the handlers and the waits.
  \<^item> \<open>Methods\<close>, \<open>Native_Common\<close>, \<open>Native_Lighter\<close>, \<open>Native_Lighter_Safety\<close>, \<open>Nonce_Threads\<close>,
    \<open>Native_Hl\<close>, \<open>Native_Hl_Safety\<close> (\<open>native_trading.cpp\<close>): the methods as state and exceptions; the
    nonces, also with the atomic operations of several threads interleaved; what is signed and
    what is sent.
  \<^item> \<open>Systems\<close>: locales for the invariant of a step relation and for a refinement.
    \<open>Ws_Post\<close>, \<open>Ws_Post_Safety\<close>, \<open>Ws_Post_Answers\<close> (\<open>hl_ws_post.cpp\<close>) and \<open>Ws_Sendtx\<close>
    (\<open>lighter_ws_sendtx.cpp\<close>): the transports as step relations over their threads.  A step is one
    critical section; a thread that holds a mutex while it waits for another is a state of its
    own, so deadlocks are visible.
  \<^item> \<open>Ws_Client\<close>, \<open>Ws_Client_Safety\<close> (\<open>ws_client.cpp\<close>): the client as a chain of asynchronous operations
    with the writes and the ping timer beside it; a run is a list of completions with their outcomes.
    Its sessions, the end of reconnecting, the order of messages.  \<open>Feed_Sessions\<close>,
    \<open>Feed_Sessions_Safety\<close>: every feed composed with its client, as its \<open>start\<close> does; a locale gives
    what ``subscribed'' means, another that each session is subscribed once.
  \<^item> \<open>Engine_Requests\<close>, \<open>Adapters\<close> (\<open>ws_exchange.hpp\<close>): the engines on the native clients.  Every order of a
    run is as configured; a trace is \<open>served\<close> when each answer in it is the native client's; then a live
    run posts each order once, with the asset of its coin and the signature of its hash, and a dry run
    posts nothing.  \<open>Public_Exchange\<close> (\<open>public_exchange.cpp\<close>): the
    clients that only read quotes, and the order book of the documentation read back.
  \<^item> \<open>Main_Loop\<close>, \<open>Main_Loop_Safety\<close> (\<open>main_live.cpp\<close>): configuration, start, callbacks and a turn of
    the loop, as functions of what they read from outside.  \<open>Event_Loop\<close>: how the callbacks' threads
    wake the loop, a step for each atomic action, with the loop's own steps counted apart from those
    around it; what is pushed is handled in every run that gives the loop its steps.

  \<^bold>\<open>Conventions.\<close>  Words of 64 and 32 bits wrap; signed 64-bit integers are \<open>int\<close> where the code only
  adds times and counts that stay far below the limit.  Doubles are exact rationals rounded as the
  hardware does, with one zero.  Text is a list of bytes.  An exception is \<open>Inl\<close> of its message.
  No function needs fuel: loops over text and queues recurse on them, and waits are lists of what
  is handled before each check.

  \<^bold>\<open>Not modelled.\<close>  The formatting of numbers in log lines and in the journal (their values are
  kept symbolic); console output; the wrapper of libcurl (\<open>http.cpp\<close>) and the sockets of
  Boost; the small command line programs; the signer library, secp256k1 and the venues, which
  are parameters.  The venues of an engine answer every call: an exception of a native client,
  which would end the program, is not followed through the engine (such a run is not \<open>served\<close>).
  The callback for a lost fill feed runs on the feed's thread without a lock; here it falls between
  the turns of the loop, never inside one, and what it throws is not followed into the websocket
  client.  The callbacks of the fill feed are taken to be set, as \<open>main\<close> sets them.  Stopping the
  program is left out.
\<close>

end
